(* ===== verification/Prelude.thy ===== *)
theory Prelude
  imports Main "HOL-Library.Word" "HOL-Library.Sublist"
begin

text \<open>
  Shared vocabulary of the development: machine integer types, the outcome types of fallible
  code, the operations of \<open>std::string\<close> that the sources use, and the generic lemmas about
  them that the component theories rely on.

  Strings are byte strings (a \<open>char\<close> of HOL is 8 bits wide, as in the C++ sources); a
  \<open>std::string::npos\<close> result is \<open>None\<close>.
\<close>

unbundle bit_operations_syntax

named_theorems str_simps \<open>characteristic equations of the string operations\<close>
named_theorems layout_simps \<open>equations about sizes, alignments and paddings\<close>

type_synonym u64 = "64 word"
type_synonym u32 = "32 word"

text \<open>The limits of \<open>uint64_t\<close> and \<open>int64_t\<close> as integers.\<close>

abbreviation (input) u64_max :: nat where "u64_max \<equiv> 18446744073709551615"
abbreviation (input) i64_max :: int where "i64_max \<equiv> 9223372036854775807"
abbreviation (input) i64_min :: int where "i64_min \<equiv> -9223372036854775808"

text \<open>
  C++ signed arithmetic that leaves the range of \<open>int64_t\<close> is undefined behaviour; a model
  that must not hide it returns \<open>None\<close> here.
\<close>

definition in_i64 :: "int \<Rightarrow> bool" where
  "in_i64 x \<longleftrightarrow> i64_min \<le> x \<and> x \<le> i64_max"

definition in_u64 :: "int \<Rightarrow> bool" where
  "in_u64 x \<longleftrightarrow> 0 \<le> x \<and> x \<le> 18446744073709551615"

section \<open>Fallible code\<close>

text \<open>\<open>Result<T>\<close> of the sources is a sum, with the error on the left.\<close>

fun result_bind :: "'e + 'a \<Rightarrow> ('a \<Rightarrow> 'e + 'b) \<Rightarrow> 'e + 'b" where
  "result_bind (Inl e) f = Inl e"
| "result_bind (Inr x) f = f x"

lemma result_bind_Inr_iff:
  "result_bind r f = Inr y \<longleftrightarrow> (\<exists>x. r = Inr x \<and> f x = Inr y)"
  by (cases r) auto

fun is_ok :: "'e + 'a \<Rightarrow> bool" where
  "is_ok (Inl e) = False"
| "is_ok (Inr x) = True"

lemma is_ok_iff: "is_ok r \<longleftrightarrow> (\<exists>x. r = Inr x)"
  by (cases r) auto

section \<open>Characters\<close>

definition char_code :: "char \<Rightarrow> nat" where
  "char_code c = of_char c"

lemma char_code_lt [simp]: "char_code c < 256"
  unfolding char_code_def by (metis nat_of_char_less_256)

lemma char_code_inject [simp]: "char_code a = char_code b \<longleftrightarrow> a = b"
  by (simp add: char_code_def)

definition chr_of :: "nat \<Rightarrow> char" where
  "chr_of n = char_of n"

lemma char_code_chr_of [simp]: "n < 256 \<Longrightarrow> char_code (chr_of n) = n"
  by (simp add: char_code_def chr_of_def)

definition is_digit :: "char \<Rightarrow> bool" where
  "is_digit c \<longleftrightarrow> 48 \<le> char_code c \<and> char_code c \<le> 57"

definition is_upper :: "char \<Rightarrow> bool" where
  "is_upper c \<longleftrightarrow> 65 \<le> char_code c \<and> char_code c \<le> 90"

definition is_lower :: "char \<Rightarrow> bool" where
  "is_lower c \<longleftrightarrow> 97 \<le> char_code c \<and> char_code c \<le> 122"

definition is_alnum :: "char \<Rightarrow> bool" where
  "is_alnum c \<longleftrightarrow> is_digit c \<or> is_upper c \<or> is_lower c"

definition is_space :: "char \<Rightarrow> bool" where
  "is_space c \<longleftrightarrow> char_code c = 32 \<or> (9 \<le> char_code c \<and> char_code c \<le> 13)"

text \<open>\<open>std::tolower\<close> and \<open>std::toupper\<close> in the "C" locale.\<close>

definition char_lower :: "char \<Rightarrow> char" where
  "char_lower c = (if is_upper c then chr_of (char_code c + 32) else c)"

definition char_upper :: "char \<Rightarrow> char" where
  "char_upper c = (if is_lower c then chr_of (char_code c - 32) else c)"

lemma char_lower_idem [simp]: "char_lower (char_lower c) = char_lower c"
  by (auto simp: char_lower_def is_upper_def)

section \<open>Positions in strings\<close>

text \<open>\<open>find_sub p s\<close> is the position of the first occurrence of \<open>p\<close> in \<open>s\<close>.\<close>

fun find_sub :: "'a list \<Rightarrow> 'a list \<Rightarrow> nat option" where
  "find_sub p [] = (if p = [] then Some 0 else None)"
| "find_sub p (c # cs) =
     (if prefix p (c # cs) then Some 0 else map_option Suc (find_sub p cs))"

text \<open>\<open>s.find(p, pos)\<close>.\<close>

definition str_find :: "'a list \<Rightarrow> 'a list \<Rightarrow> nat \<Rightarrow> nat option" where
  "str_find s p pos =
     (if length s < pos then None else map_option ((+) pos) (find_sub p (drop pos s)))"

text \<open>\<open>s.rfind(p)\<close>: the position of the last occurrence.\<close>

fun rfind_sub :: "'a list \<Rightarrow> 'a list \<Rightarrow> nat option" where
  "rfind_sub p [] = (if p = [] then Some 0 else None)"
| "rfind_sub p (c # cs) =
     (case rfind_sub p cs of
        Some i \<Rightarrow> Some (Suc i)
      | None \<Rightarrow> (if prefix p (c # cs) then Some 0 else None))"

text \<open>\<open>s.substr(pos, n)\<close> where \<open>pos\<close> is known to be at most the size.\<close>

definition substr :: "'a list \<Rightarrow> nat \<Rightarrow> nat \<Rightarrow> 'a list" where
  "substr s pos n = take n (drop pos s)"

lemma find_sub_Some:
  "find_sub p s = Some i \<Longrightarrow> i + length p \<le> length s \<and> s = take i s @ p @ drop (i + length p) s"
proof (induction s arbitrary: i)
  case Nil
  then show ?case by (auto split: if_splits)
next
  case (Cons c cs)
  show ?case
  proof (cases "prefix p (c # cs)")
    case True
    with Cons.prems have "i = 0" by simp
    from True obtain zs where "c # cs = p @ zs" by (auto simp: prefix_def)
    with \<open>i = 0\<close> show ?thesis by (metis add_0 append_Nil append_eq_conv_conj drop0 le_add1 length_append take0)
  next
    case False
    with Cons.prems obtain k where "find_sub p cs = Some k" "i = Suc k"
      by auto
    with Cons.IH show ?thesis by auto
  qed
qed

lemma find_sub_least:
  "s = u @ p @ v \<Longrightarrow> \<exists>i. find_sub p s = Some i \<and> i \<le> length u"
proof (induction s arbitrary: u)
  case Nil
  then show ?case by simp
next
  case (Cons c cs)
  show ?case
  proof (cases "prefix p (c # cs)")
    case True
    then show ?thesis by simp
  next
    case False
    with Cons.prems obtain u' where u: "u = c # u'" and "cs = u' @ p @ v"
      by (cases u) (auto simp: prefix_def)
    with Cons.IH obtain i where "find_sub p cs = Some i" "i \<le> length u'"
      by blast
    with u False show ?thesis by auto
  qed
qed

lemma find_sub_None_iff: "find_sub p s = None \<longleftrightarrow> (\<nexists>u v. s = u @ p @ v)"
proof
  assume "find_sub p s = None"
  then show "\<nexists>u v. s = u @ p @ v"
    by (metis find_sub_least option.distinct(1))
next
  assume "\<nexists>u v. s = u @ p @ v"
  then show "find_sub p s = None"
    by (metis find_sub_Some not_Some_eq)
qed

lemma find_sub_empty [simp]: "find_sub [] s = Some 0"
  by (cases s) auto

lemma find_sub_0_iff [simp]: "find_sub p s = Some 0 \<longleftrightarrow> prefix p s"
  by (cases s) auto

lemma find_sub_single:
  "find_sub [c] s = (if c \<in> set s then Some (length (takeWhile (\<lambda>x. x \<noteq> c) s)) else None)"
  by (induction s) auto

lemma rfind_sub_Some:
  "rfind_sub p s = Some i \<Longrightarrow> i + length p \<le> length s \<and> s = take i s @ p @ drop (i + length p) s"
proof (induction s arbitrary: i)
  case Nil
  then show ?case by (auto split: if_splits)
next
  case (Cons c cs)
  show ?case
  proof (cases "rfind_sub p cs")
    case None
    with Cons.prems have "i = 0" "prefix p (c # cs)" by (auto split: if_splits)
    then show ?thesis
      by (metis add_0 append_Nil append_eq_conv_conj drop0 le_add1 length_append prefix_def take0)
  next
    case (Some k)
    with Cons show ?thesis by auto
  qed
qed

section \<open>Decimal output\<close>

text \<open>What \<open>std::to_string\<close> and an \<open>ostream\<close> print for unsigned and signed integers.\<close>

fun digits_rev :: "nat \<Rightarrow> nat list" where
  "digits_rev n = (if n < 10 then [n] else (n mod 10) # digits_rev (n div 10))"

declare digits_rev.simps [simp del]

definition digit_char :: "nat \<Rightarrow> char" where
  "digit_char d = chr_of (48 + d)"

definition show_nat :: "nat \<Rightarrow> string" where
  "show_nat n = map digit_char (rev (digits_rev n))"

definition show_int :: "int \<Rightarrow> string" where
  "show_int i = (if i < 0 then CHR ''-'' # show_nat (nat (- i)) else show_nat (nat i))"

lemma digits_rev_bound: "d \<in> set (digits_rev n) \<Longrightarrow> d < 10"
proof (induction n rule: digits_rev.induct)
  case (1 n)
  then show ?case
    by (subst (asm) digits_rev.simps) (auto split: if_splits)
qed

lemma digits_rev_nonempty [simp]: "digits_rev n \<noteq> []"
  by (subst digits_rev.simps) simp

lemma show_nat_nonempty [simp]: "show_nat n \<noteq> []"
  by (simp add: show_nat_def)

lemma char_code_digit_char [simp]: "d < 10 \<Longrightarrow> char_code (digit_char d) = 48 + d"
  by (simp add: digit_char_def)

lemma show_nat_digits: "c \<in> set (show_nat n) \<Longrightarrow> is_digit c"
  by (auto simp: show_nat_def is_digit_def dest: digits_rev_bound)

section \<open>The interface of a number reader\<close>

text \<open>
  What the configuration, the attach point parser and the literal folder rely on when they hand a
  string to the integer parser: a printed number up to the limit is read back, and nothing above
  the limit is returned.
\<close>

locale number_reader =
  fixes read :: "string \<Rightarrow> 'e + nat" and limit :: nat
  assumes read_print: "n \<le> limit \<Longrightarrow> read (show_nat n) = Inr n"
    and read_bound: "read s = Inr n \<Longrightarrow> n \<le> limit"
begin

lemma readable_iff: "(\<exists>s. read s = Inr n) \<longleftrightarrow> n \<le> limit"
  using read_print read_bound by blast

lemma print_inject: "n \<le> limit \<Longrightarrow> m \<le> limit \<Longrightarrow> show_nat n = show_nat m \<longleftrightarrow> n = m"
  by (metis Inr_inject read_print)

lemma read_print_bind: "n \<le> limit \<Longrightarrow> result_bind (read (show_nat n)) f = f n"
  by (simp add: read_print)

lemma print_rejected_above: "limit < n \<Longrightarrow> read s \<noteq> Inr n"
  using read_bound by fastforce

end

end
