(* ===== verification/Str_Util.thy ===== *)
theory Str_Util
  imports Prelude
begin

text \<open>
  The string helpers of \<open>src/util/\<close>: splitting and joining, prefixes and parameter lists,
  the hexadecimal dump of a buffer, boolean words (\<open>strings.cpp\<close>), the wildcard matcher
  (\<open>wildcard.cpp\<close>), symbol names (\<open>symbols.cpp\<close>), the similarity test (\<open>similar.h\<close>) and
  the power-of-two rounding (\<open>math.cpp\<close>).
\<close>

section \<open>Splitting and joining\<close>

text \<open>
  \<open>std::getline\<close> in a loop: an element ends at the delimiter or at the end of the stream, and
  nothing is produced for an empty rest (so \<open>a:\<close> has one element).
\<close>

function getline_all :: "char \<Rightarrow> string \<Rightarrow> string list" where
  "getline_all d s =
     (if s = [] then []
      else takeWhile (\<lambda>c. c \<noteq> d) s # getline_all d (tl (dropWhile (\<lambda>c. c \<noteq> d) s)))"
  by pat_completeness auto
termination
proof (relation "measure (\<lambda>(d, s). length s)", goal_cases)
  case 1
  show ?case by simp
next
  case (2 d s)
  have le: "length (dropWhile (\<lambda>c. c \<noteq> d) s) \<le> length s"
    by (rule length_dropWhile_le)
  from 2 have "0 < length s" by simp
  with le have "length (tl (dropWhile (\<lambda>c. c \<noteq> d) s)) < length s"
    unfolding length_tl by linarith
  then show ?case by (simp only: in_measure prod.case)
qed

declare getline_all.simps [simp del]

definition split_string :: "string \<Rightarrow> char \<Rightarrow> bool \<Rightarrow> string list" where
  "split_string s delimiter remove_empty =
     (if remove_empty then filter (\<lambda>v. v \<noteq> []) (getline_all delimiter s)
      else getline_all delimiter s)"

fun str_join :: "string list \<Rightarrow> string \<Rightarrow> string" where
  "str_join [] delim = []"
| "str_join [x] delim = x"
| "str_join (x # y # xs) delim = x @ delim @ str_join (y # xs) delim"

lemma getline_all_Nil [simp]: "getline_all d [] = []"
  by (simp add: getline_all.simps)

lemma getline_all_last: "x \<noteq> [] \<Longrightarrow> d \<notin> set x \<Longrightarrow> getline_all d x = [x]"
  by (subst getline_all.simps) (metis (mono_tags, lifting) dropWhile_eq_Nil_conv getline_all_Nil
      list.sel(2) takeWhile_eq_all_conv)

lemma getline_all_delim: "d \<notin> set x \<Longrightarrow> getline_all d (x @ d # s) = x # getline_all d s"
proof -
  assume "d \<notin> set x"
  then have "\<And>y. y \<in> set x \<Longrightarrow> y \<noteq> d" by auto
  then show ?thesis
    by (subst getline_all.simps) (simp add: takeWhile_append2 dropWhile_append2)
qed

lemma getline_all_no_delim: "v \<in> set (getline_all d s) \<Longrightarrow> d \<notin> set v"
proof (induction d s rule: getline_all.induct)
  case (1 d s)
  then show ?case
    by (subst (asm) (2) getline_all.simps) (auto split: if_splits dest: set_takeWhileD)
qed

lemma split_join:
  "xs \<noteq> [] \<Longrightarrow> last xs \<noteq> [] \<Longrightarrow> \<forall>x \<in> set xs. d \<notin> set x \<Longrightarrow>
   split_string (str_join xs [d]) d False = xs"
proof (induction xs "[d]" rule: str_join.induct)
  case (2 x)
  then show ?case by (simp add: split_string_def getline_all_last)
next
  case (3 x y xs)
  then show ?case by (simp add: split_string_def getline_all_delim)
qed simp

text \<open>Removing the empty elements: no element is empty, none holds the delimiter.\<close>

lemma split_string_elems:
  "v \<in> set (split_string s d re) \<Longrightarrow> d \<notin> set v \<and> (re \<longrightarrow> v \<noteq> [])"
  by (auto simp: split_string_def getline_all_no_delim split: if_splits)

section \<open>Prefixes and parameter lists\<close>

text \<open>\<open>erase_prefix\<close> returns the prefix and the string it leaves behind.\<close>

definition erase_prefix :: "string \<Rightarrow> string \<times> string" where
  "erase_prefix s =
     (let p = (case str_find s [CHR '':''] 0 of None \<Rightarrow> s | Some i \<Rightarrow> substr s 0 i)
      in (p, drop (length p + 1) s))"

text \<open>
  The downward loop of \<open>erase_parameter_list\<close> from position \<open>n - 1\<close>: \<open>stack\<close> counts the
  parentheses still open, and the position at which it returns to 0 is the result.
\<close>

fun find_args_start :: "string \<Rightarrow> nat \<Rightarrow> int \<Rightarrow> nat option" where
  "find_args_start s 0 stack = None"
| "find_args_start s (Suc it) stack =
     (let stack1 = (if s ! it = CHR '')'' then stack + 1 else stack);
          stack2 = (if s ! it = CHR ''('' then stack1 - 1 else stack1)
      in if stack2 = 0 then Some it else find_args_start s it stack2)"

definition erase_parameter_list :: "string \<Rightarrow> string" where
  "erase_parameter_list name =
     (case rfind_sub [CHR '')''] name of
        None \<Rightarrow> name
      | Some lp \<Rightarrow>
          (case find_args_start name (Suc lp) 0 of None \<Rightarrow> name | Some i \<Rightarrow> take i name))"

lemma erase_prefix_colon:
  "CHR '':'' \<notin> set p \<Longrightarrow> erase_prefix (p @ CHR '':'' # s) = (p, s)"
  by (simp add: erase_prefix_def str_find_def find_sub_single substr_def Let_def takeWhile_append)

lemma erase_prefix_no_colon: "CHR '':'' \<notin> set p \<Longrightarrow> erase_prefix p = (p, [])"
  by (simp add: erase_prefix_def str_find_def find_sub_single Let_def)

lemma erase_parameter_list_prefix: "prefix (erase_parameter_list name) name"
  by (auto simp: erase_parameter_list_def take_is_prefix split: option.splits)

section \<open>Words for booleans\<close>

definition to_lower :: "string \<Rightarrow> string" where
  "to_lower s = map char_lower s"

definition to_upper :: "string \<Rightarrow> string" where
  "to_upper s = map char_upper s"

definition is_str_bool_truthy :: "string \<Rightarrow> bool" where
  "is_str_bool_truthy v = (let val = to_lower v in
     val = ''1'' \<or> val = ''true'' \<or> val = ''on'' \<or> val = ''yes'')"

definition is_str_bool_falsy :: "string \<Rightarrow> bool" where
  "is_str_bool_falsy v = (let val = to_lower v in
     val = ''0'' \<or> val = ''false'' \<or> val = ''off'' \<or> val = ''no'')"

lemma to_lower_idem [simp]: "to_lower (to_lower s) = to_lower s"
  by (simp add: to_lower_def)

lemma truthy_not_falsy: "is_str_bool_truthy v \<Longrightarrow> \<not> is_str_bool_falsy v"
  by (auto simp: is_str_bool_truthy_def is_str_bool_falsy_def Let_def)

section \<open>Hexadecimal dumps\<close>

definition hex_digit :: "nat \<Rightarrow> char" where
  "hex_digit d = (if d < 10 then chr_of (48 + d) else chr_of (87 + d))"

text \<open>\<open>%02x\<close> of a byte.\<close>

definition hex_byte :: "char \<Rightarrow> string" where
  "hex_byte c = [hex_digit (char_code c div 16), hex_digit (char_code c mod 16)]"

text \<open>What one iteration of \<open>hex_format_buffer\<close> appends; \<open>final\<close> is \<open>i == size - 1\<close>.\<close>

definition hex_format_byte :: "bool \<Rightarrow> bool \<Rightarrow> bool \<Rightarrow> char \<Rightarrow> string" where
  "hex_format_byte keep_ascii escape_hex final c =
     (if keep_ascii \<and> 32 \<le> char_code c \<and> char_code c \<le> 126 then [c]
      else if escape_hex then [CHR 0x5C, CHR ''x''] @ hex_byte c
      else if final then hex_byte c
      else hex_byte c @ '' '')"

fun hex_format_buffer :: "string \<Rightarrow> bool \<Rightarrow> bool \<Rightarrow> string" where
  "hex_format_buffer [] keep_ascii escape_hex = []"
| "hex_format_buffer (c # buf) keep_ascii escape_hex =
     hex_format_byte keep_ascii escape_hex (buf = []) c @
     hex_format_buffer buf keep_ascii escape_hex"

lemma length_hex_format_byte: "length (hex_format_byte k e l c) \<le> 4"
  by (simp add: hex_format_byte_def hex_byte_def)

text \<open>
  The sources write into a buffer of \<open>size * 4 + 1\<close> bytes, and every \<open>sprintf\<close> also writes
  a terminating NUL: the dump never leaves the buffer.
\<close>

lemma length_hex_format_buffer:
  "length (hex_format_buffer buf k e) + 1 \<le> 4 * length buf + 1"
proof (induction buf)
  case (Cons c buf)
  then show ?case using length_hex_format_byte [of k e "buf = []" c] by simp
qed simp

text \<open>Reading a dump back: the inverse used to state that a dump loses nothing.\<close>

definition hex_value :: "char \<Rightarrow> nat" where
  "hex_value c = (if is_digit c then char_code c - 48 else char_code c - 87)"

fun undump :: "string \<Rightarrow> string" where
  "undump (a # b # c # d # s) = chr_of (16 * hex_value c + hex_value d) # undump s"
| "undump s = []"

lemma hex_value_digit: "d < 16 \<Longrightarrow> hex_value (hex_digit d) = d"
  by (auto simp: hex_value_def hex_digit_def is_digit_def)

lemma undump_hex_byte:
  "chr_of (16 * hex_value (hex_digit (char_code c div 16)) + hex_value (hex_digit (char_code c mod 16))) = c"
proof -
  have "char_code c div 16 < 16" by (rule less_mult_imp_div_less) simp
  then have "16 * hex_value (hex_digit (char_code c div 16)) + hex_value (hex_digit (char_code c mod 16)) = char_code c"
    by (simp add: hex_value_digit)
  then show ?thesis by (simp add: chr_of_def char_code_def)
qed

lemma undump_hex_format: "undump (hex_format_buffer buf False True) = buf"
  by (induction buf) (simp_all add: hex_format_byte_def hex_byte_def undump_hex_byte)

section \<open>Wildcards\<close>

definition has_wildcard :: "string \<Rightarrow> bool" where
  "has_wildcard s \<longleftrightarrow>
     str_find s ''*'' 0 \<noteq> None \<or> (str_find s ''['' 0 \<noteq> None \<and> str_find s '']'' 0 \<noteq> None)"

text \<open>
  The tokens with the two flags; for an empty input the C++ code returns no token and leaves
  the caller's flags as they were (\<open>sw\<close>, \<open>ew\<close>).
\<close>

definition get_wildcard_tokens :: "string \<Rightarrow> bool \<Rightarrow> bool \<Rightarrow> string list \<times> bool \<times> bool" where
  "get_wildcard_tokens input sw ew =
     (if input = [] then ([], sw, ew)
      else (filter (\<lambda>t. t \<noteq> []) (split_string input CHR ''*'' False),
            hd input = CHR ''*'', last input = CHR ''*''))"

text \<open>The loop over the tokens: \<open>next\<close> is the position the next search starts from.\<close>

fun wildcard_scan :: "string \<Rightarrow> string list \<Rightarrow> nat \<Rightarrow> nat option" where
  "wildcard_scan str [] pos = Some pos"
| "wildcard_scan str (t # ts) pos =
     (case str_find str t pos of
        None \<Rightarrow> None
      | Some found \<Rightarrow> wildcard_scan str ts (found + length t))"

text \<open>
  \<open>None\<close> is the out-of-range read \<open>tokens[0]\<close> of an anchored match without tokens.
\<close>

definition wildcard_match :: "string \<Rightarrow> string list \<Rightarrow> bool \<Rightarrow> bool \<Rightarrow> bool option" where
  "wildcard_match str tokens start_wildcard end_wildcard =
     (if \<not> start_wildcard \<and> tokens = [] then None
      else if \<not> start_wildcard \<and> str_find str (hd tokens) 0 \<noteq> Some 0 then Some False
      else (case wildcard_scan str tokens 0 of
              None \<Rightarrow> Some False
            | Some next \<Rightarrow> Some (end_wildcard \<or> length str = next)))"

text \<open>
  What a match means: the tokens occur in order and without overlap, from the start of the
  string when \<open>sw\<close> is off, and up to its end when \<open>ew\<close> is off.
\<close>

fun glob_spec :: "bool \<Rightarrow> bool \<Rightarrow> string list \<Rightarrow> string \<Rightarrow> bool" where
  "glob_spec sw ew [] s \<longleftrightarrow> ew \<or> s = []"
| "glob_spec sw ew (t # ts) s \<longleftrightarrow>
     (\<exists>u v. s = u @ t @ v \<and> (sw \<or> u = []) \<and>
        (if ts = [] then ew \<or> v = [] else glob_spec True ew ts v))"

lemma glob_spec_True_Cons:
  "glob_spec True ew (t # ts) s \<longleftrightarrow>
     (\<exists>u v. s = u @ t @ v \<and> (if ts = [] then ew \<or> v = [] else glob_spec True ew ts v))"
  by simp

lemma wildcard_scan_mono:
  "wildcard_scan str ts pos = Some e \<Longrightarrow> pos \<le> length str \<Longrightarrow> pos \<le> e \<and> e \<le> length str"
proof (induction ts arbitrary: pos)
  case (Cons t ts)
  from Cons.prems obtain f where f: "str_find str t pos = Some f"
    and e: "wildcard_scan str ts (f + length t) = Some e"
    by (auto split: option.splits)
  from f Cons.prems(2) have "pos \<le> f" "f + length t \<le> length str"
    by (auto simp: str_find_def split: if_splits dest: find_sub_Some)
  with Cons.IH [OF e] show ?case by simp
qed simp

text \<open>A greedy scan that succeeds is a match of the specification.\<close>

lemma wildcard_scan_sound:
  "wildcard_scan str ts pos = Some e \<Longrightarrow> pos \<le> length str \<Longrightarrow> ts \<noteq> [] \<Longrightarrow>
   ew \<or> e = length str \<Longrightarrow> glob_spec True ew ts (drop pos str)"
proof (induction ts arbitrary: pos)
  case (Cons t ts)
  from Cons.prems obtain k where k: "find_sub t (drop pos str) = Some k"
    and e: "wildcard_scan str ts (pos + k + length t) = Some e"
    by (auto simp: str_find_def split: option.splits)
  from find_sub_Some [OF k] Cons.prems(2)
  have le: "pos + k + length t \<le> length str"
    and eq: "drop pos str = take k (drop pos str) @ t @ drop (pos + k + length t) str"
    by (auto simp: add.commute add.left_commute)
  show ?case
  proof (cases "ts = []")
    case True
    with e Cons.prems(4) have "ew \<or> drop (pos + k + length t) str = []" by auto
    with True show ?thesis unfolding glob_spec_True_Cons
      by (intro exI [of _ "take k (drop pos str)"] exI [of _ "drop (pos + k + length t) str"])
        (use eq in simp)
  next
    case False
    from Cons.IH [OF e le False Cons.prems(4)] eq False show ?thesis
      unfolding glob_spec_True_Cons by auto
  qed
qed simp

text \<open>
  Taking the first occurrence of each token never loses a match whose end is open: what is left
  behind an earlier occurrence contains what is left behind a later one.
\<close>

lemma glob_spec_True_prepend:
  "ts \<noteq> [] \<Longrightarrow> glob_spec True True ts s \<Longrightarrow> glob_spec True True ts (w @ s)"
  by (cases ts) (auto simp del: append_assoc simp: append_assoc [symmetric], metis append_assoc)

lemma wildcard_scan_complete:
  "glob_spec True True ts (drop pos str) \<Longrightarrow> ts \<noteq> [] \<Longrightarrow> pos \<le> length str \<Longrightarrow>
   \<exists>e. wildcard_scan str ts pos = Some e"
proof (induction ts arbitrary: pos)
  case (Cons t ts)
  then obtain u v where uv: "drop pos str = u @ t @ v" and v: "ts = [] \<or> glob_spec True True ts v"
    unfolding glob_spec_True_Cons by (auto split: if_splits)
  from find_sub_least [OF uv] obtain k where k: "find_sub t (drop pos str) = Some k" "k \<le> length u"
    by auto
  have le: "pos + k + length t \<le> length str"
    using conjunct1 [OF find_sub_Some [OF k(1)]] Cons.prems(3) unfolding length_drop by linarith
  have sc: "wildcard_scan str (t # ts) pos = wildcard_scan str ts (pos + k + length t)"
    using k Cons.prems(3) by (simp add: str_find_def)
  show ?case
  proof (cases "ts = []")
    case True
    with sc show ?thesis by simp
  next
    case False
    have "drop (pos + k + length t) str = drop (k + length t) (u @ t @ v)"
      using uv by (metis add.assoc add.commute drop_drop)
    also have "\<dots> = drop (k + length t) (u @ t) @ v"
      using k(2) by simp
    finally have "glob_spec True True ts (drop (pos + k + length t) str)"
      using v False by (metis glob_spec_True_prepend)
    from Cons.IH [OF this False le] sc show ?thesis by simp
  qed
qed simp

section \<open>Symbol names\<close>

definition symbol_has_module :: "string \<Rightarrow> bool" where
  "symbol_has_module symbol \<longleftrightarrow> symbol \<noteq> [] \<and> last symbol = CHR '']''"

definition split_symbol_module :: "string \<Rightarrow> string \<times> string" where
  "split_symbol_module symbol =
     (if \<not> symbol_has_module symbol then (symbol, [])
      else (case rfind_sub '' ['' symbol of
              None \<Rightarrow> (symbol, [])
            | Some idx \<Rightarrow>
                (substr symbol 0 idx, substr symbol (idx + 2) (length symbol - idx - 3))))"

definition symbol_has_cpp_mangled_signature :: "string \<Rightarrow> bool" where
  "symbol_has_cpp_mangled_signature s \<longleftrightarrow> prefix ''_Z'' s \<or> prefix ''____Z'' s"

lemma rfind_sub_append_fresh:
  "\<lbrakk>p \<noteq> []; \<And>u v. w \<noteq> u @ p @ v; \<And>u v. tl p @ w \<noteq> u @ p @ v\<rbrakk> \<Longrightarrow>
   rfind_sub p (s @ p @ w) = Some (length s)"
proof -
  assume p: "p \<noteq> []" and tlw: "\<And>u v. tl p @ w \<noteq> u @ p @ v"
  have none: "rfind_sub p (tl p @ w) = None"
  proof (cases "rfind_sub p (tl p @ w)")
    case (Some i)
    then show ?thesis using rfind_sub_Some tlw by blast
  qed
  from p obtain c p' where "p = c # p'" by (cases p) auto
  with none have "rfind_sub p (p @ w) = Some 0" by simp
  then show ?thesis by (induction s) auto
qed

text \<open>A symbol and a module printed as \<open>sym [mod]\<close> are read back, for modules without \<open> [\<close>.\<close>

lemma split_symbol_module_print:
  assumes "\<And>u v. CHR ''['' # m @ '']'' \<noteq> u @ '' ['' @ v"
  shows "split_symbol_module (s @ '' ['' @ m @ '']'') = (s, m)"
proof -
  have "rfind_sub '' ['' (s @ '' ['' @ (m @ '']'')) = Some (length s)"
  proof (rule rfind_sub_append_fresh)
    show "'' ['' \<noteq> []" by simp
    show "m @ '']'' \<noteq> u @ '' ['' @ v" for u v
      using assms [of "CHR ''['' # u" v] by auto
    show "tl '' ['' @ m @ '']'' \<noteq> u @ '' ['' @ v" for u v
      using assms [of u v] by simp
  qed
  then show ?thesis
    by (simp add: split_symbol_module_def symbol_has_module_def substr_def)
qed

section \<open>Similar strings\<close>

text \<open>
  The window loop of \<open>is_similar\<close>: the window \<open>[i, j)\<close> of the user's string grows when it occurs
  in the target and slides when it does not; \<open>common\<close> is assigned on every hit.
\<close>

function similar_scan :: "string \<Rightarrow> string \<Rightarrow> nat \<Rightarrow> nat \<Rightarrow> nat \<Rightarrow> nat" where
  "similar_scan user target i j common =
     (if j \<le> length user then
        (if find_sub (substr user i (j - i)) target \<noteq> None
         then similar_scan user target i (j + 1) (j - i)
         else similar_scan user target (i + 1) j common)
      else common)"
  by pat_completeness auto
termination
proof (relation "measure (\<lambda>(user, target, i, j, common). 2 * (length user + 1 - j) + (j - i))", goal_cases)
  case 1
  show ?case by simp
next
  case (2 user target i j common)
  then show ?case by auto
next
  case (3 user target i j common)
  then have "i < j" by (cases "i < j") (auto simp: substr_def)
  with 3 show ?case by auto
qed

declare similar_scan.simps [simp del]

definition is_similar :: "string \<Rightarrow> string \<Rightarrow> bool" where
  "is_similar user target =
     (let common = similar_scan user target 0 1 0; sz = min (length user) (length target)
      in 1 < common \<and> sz div 2 \<le> common)"

text \<open>Whatever the loop returns is the length of a common substring, or 0.\<close>

definition common_substring :: "string \<Rightarrow> string \<Rightarrow> nat \<Rightarrow> bool" where
  "common_substring a b n \<longleftrightarrow> (\<exists>w. length w = n \<and> sublist w a \<and> sublist w b)"

lemma similar_scan_common:
  "common_substring user target common \<Longrightarrow>
   common_substring user target (similar_scan user target i j common)"
proof (induction user target i j common rule: similar_scan.induct)
  case (1 user target i j common)
  show ?case
  proof (cases "j \<le> length user \<and> find_sub (substr user i (j - i)) target \<noteq> None")
    case True
    then obtain k where k: "find_sub (substr user i (j - i)) target = Some k" by auto
    have "sublist (substr user i (j - i)) target"
      using find_sub_Some [OF k] by (metis sublist_appendI)
    moreover have "sublist (substr user i (j - i)) user"
      unfolding substr_def by (meson sublist_drop sublist_order.order.trans sublist_take)
    moreover have "length (substr user i (j - i)) = j - i"
      using True by (auto simp: substr_def min_def)
    ultimately have "common_substring user target (j - i)"
      unfolding common_substring_def by blast
    with True "1.IH"(1) show ?thesis by (subst similar_scan.simps) simp
  next
    case False
    with 1 show ?thesis by (subst similar_scan.simps) auto
  qed
qed

section \<open>Rounding up to a power of two\<close>

text \<open>The \<open>assert\<close> on \<open>n\<close> is compiled out of release builds and is not part of the model.\<close>

definition smear_step :: "nat \<Rightarrow> u32 \<Rightarrow> u32" where
  "smear_step k n = n OR drop_bit k n"

definition round_up_to_next_power_of_two :: "u32 \<Rightarrow> u32" where
  "round_up_to_next_power_of_two n =
     (if n = 0 then 0
      else smear_step 16 (smear_step 8 (smear_step 4 (smear_step 2 (smear_step 1 (n - 1))))) + 1)"

definition smeared :: "nat \<Rightarrow> u32 \<Rightarrow> u32 \<Rightarrow> bool" where
  "smeared m x y \<longleftrightarrow> (\<forall>i. bit y i \<longleftrightarrow> (\<exists>d<m. bit x (i + d)))"

lemma smeared_step: "smeared m x y \<Longrightarrow> smeared (2 * m) x (smear_step m y)"
  unfolding smeared_def smear_step_def
proof (intro allI)
  fix i
  assume y: "\<forall>i. bit y i \<longleftrightarrow> (\<exists>d<m. bit x (i + d))"
  have "bit (y OR drop_bit m y) i \<longleftrightarrow> (\<exists>d<m. bit x (i + d)) \<or> (\<exists>d<m. bit x (i + m + d))"
    using y by (simp add: bit_or_iff bit_drop_bit_eq add.commute)
  also have "\<dots> \<longleftrightarrow> (\<exists>d<2 * m. bit x (i + d))"
  proof
    assume "(\<exists>d<m. bit x (i + d)) \<or> (\<exists>d<m. bit x (i + m + d))"
    then show "\<exists>d<2 * m. bit x (i + d)"
    proof
      assume "\<exists>d<m. bit x (i + m + d)"
      then obtain d where "d < m" "bit x (i + m + d)" by blast
      then show ?thesis by (intro exI [of _ "m + d"]) (simp add: add.assoc)
    qed (metis add_lessD1 less_iff_Suc_add mult_2 trans_less_add1)
  next
    assume "\<exists>d<2 * m. bit x (i + d)"
    then obtain d where d: "d < 2 * m" "bit x (i + d)" by blast
    show "(\<exists>d<m. bit x (i + d)) \<or> (\<exists>d<m. bit x (i + m + d))"
    proof (cases "d < m")
      case False
      with d have "d - m < m" "bit x (i + m + (d - m))" by auto
      then show ?thesis by blast
    qed (use d in blast)
  qed
  finally show "bit (y OR drop_bit m y) i \<longleftrightarrow> (\<exists>d<2 * m. bit x (i + d))" .
qed

lemma smeared_all:
  "smeared 32 x (smear_step 16 (smear_step 8 (smear_step 4 (smear_step 2 (smear_step 1 x)))))"
proof -
  have "smeared 1 x x" by (simp add: smeared_def)
  from smeared_step [OF smeared_step [OF smeared_step [OF smeared_step [OF smeared_step [OF this]]]]]
  show ?thesis by simp
qed

text \<open>A smeared word is a mask of the bits up to the highest bit of the original.\<close>

lemma smeared_mask:
  assumes "smeared 32 x y" "2 ^ k \<le> unat x" "unat x < 2 ^ Suc k" "k < 32"
  shows "y = mask (Suc k)"
proof (rule bit_word_eqI)
  have hi: "bit x k"
  proof -
    have "odd (unat x div 2 ^ k)"
    proof -
      have "unat x div 2 ^ k = 1"
        using assms(2,3) by (auto intro!: div_nat_eqI)
      then show ?thesis by simp
    qed
    then have "bit (unat x) k" by (simp add: bit_iff_odd)
    then show ?thesis by (simp add: bit_unsigned_iff)
  qed
  have above: "\<not> bit x n" if "k < n" for n
  proof -
    have "unat x < 2 ^ n"
      using assms(3) that by (metis Suc_leI one_less_numeral_iff order_less_le_trans power_increasing_iff semiring_norm(76))
    then have "\<not> bit (unat x) n" by (simp add: bit_iff_odd)
    then show ?thesis by (auto simp: bit_unsigned_iff dest: bit_imp_le_length)
  qed
  fix n
  assume n: "n < LENGTH(32)"
  have "bit y n \<longleftrightarrow> n \<le> k"
  proof
    assume "bit y n"
    then obtain d where "bit x (n + d)" using assms(1) by (auto simp: smeared_def)
    then show "n \<le> k" using above [of "n + d"] by (cases "k < n + d") auto
  next
    assume "n \<le> k"
    then have "bit x (n + (k - n))" "k - n < 32" using hi assms(4) by auto
    then show "bit y n" using assms(1) by (auto simp: smeared_def)
  qed
  then show "bit y n \<longleftrightarrow> bit (mask (Suc k) :: u32) n"
    using n by (auto simp: bit_mask_iff)
qed

section \<open>Properties\<close>

lemma unat_mask_plus_1: "k < 31 \<Longrightarrow> unat (mask (Suc k) + 1 :: u32) = 2 ^ Suc k"
proof -
  assume "k < 31"
  then have lt: "(2::nat) ^ Suc k < 2 ^ 32" by (intro power_strict_increasing) auto
  have "(mask (Suc k) + 1 :: u32) = 2 ^ Suc k" by (simp add: mask_eq_exp_minus_1)
  also have "\<dots> = of_nat (2 ^ Suc k)" by simp
  finally show ?thesis using lt by (simp only: unat_of_nat) (simp add: take_bit_nat_eq_self)
qed

lemma highest_power: "0 < (x::nat) \<Longrightarrow> \<exists>k. 2 ^ k \<le> x \<and> x < 2 ^ Suc k"
proof (induction x rule: less_induct)
  case (less x)
  show ?case
  proof (cases "x = 1")
    case True
    then show ?thesis by (intro exI [of _ 0]) simp
  next
    case False
    with less.prems have "0 < x div 2" "x div 2 < x" by auto
    from less.IH [OF this(2,1)] obtain k where "2 ^ k \<le> x div 2" "x div 2 < 2 ^ Suc k" by blast
    then have "2 ^ Suc k \<le> x" "x < 2 ^ Suc (Suc k)" by auto
    then show ?thesis by blast
  qed
qed

text \<open>for every argument from 1 to \<open>2 ^ 31\<close>, the bit-smearing rounding returns the least
  power of two that is not below its argument.\<close>

theorem round_up_is_next_power:
  assumes "0 < unat n" "unat n \<le> 2 ^ 31"
  shows "\<exists>k. unat (round_up_to_next_power_of_two n) = 2 ^ k \<and> unat n \<le> 2 ^ k \<and> 2 ^ k < 2 * unat n"
proof -
  have n0: "n \<noteq> 0" using assms(1) by auto
  have x: "unat (n - 1) = unat n - 1" using n0 by (simp add: unat_minus_one)
  show ?thesis
  proof (cases "n = 1")
    case True
    then show ?thesis
      by (intro exI [of _ 0]) (simp add: round_up_to_next_power_of_two_def smear_step_def)
  next
    case False
    with n0 x have "0 < unat (n - 1)" by (metis diff_add_cancel eq_iff_diff_eq_0 unat_gt_0)
    from highest_power [OF this] obtain k where k: "2 ^ k \<le> unat (n - 1)" "unat (n - 1) < 2 ^ Suc k"
      by blast
    have "(2::nat) ^ k < 2 ^ 31" using k(1) x assms by linarith
    then have k31: "k < 31" by (rule power_less_imp_less_exp [rotated]) simp
    from smeared_mask [OF smeared_all k] k31 n0
    have "round_up_to_next_power_of_two n = mask (Suc k) + 1"
      by (simp add: round_up_to_next_power_of_two_def)
    with unat_mask_plus_1 [OF k31] have "unat (round_up_to_next_power_of_two n) = 2 ^ Suc k" by simp
    moreover have "unat n \<le> 2 ^ Suc k" "2 ^ Suc k < 2 * unat n" using k x assms(1) by auto
    ultimately show ?thesis by blast
  qed
qed

theorem round_up_is_next_power_witness:
  "\<exists>k. unat (round_up_to_next_power_of_two 5) = 2 ^ k \<and> unat (5 :: u32) \<le> 2 ^ k \<and> 2 ^ k < 2 * unat (5 :: u32)"
  by (rule round_up_is_next_power) simp_all

lemma scan_first_at_0:
  "str_find str t 0 = Some 0 \<Longrightarrow> wildcard_scan str (t # ts) 0 = wildcard_scan str ts (length t)"
  by simp

text \<open>C17: the wildcard matcher is sound: when it accepts, the tokens do occur in the string in
  order and without overlap, anchored at the ends that carry no star.\<close>

theorem wildcard_match_sound:
  assumes "wildcard_match str tokens sw ew = Some True"
  shows "glob_spec sw ew tokens str"
proof (cases tokens)
  case Nil
  with assms show ?thesis by (auto simp: wildcard_match_def split: if_splits)
next
  case (Cons t ts)
  from assms Cons obtain e where e: "wildcard_scan str (t # ts) 0 = Some e" "ew \<or> length str = e"
    and st: "sw \<or> str_find str t 0 = Some 0"
    by (auto simp: wildcard_match_def split: if_splits option.splits)
  show ?thesis
  proof (cases sw)
    case True
    have "glob_spec True ew (t # ts) (drop 0 str)"
      by (rule wildcard_scan_sound [OF e(1)]) (use e(2) in auto)
    with Cons True show ?thesis by (simp only: drop_0)
  next
    case False
    with st have f0: "str_find str t 0 = Some 0" by simp
    then have "prefix t str" by (simp add: str_find_def)
    then obtain v where v: "str = t @ v" by (auto simp: prefix_def)
    have e': "wildcard_scan str ts (length t) = Some e"
      using e(1) scan_first_at_0 [OF f0] by simp
    have rest: "if ts = [] then ew \<or> v = [] else glob_spec True ew ts v"
    proof (cases "ts = []")
      case True
      with e' e(2) v show ?thesis by auto
    next
      case False
      from wildcard_scan_sound [OF e' _ False] e(2) v False show ?thesis by auto
    qed
    have "\<exists>u w. str = u @ t @ w \<and> (sw \<or> u = []) \<and> (if ts = [] then ew \<or> w = [] else glob_spec True ew ts w)"
      using v rest by (intro exI [of _ "[]"] exI [of _ v]) simp
    then show ?thesis unfolding Cons glob_spec.simps .
  qed
qed

theorem wildcard_match_sound_witness:
  "glob_spec False True [''sys_'', ''at''] ''sys_openat2''"
  by (rule wildcard_match_sound) code_simp

text \<open>a pattern that ends in a star is matched completely: whenever the tokens can be placed,
  the greedy left-to-right scan finds a placement.\<close>

theorem wildcard_match_complete:
  assumes "glob_spec sw True tokens str" "sw \<or> tokens \<noteq> []"
  shows "wildcard_match str tokens sw True = Some True"
proof (cases tokens)
  case Nil
  with assms show ?thesis by (simp add: wildcard_match_def)
next
  case (Cons t ts)
  show ?thesis
  proof (cases sw)
    case True
    with wildcard_scan_complete [of tokens 0 str] assms Cons show ?thesis
      by (auto simp: wildcard_match_def)
  next
    case False
    from assms(1) Cons False obtain v where v: "str = t @ v" and r: "ts = [] \<or> glob_spec True True ts v"
      by (auto split: if_splits)
    then have f0: "str_find str t 0 = Some 0" by (simp add: str_find_def)
    have "\<exists>e. wildcard_scan str ts (length t) = Some e"
      using r v wildcard_scan_complete [of ts "length t" str] by (cases "ts = []") auto
    with f0 Cons show ?thesis by (auto simp: wildcard_match_def)
  qed
qed

theorem wildcard_match_complete_witness:
  "wildcard_match ''sys_openat2'' [''sys_'', ''at''] False True = Some True"
proof (rule wildcard_match_complete)
  have "''sys_openat2'' = [] @ ''sys_'' @ ''openat2'' \<and> ''openat2'' = ''open'' @ ''at'' @ ''2''" by simp
  then show "glob_spec False True [''sys_'', ''at''] ''sys_openat2''"
    unfolding glob_spec.simps by (metis list.distinct(1))
qed simp

text \<open>With a closed end the greedy scan is not complete: \<open>*ab\<close> does not match \<open>abab\<close>.\<close>

lemma wildcard_match_end_incomplete:
  "wildcard_match ''abab'' [''ab''] True False = Some False"
  "glob_spec True False [''ab''] ''abab''"
proof -
  show "wildcard_match ''abab'' [''ab''] True False = Some False" by code_simp
  show "glob_spec True False [''ab''] ''abab''"
    unfolding glob_spec.simps by (intro exI [of _ "''ab''"] exI [of _ "[]"]) simp
qed

text \<open>
  The similarity test promises the largest common substring, but the last hit of the sliding
  window overwrites a longer one: a name with one trailing letter too many is not similar.
\<close>

lemma similar_scan_forgets:
  "similar_scan ''abcx'' ''abc'' 0 1 0 = 0" "common_substring ''abcx'' ''abc'' 3"
  "\<not> is_similar ''abcx'' ''abc''"
proof -
  show scan: "similar_scan ''abcx'' ''abc'' 0 1 0 = 0" by code_simp
  then show "\<not> is_similar ''abcx'' ''abc''" by (simp add: is_similar_def)
  show "common_substring ''abcx'' ''abc'' 3"
    unfolding common_substring_def by (intro exI [of _ "''abc''"]) (simp add: sublist_def, blast)
qed

end
