(* ===== verification/Int_Parser.thy ===== *)
theory Int_Parser
  imports Prelude
begin

text \<open>
  Integer literals, \<open>src/util/int_parser.cpp\<close>: \<open>to_uint\<close> with underscores, base prefixes,
  scientific notation and unit suffixes, and \<open>to_int\<close> on top of it. Values of \<open>uint64_t\<close> are
  natural numbers below \<open>2 ^ 64\<close>, which the code's own range checks establish (\<open>to_uint_bound\<close>).
\<close>

section \<open>\<open>strtoull\<close>\<close>

text \<open>
  The C library function the parser calls, as ISO C defines it (the prefix \<open>0x\<close> is optional in
  bases 0 and 16, and a minus sign negates modulo \<open>2 ^ 64\<close>). The result is the value, the string
  from \<open>endptr\<close> on, and whether \<open>errno\<close> is \<open>ERANGE\<close>. The binary prefix that the 2023
  revision of C adds to bases 0 and 2 is left out.
\<close>

definition digit_val :: "char \<Rightarrow> nat" where
  "digit_val c =
     (if is_digit c then char_code c - 48
      else if is_lower c then char_code c - 87
      else if is_upper c then char_code c - 55 else 36)"

definition digits_value :: "nat \<Rightarrow> string \<Rightarrow> nat" where
  "digits_value base ds = foldl (\<lambda>a c. a * base + digit_val c) 0 ds"

definition hex_prefixed :: "string \<Rightarrow> bool" where
  "hex_prefixed s \<longleftrightarrow> (prefix ''0x'' s \<or> prefix ''0X'' s) \<and> 2 < length s \<and> digit_val (s ! 2) < 16"

definition strtoull_base :: "nat \<Rightarrow> string \<Rightarrow> nat \<times> string" where
  "strtoull_base base s =
     (if (base = 0 \<or> base = 16) \<and> hex_prefixed s then (16, drop 2 s)
      else if base = 0 then (if prefix ''0'' s then 8 else 10, s)
      else (base, s))"

definition strtoull :: "string \<Rightarrow> nat \<Rightarrow> nat \<times> string \<times> bool" where
  "strtoull s base =
     (let s1 = dropWhile is_space s;
          neg = prefix ''-'' s1;
          s2 = (if prefix ''-'' s1 \<or> prefix ''+'' s1 then tl s1 else s1);
          (b, s3) = strtoull_base base s2;
          ds = takeWhile (\<lambda>c. digit_val c < b) s3;
          rest = drop (length ds) s3;
          v = digits_value b ds
      in if ds = [] then (0, s, False)
         else if u64_max < v then (u64_max, rest, True)
         else if neg then ((2 ^ 64 - v) mod 2 ^ 64, rest, False)
         else (v, rest, False))"

section \<open>\<open>to_uint\<close>\<close>

datatype num_error =
    OverflowError string nat
  | NumberFormatError string string

text \<open>What \<open>log\<close> prints of an error.\<close>

fun num_error_str :: "num_error \<Rightarrow> string" where
  "num_error_str (OverflowError num limit) =
     ''overflow error, maximum value is '' @ show_nat limit @ '': '' @ num"
| "num_error_str (NumberFormatError msg num) = msg @ '': '' @ num"

text \<open>\<open>safe_exp\<close>: the loop that multiplies by 10 and gives up before it would overflow.\<close>

fun safe_exp :: "nat \<Rightarrow> nat \<Rightarrow> nat option" where
  "safe_exp result exp =
     (if exp = 0 then Some result
      else if 1844674407370955161 < result then None
      else safe_exp (result * 10) (exp - 1))"

declare safe_exp.simps [simp del]

definition int_config :: "(string \<times> nat \<times> nat) list" where
  "int_config =
     [('''', u64_max, 1), (''u'', 4294967295, 1), (''ul'', u64_max, 1), (''ull'', u64_max, 1),
      (''l'', 9223372036854775807, 1), (''ll'', 9223372036854775807, 1),
      (''ns'', u64_max, 1), (''us'', u64_max, 1000), (''ms'', u64_max, 1000000),
      (''s'', u64_max, 1000000000), (''m'', u64_max, 60000000000),
      (''h'', u64_max, 3600000000000), (''d'', u64_max, 86400000000000)]"

text \<open>The end of \<open>to_uint\<close>: the suffix scales the value, within the range of its type.\<close>

definition apply_suffix :: "string \<Rightarrow> string \<Rightarrow> nat \<Rightarrow> num_error + nat" where
  "apply_suffix num sfx ret =
     (case map_of int_config sfx of
        None \<Rightarrow> Inl (NumberFormatError ''invalid trailing bytes'' num)
      | Some (mx, mul) \<Rightarrow>
          if mx div mul < ret then Inl (OverflowError num mx) else Inr (ret * mul))"

definition exponent_follows :: "string \<Rightarrow> bool" where
  "exponent_follows r \<longleftrightarrow>
     (case r of c # d # _ \<Rightarrow> (c = CHR ''e'' \<or> c = CHR ''E'') \<and> 49 \<le> char_code d \<and> char_code d \<le> 57
      | _ \<Rightarrow> False)"

definition parse_exponent :: "string \<Rightarrow> nat \<Rightarrow> string \<Rightarrow> num_error + nat" where
  "parse_exponent num ret rest =
     (if ret \<le> 0 \<or> 10 \<le> ret
      then Inl (NumberFormatError ''coefficient part of scientific literal must be 1-9'' num)
      else let exp = tl rest; (exp_pow, rest', _) = strtoull exp 10
           in if exp_pow = 0 \<and> length rest' = length exp
              then Inl (NumberFormatError ''invalid exponent'' num)
              else (case safe_exp ret exp_pow of
                      None \<Rightarrow> Inl (OverflowError num u64_max)
                    | Some r \<Rightarrow> apply_suffix num rest' r))"

text \<open>\<open>n.c_str()\<close> ends at the first NUL.\<close>

definition c_str :: "string \<Rightarrow> string" where
  "c_str s = takeWhile (\<lambda>c. char_code c \<noteq> 0) s"

definition parse_uint :: "string \<Rightarrow> string \<Rightarrow> nat \<Rightarrow> num_error + nat" where
  "parse_uint num n base =
     (let (ret, rest, erange) = strtoull (c_str n) base
      in if ret = 0 \<and> length rest = length (c_str n)
         then Inl (NumberFormatError ''invalid integer'' num)
         else if ret = u64_max \<and> erange then Inl (OverflowError num u64_max)
         else if exponent_follows rest then parse_exponent num ret rest
         else apply_suffix num rest ret)"

function to_uint :: "string \<Rightarrow> nat \<Rightarrow> num_error + nat" where
  "to_uint num base =
     (let n = filter (\<lambda>c. c \<noteq> CHR ''_'') num
      in if base = 0 \<and> 2 \<le> length n \<and> (prefix ''0x'' n \<or> prefix ''0X'' n)
         then to_uint (drop 2 n) 16
         else if base = 0 \<and> 2 \<le> length n \<and> (prefix ''0b'' n \<or> prefix ''0B'' n)
         then to_uint (drop 2 n) 2
         else if base = 0 \<and> 2 \<le> length n \<and> prefix ''0'' n \<and>
                 48 \<le> char_code (n ! 1) \<and> char_code (n ! 1) \<le> 55
         then to_uint (drop 1 n) 8
         else parse_uint num n base)"
  by pat_completeness auto
termination
  by (relation "measure (\<lambda>(num, base). if base = 0 then 1 else 0)") auto

declare to_uint.simps [simp del]

section \<open>\<open>to_int\<close>\<close>

text \<open>\<open>static_cast<int64_t>\<close> of an unsigned value.\<close>

definition cast_i64 :: "nat \<Rightarrow> int" where
  "cast_i64 n = (int n + 2 ^ 63) mod 2 ^ 64 - 2 ^ 63"

text \<open>
  \<open>None\<close> is the undefined negation of the least \<open>int64_t\<close>. The branch without a sign calls
  \<open>to_uint(num)\<close>, whose base is then the default 0.
\<close>

definition to_int :: "string \<Rightarrow> nat \<Rightarrow> (num_error + int) option" where
  "to_int num base =
     (if num = [] then Some (Inr 0)
      else if hd num = CHR ''-'' then
        (case to_uint (tl num) base of
           Inl e \<Rightarrow> Some (Inl e)
         | Inr int_val \<Rightarrow>
             (let x = cast_i64 ((int_val + (2 ^ 64 - 1)) mod 2 ^ 64)
              in if \<not> in_i64 (- x) then None
                 else let neg = - x - 1
                      in if 0 < neg then Some (Inl (OverflowError num 9223372036854775807))
                         else Some (Inr neg)))
      else
        (case to_uint num 0 of
           Inl e \<Rightarrow> Some (Inl e)
         | Inr int_val \<Rightarrow>
             (if 9223372036854775807 < int_val
              then Some (Inl (OverflowError num 9223372036854775807))
              else Some (Inr (int int_val)))))"

section \<open>Lemmas\<close>

lemma safe_exp_iff:
  assumes "b \<le> u64_max"
  shows "safe_exp b e = (if b * 10 ^ e \<le> u64_max then Some (b * 10 ^ e) else None)"
  using assms
proof (induction b e rule: safe_exp.induct)
  case (1 b e)
  show ?case
  proof (cases e)
    case 0
    with 1 show ?thesis by (simp add: safe_exp.simps)
  next
    case (Suc k)
    show ?thesis
    proof (cases "1844674407370955161 < b")
      case True
      then have "u64_max < b * 10" by simp
      also have "\<dots> \<le> b * 10 ^ e" using Suc by simp
      finally show ?thesis using True Suc by (subst safe_exp.simps) simp
    next
      case False
      with 1 Suc show ?thesis by (subst safe_exp.simps) (simp add: mult.assoc)
    qed
  qed
qed

lemma apply_suffix_bound: "apply_suffix num suf r = Inr v \<Longrightarrow> v \<le> u64_max"
proof -
  assume "apply_suffix num suf r = Inr v"
  then obtain mx mul where m: "map_of int_config suf = Some (mx, mul)" and v: "v = r * mul" "r \<le> mx div mul"
    by (auto simp: apply_suffix_def split: option.splits if_splits)
  from m have "mx \<le> u64_max" by (auto simp: int_config_def split: if_splits)
  moreover have "r * mul \<le> mx" using v(2) by (metis div_times_less_eq_dividend le_trans mult_le_mono1)
  ultimately show ?thesis using v by simp
qed

lemma parse_uint_bound: "parse_uint num n base = Inr v \<Longrightarrow> v \<le> u64_max"
  by (auto simp: parse_uint_def parse_exponent_def Let_def split: prod.splits if_splits option.splits
      dest: apply_suffix_bound)

lemma to_uint_based:
  "0 < base \<Longrightarrow> to_uint num base = parse_uint num (filter (\<lambda>c. c \<noteq> CHR ''_'') num) base"
  by (subst to_uint.simps) simp

lemma to_uint_bound: "to_uint num base = Inr v \<Longrightarrow> v \<le> u64_max"
  by (subst (asm) to_uint.simps)
    (simp only: Let_def to_uint_based zero_less_numeral split: if_splits; erule parse_uint_bound)

subsection \<open>Reading printed numbers\<close>

lemma digit_val_digit_char [simp]: "d < 10 \<Longrightarrow> digit_val (digit_char d) = d"
  by (simp add: digit_val_def is_digit_def)

lemma foldl_digits_append:
  "foldl (\<lambda>a c. a * b + digit_val c) 0 (xs @ [y]) = digits_value b xs * b + digit_val y"
  by (simp add: digits_value_def)

lemma digit_char_0 [simp]: "digit_char 0 = CHR ''0''"
  by (subst char_code_inject [symmetric]) (simp, simp add: char_code_def)

lemma digit_char_literals [simp]:
  "digit_char 1 = CHR ''1''" "digit_char (Suc 0) = CHR ''1''" "digit_char 2 = CHR ''2''"
  "digit_char 3 = CHR ''3''" "digit_char 4 = CHR ''4''" "digit_char 5 = CHR ''5''"
  "digit_char 6 = CHR ''6''" "digit_char 7 = CHR ''7''" "digit_char 8 = CHR ''8''"
  "digit_char 9 = CHR ''9''"
  by code_simp+

lemma digit_val_0 [simp]: "digit_val CHR ''0'' = 0"
  using digit_val_digit_char [of 0] by simp

lemma digits_value_show_nat [simp]: "digits_value 10 (show_nat n) = n"
proof (induction n rule: digits_rev.induct)
  case (1 n)
  show ?case
  proof (cases "n < 10")
    case True
    then show ?thesis
      by (simp add: show_nat_def digits_rev.simps digits_value_def)
  next
    case False
    have "show_nat n = show_nat (n div 10) @ [digit_char (n mod 10)]"
      using False by (simp add: show_nat_def digits_rev.simps [of n])
    with 1 False show ?thesis by (simp add: digits_value_def)
  qed
qed

lemma show_nat_small [simp]: "n < 10 \<Longrightarrow> show_nat n = [digit_char n]"
  by (simp add: show_nat_def digits_rev.simps)

lemma show_nat_step: "10 \<le> n \<Longrightarrow> show_nat n = show_nat (n div 10) @ [digit_char (n mod 10)]"
  by (simp add: show_nat_def digits_rev.simps [of n])

lemma digit_val_digit: "is_digit c \<Longrightarrow> digit_val c < 10"
  by (auto simp: is_digit_def digit_val_def)

lemma hd_show_nat: "0 < n \<Longrightarrow> 49 \<le> char_code (hd (show_nat n))"
proof (induction n rule: digits_rev.induct)
  case (1 n)
  then show ?case
    by (cases "n < 10") (auto simp: show_nat_step not_less)
qed

lemma show_nat_filter [simp]: "filter (\<lambda>c. c \<noteq> CHR ''_'') (show_nat n) = show_nat n"
  by (rule filter_True) (auto dest: show_nat_digits simp: is_digit_def char_code_def)

lemma c_str_show_nat [simp]: "c_str (show_nat n @ s) = show_nat n @ c_str s"
proof -
  have "takeWhile (\<lambda>c. char_code c \<noteq> 0) (show_nat n @ s) = show_nat n @ takeWhile (\<lambda>c. char_code c \<noteq> 0) s"
    by (rule takeWhile_append2) (auto dest: show_nat_digits simp: is_digit_def)
  then show ?thesis by (simp add: c_str_def)
qed

lemma show_nat_Cons:
  "\<exists>c cs. show_nat n = c # cs \<and> is_digit c \<and> (0 < n \<longrightarrow> 49 \<le> char_code c)"
proof (cases "show_nat n")
  case (Cons c cs)
  with hd_show_nat [of n] show_nat_digits [of c n] show ?thesis by auto
qed simp

lemma digit_not_sign:
  "is_digit c \<Longrightarrow> \<not> is_space c" "is_digit c \<Longrightarrow> c \<noteq> CHR ''-''" "is_digit c \<Longrightarrow> c \<noteq> CHR ''+''"
  "is_digit c \<Longrightarrow> c \<noteq> CHR ''x''" "is_digit c \<Longrightarrow> c \<noteq> CHR ''X''"
  "is_digit c \<Longrightarrow> c \<noteq> CHR ''b''" "is_digit c \<Longrightarrow> c \<noteq> CHR ''B''" "is_digit c \<Longrightarrow> c \<noteq> CHR ''_''"
  by (auto simp: is_digit_def is_space_def char_code_def)

text \<open>
  \<open>strtoull\<close> in base 10 reads a printed number up to the first character that is no digit.
\<close>

lemma takeWhile_show_nat:
  assumes "s = [] \<or> 10 \<le> digit_val (hd s)"
  shows "takeWhile (\<lambda>c. digit_val c < 10) (show_nat n @ s) = show_nat n"
proof -
  have "takeWhile (\<lambda>c. digit_val c < 10) (show_nat n @ s) =
        show_nat n @ takeWhile (\<lambda>c. digit_val c < 10) s"
    by (rule takeWhile_append2) (metis show_nat_digits digit_val_digit)
  moreover have "takeWhile (\<lambda>c. digit_val c < 10) s = []"
    using assms by (cases s) auto
  ultimately show ?thesis by simp
qed

lemma strtoull_unsigned:
  assumes "S = c # r" "\<not> is_space c" "c \<noteq> CHR ''-''" "c \<noteq> CHR ''+''"
    and "strtoull_base base S = (b, S)" "takeWhile (\<lambda>c. digit_val c < b) S = ds" "ds \<noteq> []"
  shows "strtoull S base =
    (if u64_max < digits_value b ds then (u64_max, drop (length ds) S, True)
     else (digits_value b ds, drop (length ds) S, False))"
proof -
  have "dropWhile is_space S = S" "\<not> prefix ''-'' S" "\<not> prefix ''+'' S"
    using assms(1-4) by auto
  then show ?thesis
    using assms(5-7) by (simp add: strtoull_def Let_def)
qed

lemma strtoull_show_nat_10:
  assumes "s = [] \<or> 10 \<le> digit_val (hd s)"
  shows "strtoull (show_nat n @ s) 10 = (if u64_max < n then (u64_max, s, True) else (n, s, False))"
proof -
  obtain c cs where c: "show_nat n = c # cs" "is_digit c" using show_nat_Cons [of n] by blast
  have "show_nat n @ s = c # (cs @ s)" using c by simp
  from strtoull_unsigned [OF this digit_not_sign(1-3) [OF c(2)] _ takeWhile_show_nat [OF assms], of 10]
  show ?thesis by (simp add: strtoull_base_def)
qed

text \<open>In base 0 the same holds, except that 0 itself is read as an octal number.\<close>

lemma strtoull_show_nat_0:
  assumes "s = [] \<or> 10 \<le> digit_val (hd s)" "s = [] \<or> (hd s \<noteq> CHR ''x'' \<and> hd s \<noteq> CHR ''X'')"
  shows "strtoull (show_nat n @ s) 0 = (if u64_max < n then (u64_max, s, True) else (n, s, False))"
proof -
  obtain c cs where c: "show_nat n = c # cs" "is_digit c" "0 < n \<longrightarrow> 49 \<le> char_code c"
    using show_nat_Cons [of n] by blast
  have S: "show_nat n @ s = c # (cs @ s)" using c by simp
  note rd = strtoull_unsigned [OF S digit_not_sign(1-3) [OF c(2)]]
  show ?thesis
  proof (cases "n = 0")
    case True
    have "strtoull_base 0 (show_nat n @ s) = (8, show_nat n @ s)"
      using True assms(2) by (cases s) (auto simp: strtoull_base_def hex_prefixed_def)
    moreover have "takeWhile (\<lambda>c. digit_val c < 8) (show_nat n @ s) = show_nat n"
      using True assms(1) by (cases s) auto
    ultimately have "strtoull (show_nat n @ s) 0 = (digits_value 8 (show_nat n), s, False)"
      using rd [of 0 8 "show_nat n"] True by (simp add: digits_value_def)
    then show ?thesis using True by (simp add: digits_value_def)
  next
    case False
    have "c \<noteq> CHR ''0''" using c(3) False by (auto simp: char_code_def)
    then have "strtoull_base 0 (show_nat n @ s) = (10, show_nat n @ s)"
      using c by (simp add: strtoull_base_def hex_prefixed_def)
    from rd [OF this takeWhile_show_nat [OF assms(1), of n]] show ?thesis by simp
  qed
qed

lemma int_config_suffix:
  assumes "(sfx, mx, mul) \<in> set int_config"
  shows "map_of int_config sfx = Some (mx, mul)" "mx \<le> u64_max" "0 < mul"
    and "filter (\<lambda>c. c \<noteq> CHR ''_'') sfx = sfx" "c_str sfx = sfx" "\<not> exponent_follows sfx"
    and "sfx = [] \<or> 10 \<le> digit_val (hd sfx) \<and> hd sfx \<notin> {CHR ''x'', CHR ''X'', CHR ''b'', CHR ''B''}"
proof -
  let ?P = "\<lambda>(sfx, mx, mul). map_of int_config sfx = Some (mx, mul) \<and> mx \<le> u64_max \<and> 0 < mul \<and>
    filter (\<lambda>c. c \<noteq> CHR ''_'') sfx = sfx \<and> c_str sfx = sfx \<and> \<not> exponent_follows sfx \<and>
    (sfx = [] \<or> 10 \<le> digit_val (hd sfx) \<and> hd sfx \<notin> {CHR ''x'', CHR ''X'', CHR ''b'', CHR ''B''})"
  have "list_all ?P int_config"
    by (simp add: int_config_def c_str_def exponent_follows_def digit_val_def is_digit_def
        is_lower_def char_code_def)
  with assms have "?P (sfx, mx, mul)" unfolding list_all_iff by blast
  then show "map_of int_config sfx = Some (mx, mul)" "mx \<le> u64_max" "0 < mul"
    "filter (\<lambda>c. c \<noteq> CHR ''_'') sfx = sfx" "c_str sfx = sfx" "\<not> exponent_follows sfx"
    "sfx = [] \<or> 10 \<le> digit_val (hd sfx) \<and> hd sfx \<notin> {CHR ''x'', CHR ''X'', CHR ''b'', CHR ''B''}"
    by auto
qed

text \<open>A printed number takes none of the base prefixes, so it is parsed in base 0.\<close>

lemma to_uint_show_nat:
  assumes "filter (\<lambda>c. c \<noteq> CHR ''_'') s = s"
    and "s = [] \<or> 10 \<le> digit_val (hd s) \<and> hd s \<notin> {CHR ''x'', CHR ''X'', CHR ''b'', CHR ''B''}"
  shows "to_uint (show_nat n @ s) 0 = parse_uint (show_nat n @ s) (show_nat n @ s) 0"
proof -
  obtain c cs where c: "show_nat n = c # cs" "is_digit c" "0 < n \<longrightarrow> 49 \<le> char_code c"
    using show_nat_Cons [of n] by blast
  let ?S = "show_nat n @ s"
  have f: "filter (\<lambda>c. c \<noteq> CHR ''_'') ?S = ?S" using assms(1) by simp
  have *: "\<not> (2 \<le> length ?S \<and> prefix [CHR ''0'', d] ?S)" if "d \<in> {CHR ''x'', CHR ''X'', CHR ''b'', CHR ''B''}" for d
  proof (cases "n = 0")
    case True
    with that assms(2) show ?thesis by (cases s) auto
  next
    case False
    with c(3) have "c \<noteq> CHR ''0''" by (auto simp: char_code_def)
    with c(1) show ?thesis by simp
  qed
  have **: "\<not> (2 \<le> length ?S \<and> prefix ''0'' ?S \<and> 48 \<le> char_code (?S ! 1) \<and> char_code (?S ! 1) \<le> 55)"
  proof (cases "n = 0")
    case True
    have "\<not> is_digit (hd s)" if "s \<noteq> []"
      using assms(2) that digit_val_digit [of "hd s"] by auto
    with True show ?thesis by (cases s) (auto simp: is_digit_def)
  next
    case False
    with c(3) have "c \<noteq> CHR ''0''" by (auto simp: char_code_def)
    with c(1) show ?thesis by simp
  qed
  from *[of "CHR ''x''"] *[of "CHR ''X''"] *[of "CHR ''b''"] *[of "CHR ''B''"] **
  show ?thesis by (subst to_uint.simps) (simp only: f Let_def, auto)
qed

lemma parse_uint_show_nat:
  assumes "s = [] \<or> 10 \<le> digit_val (hd s) \<and> hd s \<notin> {CHR ''x'', CHR ''X'', CHR ''b'', CHR ''B''}"
    and "c_str s = s"
  shows "parse_uint num (show_nat n @ s) 0 =
    (if u64_max < n then Inl (OverflowError num u64_max)
     else if exponent_follows s then parse_exponent num n s else apply_suffix num s n)"
proof -
  have "length s \<noteq> length (show_nat n @ s)" by simp
  moreover have "strtoull (show_nat n @ s) 0 = (if u64_max < n then (u64_max, s, True) else (n, s, False))"
    by (rule strtoull_show_nat_0) (use assms(1) in auto)
  ultimately show ?thesis using assms(2) by (simp add: parse_uint_def)
qed

lemma to_uint_suffix:
  assumes "(sfx, mx, mul) \<in> set int_config"
  shows "to_uint (show_nat n @ sfx) 0 =
    (if u64_max < n then Inl (OverflowError (show_nat n @ sfx) u64_max)
     else apply_suffix (show_nat n @ sfx) sfx n)"
  using to_uint_show_nat [OF int_config_suffix(4,7) [OF assms], of n]
    parse_uint_show_nat [OF int_config_suffix(7,5) [OF assms], of _ n] int_config_suffix(6) [OF assms]
  by simp

lemma to_uint_print: "n \<le> u64_max \<Longrightarrow> to_uint (show_nat n) 0 = Inr n"
  using to_uint_suffix [of "[]" u64_max 1 n] by (simp add: int_config_def apply_suffix_def)

text \<open>The parser provides the number reader the other components use.\<close>

interpretation uint_reader: number_reader "\<lambda>s. to_uint s 0" u64_max
  by unfold_locales (rule to_uint_print, assumption, rule to_uint_bound)

lemma cast_i64_small: "n < 2 ^ 63 \<Longrightarrow> cast_i64 n = int n"
  by (simp add: cast_i64_def)

lemma cast_i64_big: "2 ^ 63 \<le> n \<Longrightarrow> n < 2 ^ 64 \<Longrightarrow> cast_i64 n = int n - 2 ^ 64"
proof -
  assume "2 ^ 63 \<le> n" "n < 2 ^ 64"
  then have b: "0 \<le> int n - 2 ^ 63" "int n - 2 ^ 63 < 2 ^ 64" by simp_all
  have "(int n + 2 ^ 63) mod 2 ^ 64 = (int n - 2 ^ 63 + 2 ^ 64) mod 2 ^ 64" by (simp add: add.commute)
  also have "\<dots> = int n - 2 ^ 63"
    using b by (simp only: mod_add_self2 mod_pos_pos_trivial)
  finally show ?thesis by (simp add: cast_i64_def)
qed

lemma pred_mod_64: "v \<le> u64_max \<Longrightarrow> (v + (2 ^ 64 - 1)) mod 2 ^ 64 = (if v = 0 then u64_max else v - 1)"
proof (cases v)
  case (Suc k)
  assume "v \<le> u64_max"
  with Suc have "(v + (2 ^ 64 - 1)) mod 2 ^ 64 = (k + 2 ^ 64) mod 2 ^ 64" by simp
  also have "\<dots> = k" using Suc \<open>v \<le> u64_max\<close> by simp
  finally show ?thesis using Suc by simp
qed simp

text \<open>What \<open>to_int\<close> makes of the magnitude \<open>v\<close> behind a minus sign.\<close>

lemma to_int_minus:
  assumes "to_uint r base = Inr v"
  shows "to_int (CHR ''-'' # r) base =
    (if v \<le> 2 ^ 63 then Some (Inr (- int v))
     else if v = 2 ^ 63 + 1 then None
     else Some (Inl (OverflowError (CHR ''-'' # r) 9223372036854775807)))"
proof -
  have v: "v \<le> u64_max" using to_uint_bound [OF assms] .
  consider "v = 0" | "0 < v" "v \<le> 2 ^ 63" | "2 ^ 63 < v" by linarith
  then show ?thesis
  proof cases
    case 1
    have "cast_i64 u64_max = -1" by (simp add: cast_i64_def)
    with 1 assms show ?thesis using pred_mod_64 [OF v] by (simp add: to_int_def in_i64_def)
  next
    case 2
    then have "cast_i64 (v - 1) = int v - 1" using cast_i64_small [of "v - 1"] by auto
    with 2 assms show ?thesis using pred_mod_64 [OF v] by (simp add: to_int_def in_i64_def)
  next
    case 3
    then have "cast_i64 (v - 1) = int v - 1 - 2 ^ 64" using cast_i64_big [of "v - 1"] v by auto
    with 3 v assms show ?thesis using pred_mod_64 [OF v] by (simp add: to_int_def in_i64_def Let_def)
  qed
qed

section \<open>Properties\<close>

text \<open>a decimal number with one of the suffixes of the table is read as the number times the
  suffix's multiplier, and rejected exactly when that product (or, for a width suffix, the number)
  is out of the suffix's range.\<close>

theorem to_uint_decimal_suffix:
  assumes "(sfx, mx, mul) \<in> set int_config"
  shows "to_uint (show_nat n @ sfx) 0 =
    (if u64_max < n then Inl (OverflowError (show_nat n @ sfx) u64_max)
     else if mx < n * mul then Inl (OverflowError (show_nat n @ sfx) mx)
     else Inr (n * mul))"
  using to_uint_suffix [OF assms, of n] int_config_suffix(1,3) [OF assms]
  by (simp add: apply_suffix_def div_less_iff_less_mult)

theorem to_uint_decimal_suffix_witness:
  "to_uint ''10ms'' 0 = Inr 10000000"
proof -
  have "(''ms'', u64_max, 1000000) \<in> set int_config" by (simp add: int_config_def)
  from to_uint_decimal_suffix [OF this, of 10] show ?thesis
    by (simp add: show_nat_step)
qed

text \<open>scientific notation: a coefficient from 1 to 9 with a positive exponent is read as
  \<open>c * 10 ^ e\<close>, and rejected as an overflow exactly when that does not fit 64 bits.\<close>

theorem to_uint_scientific:
  assumes "1 \<le> c" "c \<le> 9" "0 < e" "e \<le> u64_max"
  shows "to_uint (show_nat c @ CHR ''e'' # show_nat e) 0 =
    (if c * 10 ^ e \<le> u64_max then Inr (c * 10 ^ e)
     else Inl (OverflowError (show_nat c @ CHR ''e'' # show_nat e) u64_max))"
proof -
  let ?s = "CHR ''e'' # show_nat e"
  obtain d ds where d: "show_nat e = d # ds" "is_digit d" "49 \<le> char_code d"
    using show_nat_Cons [of e] assms(3) by blast
  have s1: "filter (\<lambda>c. c \<noteq> CHR ''_'') ?s = ?s" by simp
  have "digit_val CHR ''e'' = 14" by code_simp
  then have s2: "?s = [] \<or> 10 \<le> digit_val (hd ?s) \<and> hd ?s \<notin> {CHR ''x'', CHR ''X'', CHR ''b'', CHR ''B''}"
    by simp
  have s3: "c_str ?s = ?s" using c_str_show_nat [of e "[]"] by (simp add: c_str_def char_code_def)
  have s4: "exponent_follows ?s" using d by (simp add: exponent_follows_def is_digit_def)
  have e10: "strtoull (show_nat e) 10 = (e, [], False)"
    using strtoull_show_nat_10 [of "[]" e] assms(4) by simp
  have sfx: "apply_suffix num [] r = Inr r" if "r \<le> u64_max" for num r
    using that by (simp add: apply_suffix_def int_config_def)
  have "c \<le> u64_max" using assms(2) by simp
  from safe_exp_iff [OF this, of e]
  have "parse_exponent num c ?s =
    (if c * 10 ^ e \<le> u64_max then Inr (c * 10 ^ e) else Inl (OverflowError num u64_max))" for num
    using assms(1-3) e10 sfx by (simp add: parse_exponent_def)
  then show ?thesis
    using to_uint_show_nat [OF s1 s2, of c] parse_uint_show_nat [OF s2 s3, of _ c] s4 \<open>c \<le> u64_max\<close>
    by simp
qed

theorem to_uint_scientific_witness: "to_uint (show_nat 3 @ CHR ''e'' # show_nat 6) 0 = Inr (3 * 10 ^ 6)"
  using to_uint_scientific [of 3 6] by simp

lemma to_int_show_int:
  assumes "in_i64 i"
  shows "to_int (show_int i) 0 = Some (Inr i)"
proof (cases "i < 0")
  case True
  with assms have n: "nat (- i) \<le> 2 ^ 63" by (simp add: in_i64_def)
  have "to_uint (show_nat (nat (- i))) 0 = Inr (nat (- i))"
    by (rule uint_reader.read_print) (use n in simp)
  from to_int_minus [OF this] n True show ?thesis by (simp add: show_int_def)
next
  case False
  with assms have n: "nat i \<le> 9223372036854775807" by (simp add: in_i64_def)
  obtain c cs where "show_nat (nat i) = c # cs" "is_digit c" using show_nat_Cons [of "nat i"] by blast
  moreover have "to_uint (show_nat (nat i)) 0 = Inr (nat i)"
    by (rule uint_reader.read_print) (use n in simp)
  ultimately show ?thesis using n False digit_not_sign(2) [of c]
    by (auto simp: show_int_def to_int_def)
qed

text \<open>C18: every \<open>int64_t\<close> value is read back from what an \<open>ostream\<close> prints for it, the least
  one included.\<close>

theorem to_int_print:
  assumes "in_i64 i"
  shows "to_int (show_int i) 0 = Some (Inr i)"
  using assms by (rule to_int_show_int)

theorem to_int_print_witness: "to_int (show_int (-9223372036854775808)) 0 = Some (Inr (-9223372036854775808))"
  by (rule to_int_print) (simp add: in_i64_def)

text \<open>\<open>to_int\<close> runs into undefined behaviour on exactly one magnitude, \<open>2 ^ 63 + 1\<close> behind a
  minus sign; on every other input it returns a value or an error.\<close>

theorem to_int_undefined_iff:
  "to_int num base = None \<longleftrightarrow>
     (\<exists>r. num = CHR ''-'' # r \<and> to_uint r base = Inr (2 ^ 63 + 1))"
proof (cases num)
  case Nil
  then show ?thesis by (simp add: to_int_def)
next
  case (Cons c r)
  show ?thesis
  proof (cases "c = CHR ''-''")
    case True
    show ?thesis
    proof (cases "to_uint r base")
      case (Inl e)
      with Cons True show ?thesis by (simp add: to_int_def)
    next
      case (Inr v)
      from to_int_minus [OF Inr] Cons True Inr show ?thesis by auto
    qed
  next
    case False
    with Cons show ?thesis by (auto simp: to_int_def split: sum.splits if_splits)
  qed
qed

text \<open>Evaluation of the parser on literals.\<close>

lemmas to_uint_eval = to_uint.simps parse_uint_def parse_exponent_def strtoull_def strtoull_base_def
  hex_prefixed_def digits_value_def digit_val_def is_digit_def is_lower_def is_upper_def is_space_def
  char_code_def c_str_def exponent_follows_def apply_suffix_def int_config_def

text \<open>The base of \<open>to_int\<close> is lost on the branch without a sign.\<close>

lemma to_int_loses_base:
  "to_uint ''ff'' 16 = Inr 255" "to_int ''-ff'' 16 = Some (Inr (-255))"
  "to_int ''ff'' 16 = Some (Inl (NumberFormatError ''invalid integer'' ''ff''))"
  by (simp_all add: to_uint_eval to_int_def cast_i64_def in_i64_def)

text \<open>\<open>to_uint\<close> itself accepts a minus sign and wraps around, as \<open>strtoull\<close> does.\<close>

lemma to_uint_accepts_minus: "to_uint ''-5'' 0 = Inr 18446744073709551611"
  by (simp add: to_uint_eval)

end
