(* ===== verification/Sized_Types.thy ===== *)
theory Sized_Types
  imports Prelude
begin

text \<open>
  The types of bpftrace values: \<open>SizedType\<close> of \<open>src/types.h\<close> and \<open>src/types.cpp\<close> with its
  factories, classification, printing, three-way comparison and the assignment relation
  \<open>FitsInto\<close>, and the literal types of \<open>src/ast/integer_types.cpp\<close>.

  An inner struct is owned by the type (tuples and anonymous records, a \<open>shared_ptr\<close>) or owned by
  the struct manager and referred to by name (a \<open>weak_ptr\<close>). Where the sources dereference a null
  element or struct pointer, the definitions treat the missing part as smaller than any other;
  \<open>wf_type\<close> says which types have all their parts.
\<close>

section \<open>Kinds, attributes\<close>

datatype kind =
    Ty_none | Ty_voidtype | Ty_integer | Ty_boolean | Ty_pointer | Ty_record | Ty_hist_t | Ty_lhist_t
  | Ty_tseries_t | Ty_count_t | Ty_sum_t | Ty_min_t | Ty_max_t | Ty_avg_t | Ty_stats_t | Ty_kstack_t
  | Ty_ustack_t | Ty_string | Ty_ksym_t | Ty_usym_t | Ty_username | Ty_inet | Ty_stack_mode | Ty_array
  | Ty_buffer | Ty_tuple | Ty_timestamp | Ty_mac_address | Ty_cgroup_path_t | Ty_timestamp_mode

text \<open>The enumerators have the values 0, 1, \<dots> in this order, and \<open><=>\<close> compares them.\<close>

fun kind_index :: "kind \<Rightarrow> nat" where
  "kind_index Ty_none = 0" | "kind_index Ty_voidtype = 1" | "kind_index Ty_integer = 2"
| "kind_index Ty_boolean = 3" | "kind_index Ty_pointer = 4" | "kind_index Ty_record = 5"
| "kind_index Ty_hist_t = 6" | "kind_index Ty_lhist_t = 7" | "kind_index Ty_tseries_t = 8"
| "kind_index Ty_count_t = 9" | "kind_index Ty_sum_t = 10" | "kind_index Ty_min_t = 11"
| "kind_index Ty_max_t = 12" | "kind_index Ty_avg_t = 13" | "kind_index Ty_stats_t = 14"
| "kind_index Ty_kstack_t = 15" | "kind_index Ty_ustack_t = 16" | "kind_index Ty_string = 17"
| "kind_index Ty_ksym_t = 18" | "kind_index Ty_usym_t = 19" | "kind_index Ty_username = 20"
| "kind_index Ty_inet = 21" | "kind_index Ty_stack_mode = 22" | "kind_index Ty_array = 23"
| "kind_index Ty_buffer = 24" | "kind_index Ty_tuple = 25" | "kind_index Ty_timestamp = 26"
| "kind_index Ty_mac_address = 27" | "kind_index Ty_cgroup_path_t = 28" | "kind_index Ty_timestamp_mode = 29"

lemma kind_index_inject [simp]: "kind_index a = kind_index b \<longleftrightarrow> a = b"
  by (cases a; cases b) simp_all

instantiation kind :: linorder
begin

definition less_eq_kind :: "kind \<Rightarrow> kind \<Rightarrow> bool" where
  "less_eq_kind a b \<longleftrightarrow> kind_index a \<le> kind_index b"

definition less_kind :: "kind \<Rightarrow> kind \<Rightarrow> bool" where
  "less_kind a b \<longleftrightarrow> kind_index a < kind_index b"

instance
  by standard (auto simp: less_eq_kind_def less_kind_def)

end

datatype addr_space = AS_none | AS_kernel | AS_user

datatype stack_mode = Mode_bpftrace | Mode_perf | Mode_raw

record stack_type =
  stack_limit :: nat
  stack_mode :: stack_mode

definition default_stack :: stack_type where
  "default_stack = \<lparr>stack_limit = 127, stack_mode = Mode_bpftrace\<rparr>"

datatype timestamp_mode = Ts_monotonic | Ts_boot | Ts_tai | Ts_sw_tai

record type_attrs =
  stack_type :: stack_type
  funcarg_idx :: int
  is_internal :: bool
  is_funcarg :: bool
  ts_mode :: timestamp_mode
  addr_space :: addr_space
  ctx :: bool
  btf_type_tags :: "string set"

definition default_attrs :: type_attrs where
  "default_attrs =
     \<lparr>stack_type = default_stack, funcarg_idx = -1, is_internal = False, is_funcarg = False,
      ts_mode = Ts_boot, addr_space = AS_none, ctx = False, btf_type_tags = {}\<rparr>"

section \<open>Sized types and structs\<close>

record bitfield =
  read_bytes :: nat
  access_rshift :: nat
  bf_mask :: u64

datatype sized_type =
    SizedType (ty: kind) (size_bits: nat) (is_signed: bool) (element: "sized_type option")
      (tname: string) (inner: inner_struct) (num_elements: nat) (attrs: type_attrs)
and inner_struct = NoStruct | Owned struct_t | Managed string
and struct_t =
    Struct (st_size: int) (st_align: int) (padded: bool) (fields: "field list") (allow_override: bool)
and field =
    Field (f_name: string) (f_type: sized_type) (f_offset: int) (f_bitfield: "bitfield option")
      (f_data_loc: bool)

definition get_size :: "sized_type \<Rightarrow> nat" where
  "get_size t = size_bits t div 8"

text \<open>\<open>size_t\<close> arithmetic wraps around at 64 bits.\<close>

abbreviation (input) wrap64 :: "nat \<Rightarrow> nat" where "wrap64 n \<equiv> n mod 2 ^ 64"

definition simple_type :: "kind \<Rightarrow> nat \<Rightarrow> bool \<Rightarrow> sized_type" where
  "simple_type k bytes sg = SizedType k (wrap64 (bytes * 8)) sg None [] NoStruct 0 default_attrs"

section \<open>Classification\<close>

definition is_byte_array :: "sized_type \<Rightarrow> bool" where
  "is_byte_array t \<longleftrightarrow> ty t \<in> {Ty_string, Ty_usym_t, Ty_inet, Ty_buffer, Ty_timestamp, Ty_mac_address,
     Ty_cgroup_path_t}"

definition is_stack :: "sized_type \<Rightarrow> bool" where
  "is_stack t \<longleftrightarrow> ty t = Ty_ustack_t \<or> ty t = Ty_kstack_t"

definition is_aggregate :: "sized_type \<Rightarrow> bool" where
  "is_aggregate t \<longleftrightarrow> ty t = Ty_array \<or> is_byte_array t \<or> ty t = Ty_tuple \<or> ty t = Ty_record \<or> is_stack t"

definition is_enum_ty :: "sized_type \<Rightarrow> bool" where
  "is_enum_ty t \<longleftrightarrow> ty t = Ty_integer \<and> tname t \<noteq> []"

definition is_printable_ty :: "sized_type \<Rightarrow> bool" where
  "is_printable_ty t \<longleftrightarrow> ty t \<noteq> Ty_none \<and> ty t \<noteq> Ty_stack_mode \<and> ty t \<noteq> Ty_timestamp_mode \<and>
     (\<not> ctx (attrs t) \<or> is_funcarg (attrs t))"

definition needs_percpu_map :: "sized_type \<Rightarrow> bool" where
  "needs_percpu_map t \<longleftrightarrow> ty t \<in> {Ty_hist_t, Ty_lhist_t, Ty_count_t, Ty_sum_t, Ty_min_t, Ty_max_t,
     Ty_avg_t, Ty_stats_t, Ty_tseries_t}"

definition is_castable_map_ty :: "sized_type \<Rightarrow> bool" where
  "is_castable_map_ty t \<longleftrightarrow> ty t \<in> {Ty_count_t, Ty_sum_t, Ty_max_t, Ty_min_t, Ty_avg_t}"

definition is_multi_key_map_ty :: "sized_type \<Rightarrow> bool" where
  "is_multi_key_map_ty t \<longleftrightarrow> ty t \<in> {Ty_hist_t, Ty_lhist_t, Ty_tseries_t}"

definition is_map_iterable_ty :: "sized_type \<Rightarrow> bool" where
  "is_map_iterable_ty t =
     (if is_multi_key_map_ty t then False
      else if needs_percpu_map t \<and> \<not> is_castable_map_ty t then False
      else True)"

section \<open>Factories\<close>

text \<open>\<open>None\<close> is the assertion of \<open>SetIntBitWidth\<close>, which admits the machine widths only.\<close>

definition set_int_bit_width :: "nat \<Rightarrow> nat option" where
  "set_int_bit_width bits =
     (let b = min bits 64 in if b \<in> {0, 1, 8, 16, 32, 64} then Some b else None)"

definition create_integer :: "nat \<Rightarrow> bool \<Rightarrow> sized_type option" where
  "create_integer bits sg =
     map_option (\<lambda>b. SizedType Ty_integer b sg None [] NoStruct 0 default_attrs) (set_int_bit_width bits)"

definition int_type :: "nat \<Rightarrow> bool \<Rightarrow> sized_type" where
  "int_type bits sg = SizedType Ty_integer bits sg None [] NoStruct 0 default_attrs"

lemma create_integer_int_type:
  "bits \<in> {0, 1, 8, 16, 32, 64} \<Longrightarrow> create_integer bits sg = Some (int_type bits sg)"
  by (auto simp: create_integer_def set_int_bit_width_def int_type_def)

definition create_enum :: "nat \<Rightarrow> string \<Rightarrow> sized_type option" where
  "create_enum bits name =
     map_option (\<lambda>t. SizedType (ty t) (size_bits t) (is_signed t) (element t) name (inner t)
        (num_elements t) (attrs t)) (create_integer bits False)"

definition create_none :: sized_type where "create_none = simple_type Ty_none 0 False"
definition create_void :: sized_type where "create_void = simple_type Ty_voidtype 0 False"
definition create_bool :: sized_type where "create_bool = simple_type Ty_boolean 1 False"

definition create_string :: "nat \<Rightarrow> sized_type" where
  "create_string sz = simple_type Ty_string sz False"

definition create_array :: "nat \<Rightarrow> sized_type \<Rightarrow> sized_type" where
  "create_array n elem =
     SizedType Ty_array (wrap64 (wrap64 (n * get_size elem) * 8)) False (Some elem) [] NoStruct n default_attrs"

definition create_pointer :: "sized_type \<Rightarrow> addr_space \<Rightarrow> sized_type" where
  "create_pointer pointee as =
     SizedType Ty_pointer 64 False (Some pointee) [] NoStruct 0 (default_attrs\<lparr>addr_space := as\<rparr>)"

text \<open>\<open>size_t\<close> of an \<open>int\<close>: a negative size would wrap.\<close>

definition size_t_of_int :: "int \<Rightarrow> nat" where
  "size_t_of_int i = nat (i mod 2 ^ 64)"

definition create_record_named :: "string \<Rightarrow> sized_type" where
  "create_record_named name = SizedType Ty_record 0 False None name NoStruct 0 default_attrs"

definition create_record_anon :: "struct_t \<Rightarrow> sized_type" where
  "create_record_anon st =
     SizedType Ty_record (wrap64 (size_t_of_int (st_size st) * 8)) False None [] (Owned st) 0 default_attrs"

text \<open>The \<open>weak_ptr\<close> is to the struct the manager holds under \<open>name\<close>, of the given size.\<close>

definition create_record_managed :: "string \<Rightarrow> struct_t \<Rightarrow> sized_type" where
  "create_record_managed name st =
     SizedType Ty_record (wrap64 (size_t_of_int (st_size st) * 8)) False None name (Managed name) 0 default_attrs"

definition create_tuple_type :: "struct_t \<Rightarrow> sized_type" where
  "create_tuple_type st =
     SizedType Ty_tuple (wrap64 (size_t_of_int (st_size st) * 8)) False None [] (Owned st) 0 default_attrs"

definition create_stack :: "bool \<Rightarrow> stack_type \<Rightarrow> sized_type" where
  "create_stack knl st =
     SizedType (if knl then Ty_kstack_t else Ty_ustack_t) (if knl then 128 else 192) False None []
       NoStruct 0 (default_attrs\<lparr>stack_type := st\<rparr>)"

definition internal_type :: "kind \<Rightarrow> nat \<Rightarrow> sized_type" where
  "internal_type k bytes =
     SizedType k (wrap64 (bytes * 8)) False None [] NoStruct 0 (default_attrs\<lparr>is_internal := True\<rparr>)"

definition create_min :: "bool \<Rightarrow> sized_type" where "create_min sg = simple_type Ty_min_t 8 sg"
definition create_max :: "bool \<Rightarrow> sized_type" where "create_max sg = simple_type Ty_max_t 8 sg"
definition create_sum :: "bool \<Rightarrow> sized_type" where "create_sum sg = simple_type Ty_sum_t 8 sg"
definition create_count :: sized_type where "create_count = simple_type Ty_count_t 8 False"
definition create_avg :: "bool \<Rightarrow> sized_type" where "create_avg sg = simple_type Ty_avg_t 8 sg"
definition create_stats :: "bool \<Rightarrow> sized_type" where "create_stats sg = simple_type Ty_stats_t 8 sg"
definition create_username :: sized_type where "create_username = simple_type Ty_username 8 False"
definition create_inet :: "nat \<Rightarrow> sized_type" where "create_inet n = internal_type Ty_inet n"
definition create_lhist :: sized_type where "create_lhist = simple_type Ty_lhist_t 8 False"
definition create_hist :: sized_type where "create_hist = simple_type Ty_hist_t 8 False"
definition create_tseries :: sized_type where "create_tseries = simple_type Ty_tseries_t 8 False"
definition create_usym :: sized_type where "create_usym = simple_type Ty_usym_t 16 False"
definition create_ksym :: sized_type where "create_ksym = simple_type Ty_ksym_t 8 False"
definition create_timestamp :: sized_type where "create_timestamp = simple_type Ty_timestamp 16 False"
definition create_mac_address :: sized_type where "create_mac_address = internal_type Ty_mac_address 6"
definition create_cgroup_path :: sized_type where "create_cgroup_path = simple_type Ty_cgroup_path_t 16 False"
definition create_timestamp_mode :: sized_type where "create_timestamp_mode = simple_type Ty_timestamp_mode 0 False"
definition create_stack_mode :: sized_type where "create_stack_mode = simple_type Ty_stack_mode 0 False"

text \<open>
  \<open>AsyncEvent::Buf\<close> is a packed struct whose one member is the \<open>uint32_t\<close> length, so its
  \<open>sizeof\<close> is 4.
\<close>

definition create_buffer :: "nat \<Rightarrow> sized_type" where
  "create_buffer n = simple_type Ty_buffer (wrap64 (n + 4)) False"

section \<open>Three-way comparison\<close>

datatype ordering = Less | Equal | Greater

fun flip :: "ordering \<Rightarrow> ordering" where
  "flip Less = Greater" | "flip Equal = Equal" | "flip Greater = Less"

text \<open>\<open>if (auto cmp = a; cmp != 0) return cmp; return b;\<close>\<close>

fun then_cmp :: "ordering \<Rightarrow> ordering \<Rightarrow> ordering" where
  "then_cmp Equal b = b" | "then_cmp a b = a"

definition cmp_nat :: "nat \<Rightarrow> nat \<Rightarrow> ordering" where
  "cmp_nat a b = (if a < b then Less else if a = b then Equal else Greater)"

definition cmp_bool :: "bool \<Rightarrow> bool \<Rightarrow> ordering" where
  "cmp_bool a b = (if a = b then Equal else if b then Less else Greater)"

text \<open>\<open>std::string\<close> compares bytes as unsigned values, then lengths.\<close>

fun cmp_string :: "string \<Rightarrow> string \<Rightarrow> ordering" where
  "cmp_string [] [] = Equal"
| "cmp_string [] (b # bs) = Less"
| "cmp_string (a # as) [] = Greater"
| "cmp_string (a # as) (b # bs) = then_cmp (cmp_nat (char_code a) (char_code b)) (cmp_string as bs)"

text \<open>\<open>SizedType::operator<=>\<close>.\<close>

fun cmp_type :: "sized_type \<Rightarrow> sized_type \<Rightarrow> ordering"
and cmp_elem :: "sized_type option \<Rightarrow> sized_type option \<Rightarrow> ordering"
and cmp_inner :: "inner_struct \<Rightarrow> inner_struct \<Rightarrow> ordering"
and cmp_struct :: "struct_t \<Rightarrow> struct_t \<Rightarrow> ordering"
and cmp_fields :: "field list \<Rightarrow> field list \<Rightarrow> ordering"
and cmp_field :: "field \<Rightarrow> field \<Rightarrow> ordering" where
  "cmp_type (SizedType k b s e n st ne at) (SizedType k' b' s' e' n' st' ne' at') =
     (if k \<noteq> k' then cmp_nat (kind_index k) (kind_index k')
      else if k = Ty_record then then_cmp (cmp_string n n') (cmp_nat (b div 8) (b' div 8))
      else if k = Ty_pointer then cmp_elem e e'
      else if k = Ty_array then then_cmp (cmp_nat ne ne') (cmp_elem e e')
      else if k = Ty_tuple then cmp_inner st st'
      else then_cmp (cmp_nat (b div 8) (b' div 8)) (cmp_bool s s'))"
| "cmp_elem None None = Equal"
| "cmp_elem None (Some t') = Less"
| "cmp_elem (Some t) None = Greater"
| "cmp_elem (Some t) (Some t') = cmp_type t t'"
| "cmp_inner (Owned st) (Owned st') = cmp_struct st st'"
| "cmp_inner (Owned st) NoStruct = Greater"
| "cmp_inner (Owned st) (Managed m) = Greater"
| "cmp_inner NoStruct (Owned st') = Less"
| "cmp_inner (Managed m) (Owned st') = Less"
| "cmp_inner NoStruct NoStruct = Equal"
| "cmp_inner NoStruct (Managed m) = Equal"
| "cmp_inner (Managed m) NoStruct = Equal"
| "cmp_inner (Managed m) (Managed m') = Equal"
| "cmp_struct (Struct sz al p fs ao) (Struct sz' al' p' fs' ao') =
     then_cmp (cmp_nat (length fs) (length fs')) (cmp_fields fs fs')"
| "cmp_fields [] [] = Equal"
| "cmp_fields [] (f' # fs') = Less"
| "cmp_fields (f # fs) [] = Greater"
| "cmp_fields (f # fs) (f' # fs') = then_cmp (cmp_field f f') (cmp_fields fs fs')"
| "cmp_field (Field n t off bf dl) (Field n' t' off' bf' dl') = cmp_type t t'"

definition is_equal :: "sized_type \<Rightarrow> sized_type \<Rightarrow> bool" where
  "is_equal t u \<longleftrightarrow> cmp_type t u = Equal"

subsection \<open>A total preorder\<close>

text \<open>
  The contract of a three-way comparison, on which sorting and keyed containers rely: it is a
  total preorder, with \<open>Equal\<close> its equivalence.
\<close>

locale three_way =
  fixes cmp :: "'a \<Rightarrow> 'a \<Rightarrow> ordering"
  assumes cmp_flip: "cmp b a = flip (cmp a b)"
    and cmp_trans: "cmp a b \<noteq> Greater \<Longrightarrow> cmp b c \<noteq> Greater \<Longrightarrow>
      cmp a c = then_cmp (cmp a b) (cmp b c)"
begin

lemma cmp_refl [simp]: "cmp a a = Equal"
  using cmp_flip [of a a] by (cases "cmp a a") auto

lemma cmp_Equal_sym: "cmp a b = Equal \<Longrightarrow> cmp b a = Equal"
  using cmp_flip [of b a] by simp

lemma cmp_Equal_trans: "cmp a b = Equal \<Longrightarrow> cmp b c = Equal \<Longrightarrow> cmp a c = Equal"
  using cmp_trans [of a b c] by simp

lemma cmp_le_trans: "cmp a b \<noteq> Greater \<Longrightarrow> cmp b c \<noteq> Greater \<Longrightarrow> cmp a c \<noteq> Greater"
  using cmp_trans [of a b c] by (cases "cmp a b") auto

lemma cmp_total: "cmp a b \<noteq> Greater \<or> cmp b a \<noteq> Greater"
  using cmp_flip [of a b] by (cases "cmp a b") auto

lemma cmp_Equal_cong: "cmp a b = Equal \<Longrightarrow> cmp a c = cmp b c"
proof -
  assume ab: "cmp a b = Equal"
  show ?thesis
  proof (cases "cmp b c = Greater")
    case False
    with cmp_trans [of a b c] ab show ?thesis by simp
  next
    case True
    then have cb: "cmp c b = Less" using cmp_flip [of c b] by simp
    with cmp_trans [of c b a] cmp_Equal_sym [OF ab] have "cmp c a = Less" by simp
    with True show ?thesis using cmp_flip [of c a] by (cases "cmp a c") auto
  qed
qed

end

lemma then_cmp_flip: "flip (then_cmp a b) = then_cmp (flip a) (flip b)"
  by (cases a) auto

lemma then_cmp_eq_Greater: "then_cmp a b \<noteq> Greater \<longleftrightarrow> a = Less \<or> (a = Equal \<and> b \<noteq> Greater)"
  by (cases a) auto

lemma then_cmp_assoc4:
  "(a1 \<noteq> Greater \<Longrightarrow> b1 \<noteq> Greater \<Longrightarrow> c1 = then_cmp a1 b1) \<Longrightarrow>
   (a1 = Equal \<Longrightarrow> b1 = Equal \<Longrightarrow> a2 \<noteq> Greater \<Longrightarrow> b2 \<noteq> Greater \<Longrightarrow> c2 = then_cmp a2 b2) \<Longrightarrow>
   then_cmp a1 a2 \<noteq> Greater \<Longrightarrow> then_cmp b1 b2 \<noteq> Greater \<Longrightarrow>
   then_cmp c1 c2 = then_cmp (then_cmp a1 a2) (then_cmp b1 b2)"
  by (cases a1; cases b1; cases a2; cases b2) auto

lemma cmp_nat_flip: "cmp_nat b a = flip (cmp_nat a b)"
  by (auto simp: cmp_nat_def)

lemma cmp_nat_trans:
  "cmp_nat a b \<noteq> Greater \<Longrightarrow> cmp_nat b c \<noteq> Greater \<Longrightarrow> cmp_nat a c = then_cmp (cmp_nat a b) (cmp_nat b c)"
  by (auto simp: cmp_nat_def split: if_splits)

lemma cmp_bool_flip: "cmp_bool b a = flip (cmp_bool a b)"
  by (auto simp: cmp_bool_def)

lemma cmp_bool_trans:
  "cmp_bool a b \<noteq> Greater \<Longrightarrow> cmp_bool b c \<noteq> Greater \<Longrightarrow> cmp_bool a c = then_cmp (cmp_bool a b) (cmp_bool b c)"
  by (auto simp: cmp_bool_def split: if_splits)

lemma cmp_string_flip: "cmp_string b a = flip (cmp_string a b)"
proof (induction a b rule: cmp_string.induct)
  case (4 a as b bs)
  with cmp_nat_flip [of "char_code b" "char_code a"] show ?case by (simp add: then_cmp_flip)
qed simp_all

lemma cmp_string_trans:
  "cmp_string a b \<noteq> Greater \<Longrightarrow> cmp_string b c \<noteq> Greater \<Longrightarrow>
   cmp_string a c = then_cmp (cmp_string a b) (cmp_string b c)"
proof (induction a b arbitrary: c rule: cmp_string.induct)
  case 1
  then show ?case by (cases c) auto
next
  case (2 b bs)
  then show ?case by (cases c) auto
next
  case (3 a as)
  then show ?case by simp
next
  case (4 a as b bs)
  show ?case
  proof (cases c)
    case Nil
    with 4 show ?thesis by simp
  next
    case (Cons d ds)
    show ?thesis unfolding Cons cmp_string.simps
    proof (rule then_cmp_assoc4)
      show "cmp_string as ds = then_cmp (cmp_string as bs) (cmp_string bs ds)"
        if "cmp_nat (char_code a) (char_code b) = Equal" "cmp_string as bs \<noteq> Greater" "cmp_string bs ds \<noteq> Greater"
        using 4(1) that by simp
      show "then_cmp (cmp_nat (char_code a) (char_code b)) (cmp_string as bs) \<noteq> Greater"
        using 4(2) by simp
      show "then_cmp (cmp_nat (char_code b) (char_code d)) (cmp_string bs ds) \<noteq> Greater"
        using 4(3) Cons by simp
    qed (rule cmp_nat_trans)
  qed
qed

lemma cmp_string_Equal [simp]: "cmp_string a b = Equal \<longleftrightarrow> a = b"
proof (induction a b rule: cmp_string.induct)
  case (4 a as b bs)
  then show ?case
    by (cases "cmp_nat (char_code a) (char_code b)") (auto simp: cmp_nat_def split: if_splits)
qed auto

lemma cmp_nat_Equal [simp]: "cmp_nat a b = Equal \<longleftrightarrow> a = b"
  by (simp add: cmp_nat_def)

lemma cmp_type_unfold:
  "cmp_type (SizedType k b s e n st ne at) (SizedType k' b' s' e' n' st' ne' at') =
     then_cmp (cmp_nat (kind_index k) (kind_index k'))
      (if k = Ty_record then then_cmp (cmp_string n n') (cmp_nat (b div 8) (b' div 8))
       else if k = Ty_pointer then cmp_elem e e'
       else if k = Ty_array then then_cmp (cmp_nat ne ne') (cmp_elem e e')
       else if k = Ty_tuple then cmp_inner st st'
       else then_cmp (cmp_nat (b div 8) (b' div 8)) (cmp_bool s s'))"
proof (cases "k = k'")
  case False
  then have "cmp_nat (kind_index k) (kind_index k') \<noteq> Equal" by simp
  with False show ?thesis by (cases "cmp_nat (kind_index k) (kind_index k')") auto
qed (simp add: cmp_nat_def)

lemma then_cmp_flipI:
  "a' = flip a \<Longrightarrow> (a = Equal \<Longrightarrow> b' = flip b) \<Longrightarrow> then_cmp a' b' = flip (then_cmp a b)"
  by (cases a) auto

lemma cmp_type_flips:
  "cmp_type u t = flip (cmp_type t u)"
  "cmp_elem e' e = flip (cmp_elem e e')"
  "cmp_inner i' i = flip (cmp_inner i i')"
  "cmp_struct r' r = flip (cmp_struct r r')"
  "cmp_fields fs' fs = flip (cmp_fields fs fs')"
  "cmp_field f' f = flip (cmp_field f f')"
proof (induction t u and e e' and i i' and r r' and fs fs' and f f'
    rule: cmp_type_cmp_elem_cmp_inner_cmp_struct_cmp_fields_cmp_field.induct)
  case (1 k b s e n st ne at k' b' s' e' n' st' ne' at')
  show ?case unfolding cmp_type_unfold
  proof (rule then_cmp_flipI)
    show "cmp_nat (kind_index k') (kind_index k) = flip (cmp_nat (kind_index k) (kind_index k'))"
      by (rule cmp_nat_flip)
    assume "cmp_nat (kind_index k) (kind_index k') = Equal"
    then have [simp]: "k' = k" by simp
    consider "k = Ty_record" | "k = Ty_pointer" | "k = Ty_array" | "k = Ty_tuple"
      | "k \<notin> {Ty_record, Ty_pointer, Ty_array, Ty_tuple}" by auto
    then show "(if k' = Ty_record then then_cmp (cmp_string n' n) (cmp_nat (b' div 8) (b div 8))
       else if k' = Ty_pointer then cmp_elem e' e
       else if k' = Ty_array then then_cmp (cmp_nat ne' ne) (cmp_elem e' e)
       else if k' = Ty_tuple then cmp_inner st' st
       else then_cmp (cmp_nat (b' div 8) (b div 8)) (cmp_bool s' s)) =
      flip (if k = Ty_record then then_cmp (cmp_string n n') (cmp_nat (b div 8) (b' div 8))
       else if k = Ty_pointer then cmp_elem e e'
       else if k = Ty_array then then_cmp (cmp_nat ne ne') (cmp_elem e e')
       else if k = Ty_tuple then cmp_inner st st'
       else then_cmp (cmp_nat (b div 8) (b' div 8)) (cmp_bool s s'))"
    proof cases
      case 1
      then show ?thesis by (simp, intro then_cmp_flipI cmp_string_flip cmp_nat_flip)
    next
      case 2
      with "1.IH"(1) show ?thesis by simp
    next
      case 3
      with "1.IH"(2) have "cmp_elem e' e = flip (cmp_elem e e')" by simp
      then have "then_cmp (cmp_nat ne' ne) (cmp_elem e' e) = flip (then_cmp (cmp_nat ne ne') (cmp_elem e e'))"
        by (rule then_cmp_flipI [OF cmp_nat_flip])
      with 3 show ?thesis by simp
    next
      case 4
      with "1.IH"(3) show ?thesis by simp
    next
      case 5
      then show ?thesis by (simp, intro then_cmp_flipI cmp_bool_flip cmp_nat_flip)
    qed
  qed
next
  case (15 sz al p fs ao sz' al' p' fs' ao')
  show ?case unfolding cmp_struct.simps by (rule then_cmp_flipI [OF cmp_nat_flip]) (use 15 in simp)
next
  case (19 f fs f' fs')
  show ?case unfolding cmp_fields.simps by (rule then_cmp_flipI) (use 19 in auto)
qed simp_all

lemma cmp_type_transs:
  "cmp_type t u \<noteq> Greater \<Longrightarrow> cmp_type u v \<noteq> Greater \<Longrightarrow>
     cmp_type t v = then_cmp (cmp_type t u) (cmp_type u v)"
  "cmp_elem e e' \<noteq> Greater \<Longrightarrow> cmp_elem e' e'' \<noteq> Greater \<Longrightarrow>
     cmp_elem e e'' = then_cmp (cmp_elem e e') (cmp_elem e' e'')"
  "cmp_inner i i' \<noteq> Greater \<Longrightarrow> cmp_inner i' i'' \<noteq> Greater \<Longrightarrow>
     cmp_inner i i'' = then_cmp (cmp_inner i i') (cmp_inner i' i'')"
  "cmp_struct r r' \<noteq> Greater \<Longrightarrow> cmp_struct r' r'' \<noteq> Greater \<Longrightarrow>
     cmp_struct r r'' = then_cmp (cmp_struct r r') (cmp_struct r' r'')"
  "cmp_fields fs fs' \<noteq> Greater \<Longrightarrow> cmp_fields fs' fs'' \<noteq> Greater \<Longrightarrow>
     cmp_fields fs fs'' = then_cmp (cmp_fields fs fs') (cmp_fields fs' fs'')"
  "cmp_field f f' \<noteq> Greater \<Longrightarrow> cmp_field f' f'' \<noteq> Greater \<Longrightarrow>
     cmp_field f f'' = then_cmp (cmp_field f f') (cmp_field f' f'')"
proof (induction t u and e e' and i i' and r r' and fs fs' and f f'
    arbitrary: v and e'' and i'' and r'' and fs'' and f''
    rule: cmp_type_cmp_elem_cmp_inner_cmp_struct_cmp_fields_cmp_field.induct)
  case (1 k b s e n st ne at k' b' s' e' n' st' ne' at')
  obtain k2 b2 s2 e2 n2 st2 ne2 at2 where v: "v = SizedType k2 b2 s2 e2 n2 st2 ne2 at2"
    by (cases v)
  show ?case unfolding v cmp_type_unfold
  proof (rule then_cmp_assoc4, goal_cases)
    case 2
    then have [simp]: "k' = k" "k2 = k" by simp_all
    consider "k = Ty_record" | "k = Ty_pointer" | "k = Ty_array" | "k = Ty_tuple"
      | "k \<notin> {Ty_record, Ty_pointer, Ty_array, Ty_tuple}" by auto
    then show ?case
    proof cases
      case a: 1
      from 2(3,4) a show ?thesis
        by (simp, intro then_cmp_assoc4 cmp_string_trans cmp_nat_trans) simp_all
    next
      case a: 2
      from 2(3,4) a "1.IH"(1) show ?thesis by simp
    next
      case a: 3
      have "cmp_elem e e2 = then_cmp (cmp_elem e e') (cmp_elem e' e2)"
        if "cmp_elem e e' \<noteq> Greater" "cmp_elem e' e2 \<noteq> Greater"
        using "1.IH"(2) that a by simp
      with 2(3,4) a show ?thesis
        by (simp, intro then_cmp_assoc4 cmp_nat_trans) simp_all
    next
      case a: 4
      from 2(3,4) a "1.IH"(3) show ?thesis by simp
    next
      case a: 5
      from 2(3,4) a show ?thesis
        by (simp, intro then_cmp_assoc4 cmp_bool_trans cmp_nat_trans) simp_all
    qed
  next
    case 3
    from "1.prems"(1) show ?case unfolding cmp_type_unfold .
  next
    case 4
    from "1.prems"(2) show ?case unfolding v cmp_type_unfold .
  qed (rule cmp_nat_trans)
next
  case (15 sz al p fs ao sz' al' p' fs' ao')
  obtain sz2 al2 p2 fs2 ao2 where r: "r'' = Struct sz2 al2 p2 fs2 ao2" by (cases r'')
  show ?case unfolding r cmp_struct.simps
    by (rule then_cmp_assoc4) (use 15 r in \<open>auto intro: cmp_nat_trans\<close>)
next
  case (19 f fs f' fs')
  show ?case
  proof (cases fs'')
    case Nil
    with 19 show ?thesis by simp
  next
    case (Cons f2 fs2)
    show ?thesis unfolding Cons cmp_fields.simps
      by (rule then_cmp_assoc4) (use 19 Cons in auto)
  qed
next
  case (20 n t off bf dl n' t' off' bf' dl')
  then show ?case by (cases f'') auto
next
  case 2
  then show ?case by (cases e'') auto
next
  case (3 t')
  then show ?case by (cases e'') auto
next
  case (5 t t')
  then show ?case by (cases e'') auto
next
  case (6 st st')
  then show ?case by (cases i'') auto
next
  case (16)
  then show ?case by (cases fs'') auto
next
  case (17 f' fs')
  then show ?case by (cases fs'') auto
qed (simp; case_tac i''; simp)+

interpretation type_order: three_way cmp_type
  by unfold_locales (rule cmp_type_flips(1), rule cmp_type_transs(1))

interpretation string_order: three_way cmp_string
  by unfold_locales (rule cmp_string_flip, rule cmp_string_trans)

section \<open>Same type, assignable type\<close>

fun is_same_type :: "sized_type \<Rightarrow> sized_type \<Rightarrow> bool"
and same_elem :: "sized_type option \<Rightarrow> sized_type option \<Rightarrow> bool"
and same_inner :: "inner_struct \<Rightarrow> inner_struct \<Rightarrow> bool"
and same_struct :: "struct_t \<Rightarrow> struct_t \<Rightarrow> bool"
and same_fields :: "field list \<Rightarrow> field list \<Rightarrow> bool"
and same_field :: "field \<Rightarrow> field \<Rightarrow> bool" where
  "is_same_type (SizedType k b s e n st ne at) (SizedType k' b' s' e' n' st' ne' at') =
     (if k' \<noteq> k then False
      else if k = Ty_record then n' = n
      else if k = Ty_pointer then same_elem e e'
      else if k = Ty_tuple then same_inner st st'
      else True)"
| "same_elem (Some t) (Some t') = is_same_type t t'"
| "same_elem e e' = (e = None \<and> e' = None)"
| "same_inner (Owned st) (Owned st') = same_struct st st'"
| "same_inner (Owned st) i' = False"
| "same_inner i (Owned st') = False"
| "same_inner i i' = True"
| "same_struct (Struct sz al p fs ao) (Struct sz' al' p' fs' ao') =
     (if length fs \<noteq> length fs' then False else same_fields fs fs')"
| "same_fields (f # fs) (f' # fs') = (if \<not> same_field f f' then False else same_fields fs fs')"
| "same_fields fs fs' = True"
| "same_field (Field n t off bf dl) (Field n' t' off' bf' dl') = is_same_type t t'"

fun fits_into :: "sized_type \<Rightarrow> sized_type \<Rightarrow> bool"
and fits_inner :: "inner_struct \<Rightarrow> inner_struct \<Rightarrow> bool"
and fits_struct :: "struct_t \<Rightarrow> struct_t \<Rightarrow> bool"
and fits_fields :: "field list \<Rightarrow> field list \<Rightarrow> bool"
and fits_field :: "field \<Rightarrow> field \<Rightarrow> bool" where
  "fits_into (SizedType k b s e n st ne at) (SizedType k' b' s' e' n' st' ne' at') =
     (if \<not> is_same_type (SizedType k b s e n st ne at) (SizedType k' b' s' e' n' st' ne' at') then False
      else if k = Ty_string then b div 8 \<le> b' div 8
      else if k = Ty_integer then
        (if s = s' then b div 8 \<le> b' div 8 else if \<not> s then b div 8 < b' div 8 else False)
      else if k = Ty_tuple then fits_inner st st'
      else is_equal (SizedType k b s e n st ne at) (SizedType k' b' s' e' n' st' ne' at'))"
| "fits_inner (Owned st) (Owned st') = fits_struct st st'"
| "fits_inner (Owned st) i' = False"
| "fits_inner i (Owned st') = False"
| "fits_inner i i' = True"
| "fits_struct (Struct sz al p fs ao) (Struct sz' al' p' fs' ao') =
     (if length fs \<noteq> length fs' then False else fits_fields fs fs')"
| "fits_fields (f # fs) (f' # fs') = (if \<not> fits_field f f' then False else fits_fields fs fs')"
| "fits_fields fs fs' = True"
| "fits_field (Field n t off bf dl) (Field n' t' off' bf' dl') = fits_into t t'"

fun is_same_size_recursive :: "sized_type \<Rightarrow> sized_type \<Rightarrow> bool"
and size_inner :: "inner_struct \<Rightarrow> inner_struct \<Rightarrow> bool"
and size_struct :: "struct_t \<Rightarrow> struct_t \<Rightarrow> bool"
and size_fields :: "field list \<Rightarrow> field list \<Rightarrow> bool"
and size_field :: "field \<Rightarrow> field \<Rightarrow> bool" where
  "is_same_size_recursive (SizedType k b s e n st ne at) (SizedType k' b' s' e' n' st' ne' at') =
     (if b div 8 \<noteq> b' div 8 then False
      else if k = Ty_tuple \<and> k' = Ty_tuple then size_inner st st'
      else True)"
| "size_inner (Owned st) (Owned st') = size_struct st st'"
| "size_inner (Owned st) i' = False"
| "size_inner i (Owned st') = False"
| "size_inner i i' = True"
| "size_struct (Struct sz al p fs ao) (Struct sz' al' p' fs' ao') =
     (if length fs \<noteq> length fs' then False else size_fields fs fs')"
| "size_fields (f # fs) (f' # fs') = (if \<not> size_field f f' then False else size_fields fs fs')"
| "size_fields fs fs' = True"
| "size_field (Field n t off bf dl) (Field n' t' off' bf' dl') = is_same_size_recursive t t'"

subsection \<open>Assignability is a preorder\<close>

text \<open>
  The contract the semantic checks and the function registry rely on: a value may always keep its
  type, and conversions compose.
\<close>

locale assignable =
  fixes fits :: "'t \<Rightarrow> 't \<Rightarrow> bool"
  assumes fits_refl: "fits t t"
    and fits_trans: "fits t u \<Longrightarrow> fits u v \<Longrightarrow> fits t v"
begin

lemma list_fits_refl: "list_all2 fits ts ts"
  by (simp add: list_all2_refl fits_refl)

lemma list_fits_trans: "list_all2 fits ts us \<Longrightarrow> list_all2 fits us vs \<Longrightarrow> list_all2 fits ts vs"
  by (rule list_all2_trans [of fits fits fits ts us vs]) (auto intro: fits_trans)

lemma fits_chain: "rtranclp fits t u \<Longrightarrow> fits t u"
  by (induction rule: rtranclp_induct) (auto intro: fits_refl fits_trans)

end

lemma same_type_trans:
  "is_same_type t u \<Longrightarrow> is_same_type u v \<Longrightarrow> is_same_type t v"
  "same_elem e e' \<Longrightarrow> same_elem e' e'' \<Longrightarrow> same_elem e e''"
  "same_inner i i' \<Longrightarrow> same_inner i' i'' \<Longrightarrow> same_inner i i''"
  "same_struct r r' \<Longrightarrow> same_struct r' r'' \<Longrightarrow> same_struct r r''"
  "length fs = length fs' \<Longrightarrow> length fs' = length fs'' \<Longrightarrow> same_fields fs fs' \<Longrightarrow> same_fields fs' fs'' \<Longrightarrow>
     same_fields fs fs''"
  "same_field f f' \<Longrightarrow> same_field f' f'' \<Longrightarrow> same_field f f''"
proof (induction t u and e e' and i i' and r r' and fs fs' and f f'
    arbitrary: v and e'' and i'' and r'' and fs'' and f''
    rule: is_same_type_same_elem_same_inner_same_struct_same_fields_same_field.induct)
  case (1 k b s e n st ne at k' b' s' e' n' st' ne' at')
  then show ?case by (cases v) (auto split: if_splits)
next
  case (2 t t')
  then show ?case by (cases e'') auto
next
  case (4 st st')
  then show ?case by (cases i'') auto
next
  case (8 sz al p fs ao sz' al' p' fs' ao')
  then show ?case by (cases r'') (auto split: if_splits)
next
  case (9 f fs f' fs')
  then show ?case by (cases fs'') (auto split: if_splits)
next
  case (11 n t off bf dl n' t' off' bf' dl')
  then show ?case by (cases f'') auto
qed ((case_tac i'', simp_all)[1] | (case_tac e'', simp_all)[1] | (simp; fail))+

lemma same_type_refl:
  "is_same_type t t" "same_inner i i" "same_struct r r" "same_field f f"
proof (induction t and i and r and f)
  case (SizedType k b s e n st ne at)
  then show ?case by (cases e) auto
next
  case (Struct sz al p fs ao)
  then have "same_fields fs fs" by (induction fs) auto
  then show ?case by simp
qed auto

lemma fits_into_same_type: "fits_into t u \<Longrightarrow> is_same_type t u"
  by (cases t; cases u) (auto split: if_splits)

lemma fits_into_trans_aux:
  "fits_into t u \<Longrightarrow> fits_into u v \<Longrightarrow> fits_into t v"
  "fits_inner i i' \<Longrightarrow> fits_inner i' i'' \<Longrightarrow> fits_inner i i''"
  "fits_struct r r' \<Longrightarrow> fits_struct r' r'' \<Longrightarrow> fits_struct r r''"
  "length fs = length fs' \<Longrightarrow> length fs' = length fs'' \<Longrightarrow> fits_fields fs fs' \<Longrightarrow> fits_fields fs' fs'' \<Longrightarrow>
     fits_fields fs fs''"
  "fits_field f f' \<Longrightarrow> fits_field f' f'' \<Longrightarrow> fits_field f f''"
proof (induction t u and i i' and r r' and fs fs' and f f'
    arbitrary: v and i'' and r'' and fs'' and f''
    rule: fits_into_fits_inner_fits_struct_fits_fields_fits_field.induct)
  case (1 k b s e n st ne at k' b' s' e' n' st' ne' at')
  obtain k2 b2 s2 e2 n2 st2 ne2 at2 where v: "v = SizedType k2 b2 s2 e2 n2 st2 ne2 at2"
    by (cases v)
  let ?t = "SizedType k b s e n st ne at" and ?u = "SizedType k' b' s' e' n' st' ne' at'"
  have st1: "is_same_type ?t ?u" and st2: "is_same_type ?u v"
    using fits_into_same_type [OF "1.prems"(1)] fits_into_same_type [OF "1.prems"(2)] .
  from same_type_trans(1) [OF this] have same: "is_same_type ?t v" .
  from st1 st2 v have k: "k' = k" "k2 = k" by (auto split: if_splits)
  consider "k = Ty_string" | "k = Ty_integer" | "k = Ty_tuple"
    | "k \<notin> {Ty_string, Ty_integer, Ty_tuple}" by auto
  then show ?case
  proof cases
    case a: 1
    with "1.prems" same st1 st2 k v show ?thesis by simp
  next
    case a: 2
    with "1.prems" same st1 st2 k v show ?thesis by (auto split: if_splits)
  next
    case a: 3
    with "1.prems" st1 st2 k v have "fits_inner st st'" "fits_inner st' st2" by simp_all
    with "1.IH" a st1 k have "fits_inner st st2" by auto
    with a same k v show ?thesis by simp
  next
    case a: 4
    then have eqs: "fits_into ?t w \<longleftrightarrow> is_same_type ?t w \<and> is_equal ?t w"
      "fits_into ?u w \<longleftrightarrow> is_same_type ?u w \<and> is_equal ?u w" for w
      using k by (cases w; simp)+
    from "1.prems" have "is_equal ?t ?u" "is_equal ?u v" unfolding eqs by auto
    then have "is_equal ?t v" unfolding is_equal_def by (rule type_order.cmp_Equal_trans)
    with same show ?thesis unfolding eqs by simp
  qed
next
  case (2 st st')
  then show ?case by (cases i'') auto
next
  case (6 sz al p fs ao sz' al' p' fs' ao')
  then show ?case by (cases r'') (auto split: if_splits)
next
  case (7 f fs f' fs')
  then show ?case by (cases fs'') (auto split: if_splits)
next
  case (9 n t off bf dl n' t' off' bf' dl')
  then show ?case by (cases f'') auto
qed ((case_tac i'', simp_all)[1] | (simp; fail))+

lemma fits_into_refl_aux:
  "fits_into t t" "fits_inner i i" "fits_struct r r" "fits_field f f"
proof (induction t and i and r and f)
  case (SizedType k b s e n st ne at)
  have "is_same_type (SizedType k b s e n st ne at) (SizedType k b s e n st ne at)"
    by (rule same_type_refl)
  moreover have "is_equal (SizedType k b s e n st ne at) (SizedType k b s e n st ne at)"
    unfolding is_equal_def by (rule type_order.cmp_refl)
  ultimately show ?case using SizedType(2) by (simp del: is_same_type.simps)
next
  case (Struct sz al p fs ao)
  then have "fits_fields fs fs" by (induction fs) auto
  then show ?case by simp
qed auto

interpretation type_fits: assignable fits_into
  by unfold_locales (rule fits_into_refl_aux, rule fits_into_trans_aux)

section \<open>Literal types\<close>

definition get_integer_type :: "nat \<Rightarrow> sized_type" where
  "get_integer_type n =
     (if n \<le> 255 then int_type 8 False else if n \<le> 65535 then int_type 16 False
      else if n \<le> 4294967295 then int_type 32 False else int_type 64 False)"

text \<open>The two overloads of \<open>get_signed_integer_type\<close>.\<close>

definition get_signed_integer_type_u :: "nat \<Rightarrow> sized_type option" where
  "get_signed_integer_type_u n =
     (if n \<le> 127 then Some (int_type 8 True) else if n \<le> 32767 then Some (int_type 16 True)
      else if n \<le> 2147483647 then Some (int_type 32 True)
      else if n \<le> 9223372036854775807 then Some (int_type 64 True) else None)"

definition get_signed_integer_type :: "int \<Rightarrow> sized_type" where
  "get_signed_integer_type n =
     (if -128 \<le> n \<and> n \<le> 127 then int_type 8 True
      else if -32768 \<le> n \<and> n \<le> 32767 then int_type 16 True
      else if -2147483648 \<le> n \<and> n \<le> 2147483647 then int_type 32 True
      else int_type 64 True)"

text \<open>The values of an integer type of a given width and sign.\<close>

definition int_values :: "nat \<Rightarrow> bool \<Rightarrow> int set" where
  "int_values bits sg = (if sg then {- (2 ^ (bits - 1)) .. 2 ^ (bits - 1) - 1} else {0 .. 2 ^ bits - 1})"

section \<open>Printing types\<close>

fun typestr_kind :: "kind \<Rightarrow> string" where
  "typestr_kind Ty_none = ''none''" | "typestr_kind Ty_voidtype = ''void''"
| "typestr_kind Ty_integer = ''int''" | "typestr_kind Ty_pointer = ''pointer''"
| "typestr_kind Ty_record = ''record''" | "typestr_kind Ty_hist_t = ''hist_t''"
| "typestr_kind Ty_lhist_t = ''lhist_t''" | "typestr_kind Ty_tseries_t = ''tseries_t''"
| "typestr_kind Ty_count_t = ''count_t''" | "typestr_kind Ty_sum_t = ''sum_t''"
| "typestr_kind Ty_min_t = ''min_t''" | "typestr_kind Ty_max_t = ''max_t''"
| "typestr_kind Ty_avg_t = ''avg_t''" | "typestr_kind Ty_stats_t = ''stats_t''"
| "typestr_kind Ty_kstack_t = ''kstack''" | "typestr_kind Ty_ustack_t = ''ustack''"
| "typestr_kind Ty_string = ''string''" | "typestr_kind Ty_ksym_t = ''ksym_t''"
| "typestr_kind Ty_usym_t = ''usym_t''" | "typestr_kind Ty_username = ''username''"
| "typestr_kind Ty_inet = ''inet''" | "typestr_kind Ty_stack_mode = ''stack_mode''"
| "typestr_kind Ty_array = ''array''" | "typestr_kind Ty_buffer = ''buffer''"
| "typestr_kind Ty_tuple = ''tuple''" | "typestr_kind Ty_timestamp = ''timestamp''"
| "typestr_kind Ty_mac_address = ''mac_address''" | "typestr_kind Ty_cgroup_path_t = ''cgroup_path_t''"
| "typestr_kind Ty_timestamp_mode = ''timestamp_mode''" | "typestr_kind Ty_boolean = ''bool''"

text \<open>The element type or the struct of a type that should have one is null: nothing is printed.\<close>

fun typestr :: "sized_type \<Rightarrow> string"
and typestr_elem :: "sized_type option \<Rightarrow> string"
and typestr_inner :: "inner_struct \<Rightarrow> string"
and typestr_struct :: "struct_t \<Rightarrow> string"
and typestr_fields :: "field list \<Rightarrow> string"
and typestr_field :: "field \<Rightarrow> string" where
  "typestr (SizedType k b s e n st ne at) =
     (if k = Ty_integer then
        (if n \<noteq> [] then ''enum '' @ n
         else (if s then ''int'' else ''uint'') @ show_nat (8 * (b div 8)))
      else if k = Ty_string then
        (if b div 8 = 0 then typestr_kind k
         else typestr_kind k @ ''['' @ show_nat (b div 8) @ '']'')
      else if k = Ty_inet \<or> k = Ty_buffer then typestr_kind k @ ''['' @ show_nat (b div 8) @ '']''
      else if k = Ty_pointer then typestr_elem e @ '' *''
      else if k = Ty_array then typestr_elem e @ ''['' @ show_nat ne @ '']''
      else if k = Ty_record then n
      else if k = Ty_tuple then ''('' @ typestr_inner st @ '')''
      else if k \<in> {Ty_max_t, Ty_min_t, Ty_sum_t, Ty_avg_t, Ty_stats_t}
        then (if s then [] else ''u'') @ typestr_kind k
      else typestr_kind k)"
| "typestr_elem None = []"
| "typestr_elem (Some t) = typestr t"
| "typestr_inner (Owned st) = typestr_struct st"
| "typestr_inner NoStruct = []"
| "typestr_inner (Managed m) = []"
| "typestr_struct (Struct sz al p fs ao) = typestr_fields fs"
| "typestr_fields [] = []"
| "typestr_fields [f] = typestr_field f"
| "typestr_fields (f # g # fs) = typestr_field f @ '','' @ typestr_fields (g # fs)"
| "typestr_field (Field n t off bf dl) = typestr t"

section \<open>Properties\<close>

text \<open>C16: on integers \<open>FitsInto\<close> is exact: a type fits into another precisely when every value of
  the first is a value of the second (for the widths bpftrace has).\<close>

theorem fits_into_int_iff_values:
  assumes "b \<in> {8, 16, 32, 64}" "b' \<in> {8, 16, 32, 64}"
  shows "fits_into (int_type b s) (int_type b' s') \<longleftrightarrow> int_values b s \<subseteq> int_values b' s'"
  using assms by (cases s; cases s') (auto simp: int_type_def int_values_def)

theorem fits_into_int_iff_values_witness:
  "fits_into (int_type 32 False) (int_type 64 True) \<longleftrightarrow> int_values 32 False \<subseteq> int_values 64 True"
  by (rule fits_into_int_iff_values) simp_all

text \<open>\<open>FitsInto\<close> is a preorder on all types (tuples, records, strings and map values included):
  a type fits into itself and conversions compose.\<close>

theorem fits_into_preorder:
  "fits_into t t \<and> (fits_into t u \<and> fits_into u v \<longrightarrow> fits_into t v)"
  using type_fits.fits_refl type_fits.fits_trans by blast

theorem fits_into_preorder_witness:
  "fits_into (int_type 8 False) (int_type 64 True)"
proof -
  have "fits_into (int_type 8 False) (int_type 16 True)" "fits_into (int_type 16 True) (int_type 64 True)"
    by (simp_all add: int_type_def)
  with fits_into_preorder [of "int_type 8 False" "int_type 16 True" "int_type 64 True"]
  show ?thesis by blast
qed

text \<open>C19: \<open>operator<=>\<close> is a total preorder: swapping the operands flips the result and
  non-\<open>Greater\<close> results compose, so types can be sorted and used as keys.\<close>

theorem cmp_type_total_preorder:
  "cmp_type u t = flip (cmp_type t u)
   \<and> (cmp_type t u \<noteq> Greater \<and> cmp_type u v \<noteq> Greater \<longrightarrow> cmp_type t v \<noteq> Greater)"
  using type_order.cmp_flip [of u t] type_order.cmp_le_trans [of t u v] by blast

theorem cmp_type_total_preorder_witness:
  "cmp_type create_void (create_string 8) \<noteq> Greater"
proof -
  have "cmp_type create_void create_bool \<noteq> Greater" "cmp_type create_bool (create_string 8) \<noteq> Greater"
    by (simp_all add: create_void_def create_bool_def create_string_def simple_type_def cmp_nat_def)
  with cmp_type_total_preorder [of create_bool create_void "create_string 8"] show ?thesis by blast
qed

text \<open>the type of an unsigned literal holds it, and no narrower unsigned type of bpftrace does.\<close>

theorem get_integer_type_least:
  assumes "n \<le> u64_max"
  shows "\<exists>b \<in> {8, 16, 32, 64}. get_integer_type n = int_type b False \<and> int n \<in> int_values b False \<and>
    (\<forall>b' \<in> {8, 16, 32, 64}. int n \<in> int_values b' False \<longrightarrow> b \<le> b')"
  using assms by (auto simp: get_integer_type_def int_values_def)

theorem get_integer_type_least_witness:
  "\<exists>b \<in> {8, 16, 32, 64}. get_integer_type 300 = int_type b False \<and> int 300 \<in> int_values b False \<and>
    (\<forall>b' \<in> {8, 16, 32, 64}. int 300 \<in> int_values b' False \<longrightarrow> b \<le> b')"
  by (rule get_integer_type_least) simp

text \<open>
  Anonymous records carry no name, and equality of records looks at name and size only: two
  anonymous records of the same size are equal and fit into each other whatever their fields are.
\<close>

lemma anonymous_records_conflated:
  fixes fs fs' :: "field list"
  defines "a \<equiv> create_record_anon (Struct 8 8 False fs True)"
  defines "b \<equiv> create_record_anon (Struct 8 4 False fs' True)"
  shows "is_equal a b" "fits_into a b" "fits_into b a"
  by (simp_all add: a_def b_def create_record_anon_def is_equal_def cmp_nat_def)

end
