(* ===== verification/Structs.thy ===== *)
theory Structs
  imports Sized_Types
begin

text \<open>
  Struct layouts, \<open>src/struct.h\<close> and \<open>src/struct.cpp\<close>: bitfield access parameters, the layout of
  tuples and anonymous records, field lists, and the struct manager that owns the named structs.
\<close>

section \<open>Bitfields\<close>




section \<open>Alignment and layout\<close>

datatype layout_error = NullStruct | DivideByZero

text \<open>\<open>GetInTupleAlignment\<close>; \<open>None\<close> is the dereference of a null struct or element.\<close>

fun in_tuple_alignment :: "(string \<rightharpoonup> struct_t) \<Rightarrow> sized_type \<Rightarrow> int option"
and elem_alignment :: "(string \<rightharpoonup> struct_t) \<Rightarrow> sized_type option \<Rightarrow> int option" where
  "in_tuple_alignment sm (SizedType k b s e n st ne at) =
     (if is_byte_array (SizedType k b s e n st ne at) then Some 1
      else if k = Ty_tuple \<or> k = Ty_record then
        (case st of NoStruct \<Rightarrow> None
         | Owned r \<Rightarrow> Some (st_align r)
         | Managed m \<Rightarrow> map_option st_align (sm m))
      else if b div 8 \<le> 2 then Some (int (b div 8))
      else if k = Ty_array then elem_alignment sm e
      else if b div 8 \<le> 4 then Some 4
      else Some 8)"
| "elem_alignment sm None = None"
| "elem_alignment sm (Some t) = in_tuple_alignment sm t"

text \<open>Conversion of a \<open>ssize_t\<close> to an \<open>int\<close>.\<close>

definition narrow_int :: "int \<Rightarrow> int" where
  "narrow_int x = (x + 2 ^ 31) mod 2 ^ 32 - 2 ^ 31"

definition padding :: "int \<Rightarrow> int \<Rightarrow> int" where
  "padding align offset = (align - offset mod align) mod align"

text \<open>
  The loop of \<open>CreateRecord\<close>: offset, struct alignment and the padded flag so far; a zero
  alignment is a division by zero.
\<close>

fun layout_fields ::
  "(string \<rightharpoonup> struct_t) \<Rightarrow> (string \<times> sized_type) list \<Rightarrow> int \<Rightarrow> int \<Rightarrow> bool \<Rightarrow>
     layout_error + (int \<times> int \<times> bool \<times> field list)" where
  "layout_fields sm [] offset struct_align pd = Inr (offset, struct_align, pd, [])"
| "layout_fields sm ((name, t) # ts) offset struct_align pd =
     (case in_tuple_alignment sm t of
        None \<Rightarrow> Inl NullStruct
      | Some align \<Rightarrow>
          if align = 0 then Inl DivideByZero
          else
            let p = padding align offset; off = offset + p
            in case layout_fields sm ts (off + int (get_size t)) (max align struct_align) (pd \<or> p \<noteq> 0) of
                 Inl e \<Rightarrow> Inl e
               | Inr (end_off, sa, pd', fs) \<Rightarrow> Inr (end_off, sa, pd', Field name t off None False # fs))"

definition create_record ::
  "(string \<rightharpoonup> struct_t) \<Rightarrow> sized_type list \<Rightarrow> string list \<Rightarrow> layout_error + struct_t" where
  "create_record sm ts names =
     (case layout_fields sm (zip (if names = [] then replicate (length ts) [] else names) ts) 0 1 False of
        Inl e \<Rightarrow> Inl e
      | Inr (offset, struct_align, pd, fs) \<Rightarrow>
          Inr (Struct (narrow_int (offset + padding struct_align offset)) (narrow_int struct_align) pd fs True))"

definition create_tuple :: "(string \<rightharpoonup> struct_t) \<Rightarrow> sized_type list \<Rightarrow> layout_error + struct_t" where
  "create_tuple sm ts = create_record sm ts []"

section \<open>Fields of a struct\<close>

definition has_field :: "struct_t \<Rightarrow> string \<Rightarrow> bool" where
  "has_field st name = list_ex (\<lambda>f. f_name f = name) (fields st)"

text \<open>\<open>GetField\<close> throws a \<open>FatalUserException\<close> with the message on the left.\<close>

definition get_field :: "struct_t \<Rightarrow> string \<Rightarrow> string + field" where
  "get_field st name =
     (case find (\<lambda>f. f_name f = name) (fields st) of
        Some f \<Rightarrow> Inr f
      | None \<Rightarrow> Inl (''struct has no field named '' @ name))"

definition set_fields :: "field list \<Rightarrow> struct_t \<Rightarrow> struct_t" where
  "set_fields fs st = Struct (st_size st) (st_align st) (padded st) fs (allow_override st)"

definition add_field ::
  "string \<Rightarrow> sized_type \<Rightarrow> int \<Rightarrow> bitfield option \<Rightarrow> bool \<Rightarrow> struct_t \<Rightarrow> struct_t" where
  "add_field name t offset bf data_loc st =
     (if \<not> has_field st name then set_fields (fields st @ [Field name t offset bf data_loc]) st else st)"

definition has_fields :: "struct_t \<Rightarrow> bool" where
  "has_fields st \<longleftrightarrow> fields st \<noteq> []"

definition clear_fields :: "struct_t \<Rightarrow> struct_t" where
  "clear_fields st = set_fields [] st"

section \<open>The struct manager\<close>

type_synonym struct_manager = "string \<rightharpoonup> struct_t"

definition new_struct :: "int \<Rightarrow> bool \<Rightarrow> struct_t" where
  "new_struct sz ao = Struct sz 1 False [] ao"

definition sm_add :: "string \<Rightarrow> nat \<Rightarrow> bool \<Rightarrow> struct_manager \<Rightarrow> string + struct_manager" where
  "sm_add name sz ao sm =
     (if sm name = None then Inr (sm(name \<mapsto> new_struct (narrow_int (int sz)) ao))
      else Inl (''Type redefinition: type with name '' @ [CHR 0x27] @ name @ [CHR 0x27] @ '' already exists''))"

definition sm_add_record :: "string \<Rightarrow> struct_t \<Rightarrow> struct_manager \<Rightarrow> struct_manager" where
  "sm_add_record name st sm = sm(name \<mapsto> st)"

definition sm_lookup :: "struct_manager \<Rightarrow> string \<Rightarrow> struct_t option" where
  "sm_lookup sm name = sm name"

definition sm_lookup_or_add :: "string \<Rightarrow> nat \<Rightarrow> bool \<Rightarrow> struct_manager \<Rightarrow> struct_t \<times> struct_manager" where
  "sm_lookup_or_add name sz ao sm =
     (case sm name of
        Some st \<Rightarrow> (st, sm)
      | None \<Rightarrow> let st = new_struct (narrow_int (int sz)) ao in (st, sm(name \<mapsto> st)))"

definition sm_has :: "struct_manager \<Rightarrow> string \<Rightarrow> bool" where
  "sm_has sm name \<longleftrightarrow> sm name \<noteq> None"

text \<open>\<open>GetProbeArg\<close>, given the name of the struct of the probe's arguments.\<close>

definition get_probe_arg :: "struct_manager \<Rightarrow> string \<Rightarrow> string \<Rightarrow> field option" where
  "get_probe_arg sm args_typename arg_name =
     (case sm_lookup sm args_typename of
        None \<Rightarrow> None
      | Some st \<Rightarrow>
          if \<not> has_field st arg_name then None
          else (case get_field st arg_name of Inl e \<Rightarrow> None | Inr f \<Rightarrow> Some f))"

section \<open>The interface of a table of named entries\<close>

locale name_table =
  fixes lookup :: "'s \<Rightarrow> 'k \<Rightarrow> 'v option" and put :: "'k \<Rightarrow> 'v \<Rightarrow> 's \<Rightarrow> 's"
  assumes lookup_put: "lookup (put k v s) k = Some v"
    and lookup_put_other: "k' \<noteq> k \<Longrightarrow> lookup (put k v s) k' = lookup s k'"
begin

lemma lookup_put_if: "lookup (put k v s) k' = (if k' = k then Some v else lookup s k')"
  by (simp add: lookup_put lookup_put_other)

lemma put_overrides: "lookup (put k v (put k w s)) = lookup (put k v s)"
  by (rule ext) (simp add: lookup_put_if)

lemma put_commute: "k \<noteq> k' \<Longrightarrow> lookup (put k v (put k' w s)) = lookup (put k' w (put k v s))"
  by (rule ext) (simp add: lookup_put_if)

lemma put_preserves_all:
  "(\<And>k v. lookup s k = Some v \<Longrightarrow> P v) \<Longrightarrow> P w \<Longrightarrow> lookup (put k w s) k' = Some v \<Longrightarrow> P v"
  by (auto simp: lookup_put_if split: if_splits)

end

interpretation struct_table: name_table sm_lookup sm_add_record
  by unfold_locales (simp_all add: sm_lookup_def sm_add_record_def)

section \<open>Correct layouts\<close>

definition align_of :: "(string \<rightharpoonup> struct_t) \<Rightarrow> sized_type \<Rightarrow> int" where
  "align_of sm t = (case in_tuple_alignment sm t of None \<Rightarrow> 0 | Some a \<Rightarrow> a)"

text \<open>
  \<open>placed sm lo fs hi\<close>: the fields lie in order in \<open>[lo, hi)\<close>, each at the least multiple of its
  alignment that is not below the end of the field before it.
\<close>

fun placed :: "(string \<rightharpoonup> struct_t) \<Rightarrow> int \<Rightarrow> field list \<Rightarrow> int \<Rightarrow> bool" where
  "placed sm lo [] hi \<longleftrightarrow> hi = lo"
| "placed sm lo (f # fs) hi \<longleftrightarrow>
     lo \<le> f_offset f \<and> f_offset f < lo + align_of sm (f_type f) \<and>
     f_offset f mod align_of sm (f_type f) = 0 \<and>
     placed sm (f_offset f + int (get_size (f_type f))) fs hi"

fun has_gap :: "int \<Rightarrow> field list \<Rightarrow> bool" where
  "has_gap lo [] = False"
| "has_gap lo (f # fs) \<longleftrightarrow> f_offset f \<noteq> lo \<or> has_gap (f_offset f + int (get_size (f_type f))) fs"

lemma padding_eq [layout_simps]: "padding a off = (- off) mod a"
  by (simp add: padding_def mod_diff_right_eq mod_minus_eq)

lemma padding_bounds: "0 < a \<Longrightarrow> 0 \<le> padding a off \<and> padding a off < a"
  by (simp add: layout_simps)

lemma padding_aligns: "(off + padding a off) mod a = 0"
  by (simp add: layout_simps mod_add_right_eq)

lemma narrow_int_id: "- (2 ^ 31) \<le> x \<Longrightarrow> x < 2 ^ 31 \<Longrightarrow> narrow_int x = x"
  by (simp add: narrow_int_def)

lemma layout_fields_ok:
  assumes "\<forall>t \<in> snd ` set nts. 0 < align_of sm t" "0 \<le> off" "0 < sa"
  shows "\<exists>e sa' pd' fs. layout_fields sm nts off sa pd = Inr (e, sa', pd', fs) \<and>
    placed sm off fs e \<and> map f_name fs = map fst nts \<and> map f_type fs = map snd nts \<and>
    (pd' \<longleftrightarrow> pd \<or> has_gap off fs) \<and> sa' = foldl max sa (map (\<lambda>nt. align_of sm (snd nt)) nts) \<and>
    off \<le> e \<and> e \<le> off + (\<Sum>t \<leftarrow> map snd nts. int (get_size t) + align_of sm t)"
  using assms
proof (induction nts arbitrary: off sa pd)
  case Nil
  then show ?case by simp
next
  case (Cons nt nts)
  obtain n t where nt: "nt = (n, t)" by (cases nt)
  let ?a = "align_of sm t" and ?p = "padding (align_of sm t) off"
  have a: "0 < ?a" "in_tuple_alignment sm t = Some ?a"
    using Cons.prems(1) nt by (auto simp: align_of_def split: option.splits)
  note pb = padding_bounds [OF a(1), of off]
  have "0 \<le> off + ?p + int (get_size t)" "0 < max ?a sa" using pb Cons.prems(2,3) by auto
  have "\<forall>t \<in> snd ` set nts. 0 < align_of sm t" using Cons.prems(1) by simp
  from Cons.IH [OF this \<open>0 \<le> off + ?p + int (get_size t)\<close> \<open>0 < max ?a sa\<close>, of "pd \<or> ?p \<noteq> 0"]
  obtain e sa' pd' fs where r:
    "layout_fields sm nts (off + ?p + int (get_size t)) (max ?a sa) (pd \<or> ?p \<noteq> 0) = Inr (e, sa', pd', fs)"
    "placed sm (off + ?p + int (get_size t)) fs e" "map f_name fs = map fst nts"
    "map f_type fs = map snd nts" "pd' \<longleftrightarrow> (pd \<or> ?p \<noteq> 0) \<or> has_gap (off + ?p + int (get_size t)) fs"
    "sa' = foldl max (max ?a sa) (map (\<lambda>nt. align_of sm (snd nt)) nts)"
    "off + ?p + int (get_size t) \<le> e"
    "e \<le> off + ?p + int (get_size t) + (\<Sum>t \<leftarrow> map snd nts. int (get_size t) + align_of sm t)"
    by blast
  have "layout_fields sm (nt # nts) off sa pd = Inr (e, sa', pd', Field n t (off + ?p) None False # fs)"
    using a r(1) nt by (simp add: Let_def)
  moreover have "placed sm off (Field n t (off + ?p) None False # fs) e"
    using r(2) pb padding_aligns [of off ?a] by simp
  moreover have "sa' = foldl max sa (map (\<lambda>nt. align_of sm (snd nt)) (nt # nts))"
    using r(6) nt by (simp add: max.commute)
  ultimately show ?case using r(3-5,7,8) pb nt by auto
qed

lemma foldl_max_ge: "(m::int) \<le> foldl max m xs \<and> (\<forall>x \<in> set xs. x \<le> foldl max m xs)"
proof (induction xs arbitrary: m)
  case (Cons x xs)
  have "max m x \<le> foldl max (max m x) xs" using Cons by blast
  with Cons [of "max m x"] show ?case by auto
qed simp

lemma foldl_max_le_sum:
  "0 < (m::int) \<Longrightarrow> \<forall>x \<in> set xs. 0 < x \<Longrightarrow> foldl max m xs \<le> m + sum_list xs"
proof (induction xs arbitrary: m)
  case (Cons x xs)
  have "foldl max (max m x) xs \<le> max m x + sum_list xs" using Cons.IH [of "max m x"] Cons.prems by auto
  moreover have "max m x \<le> m + x" using Cons.prems by auto
  ultimately show ?case unfolding foldl_Cons sum_list.Cons by linarith
qed simp

section \<open>Properties\<close>


text \<open>C4: the layout of a record or tuple: with positive alignments and no overflow the fields
  keep their order and types, each sits at the least aligned offset after the one before, the
  \<open>padded\<close> flag says whether there is a gap between fields, and the size is the end of the last
  field rounded up to the struct's alignment, the largest of its fields'.\<close>

theorem create_record_layout:
  assumes "\<forall>t \<in> set ts. 0 < align_of sm t"
    and "names = [] \<or> length names = length ts"
    and "2 * (\<Sum>t \<leftarrow> ts. int (get_size t) + align_of sm t) < 2 ^ 31 - 2"
  shows "\<exists>st e. create_record sm ts names = Inr st \<and>
    map f_type (fields st) = ts \<and>
    map f_name (fields st) = (if names = [] then replicate (length ts) [] else names) \<and>
    placed sm 0 (fields st) e \<and> (padded st \<longleftrightarrow> has_gap 0 (fields st)) \<and>
    st_align st = foldl max 1 (map (align_of sm) ts) \<and>
    e \<le> st_size st \<and> st_size st < e + st_align st \<and> st_size st mod st_align st = 0"
proof -
  let ?nms = "if names = [] then replicate (length ts) [] else names"
  have len: "length ?nms = length ts" using assms(2) by auto
  have snds: "map snd (zip ?nms ts) = ts" and fsts: "map fst (zip ?nms ts) = ?nms"
    using len by simp_all
  have al: "map (\<lambda>nt. align_of sm (snd nt)) (zip ?nms ts) = map (align_of sm) ts"
    using arg_cong [OF snds, of "map (align_of sm)"] by (simp add: comp_def)
  have "\<forall>t \<in> snd ` set (zip ?nms ts). 0 < align_of sm t"
    using assms(1) by (auto dest: set_zip_rightD)
  from layout_fields_ok [OF this, of 0 1 False] obtain e sa pd fs where r:
    "layout_fields sm (zip ?nms ts) 0 1 False = Inr (e, sa, pd, fs)" "placed sm 0 fs e"
    "map f_name fs = ?nms" "map f_type fs = ts" "pd \<longleftrightarrow> has_gap 0 fs"
    "sa = foldl max 1 (map (align_of sm) ts)" "0 \<le> e"
    "e \<le> (\<Sum>t \<leftarrow> ts. int (get_size t) + align_of sm t)"
    unfolding fsts snds al by auto
  let ?S = "\<Sum>t \<leftarrow> ts. int (get_size t) + align_of sm t"
  have sa: "0 < sa" using foldl_max_ge [of 1 "map (align_of sm) ts"] r(6) by simp
  have "sa \<le> 1 + sum_list (map (align_of sm) ts)"
    unfolding r(6) by (rule foldl_max_le_sum) (use assms(1) in auto)
  also have "sum_list (map (align_of sm) ts) \<le> ?S"
    by (rule sum_list_mono) simp
  finally have sa_le: "sa \<le> 1 + ?S" by simp
  note pb = padding_bounds [OF sa, of e]
  have "narrow_int (e + padding sa e) = e + padding sa e" "narrow_int sa = sa"
    using r(7,8) sa sa_le pb assms(3) by (auto intro!: narrow_int_id)
  then have "create_record sm ts names = Inr (Struct (e + padding sa e) sa pd fs True)"
    using r(1) by (simp add: create_record_def)
  then show ?thesis using r sa pb padding_aligns [of e sa] by (intro exI conjI) auto
qed

theorem create_record_layout_witness:
  "\<exists>st e. create_record Map.empty [int_type 8 False, int_type 64 True] [] = Inr st \<and>
    map f_type (fields st) = [int_type 8 False, int_type 64 True] \<and>
    placed Map.empty 0 (fields st) e \<and> e \<le> st_size st"
proof -
  have "\<forall>t \<in> set [int_type 8 False, int_type 64 True]. 0 < align_of Map.empty t"
    "2 * (\<Sum>t \<leftarrow> [int_type 8 False, int_type 64 True]. int (get_size t) + align_of Map.empty t) < 2 ^ 31 - 2"
    by (simp_all add: align_of_def int_type_def is_byte_array_def get_size_def)
  from create_record_layout [OF this(1) disjI1 [OF refl] this(2)] show ?thesis
    by (elim exE conjE) (intro exI conjI, assumption+)
qed

text \<open>a record with a field of alignment 0 (a type of size 0, such as \<open>void\<close>) is a division by
  zero, wherever the field stands.\<close>

theorem create_record_zero_alignment:
  assumes "\<forall>t \<in> set ts. 0 < align_of sm t" "in_tuple_alignment sm t = Some 0"
  shows "create_record sm (ts @ t # us) [] = Inl DivideByZero"
proof -
  have "layout_fields sm (zip (replicate (length (ts @ t # us)) []) (ts @ t # us)) off sa pd = Inl DivideByZero"
    for off sa pd
    using assms(1)
  proof (induction ts arbitrary: off sa pd)
    case Nil
    with assms(2) show ?case by simp
  next
    case (Cons x xs)
    then have "in_tuple_alignment sm x = Some (align_of sm x)" "align_of sm x \<noteq> 0"
      by (auto simp: align_of_def split: option.splits)
    with Cons show ?case by (simp add: Let_def)
  qed
  then show ?thesis by (simp add: create_record_def)
qed

theorem create_record_zero_alignment_witness:
  "create_record Map.empty ([int_type 8 False] @ create_void # []) [] = Inl DivideByZero"
  by (rule create_record_zero_alignment)
    (simp_all add: align_of_def int_type_def create_void_def simple_type_def is_byte_array_def)

text \<open>adding a field keeps field names unique, keeps every field that is there, and makes the
  name resolvable.\<close>

theorem add_field_correct:
  assumes "distinct (map f_name (fields st))"
  shows "distinct (map f_name (fields (add_field n t off bf dl st)))
    \<and> (\<forall>m f. get_field st m = Inr f \<longrightarrow> get_field (add_field n t off bf dl st) m = Inr f)
    \<and> (\<exists>f. get_field (add_field n t off bf dl st) n = Inr f)"
proof (cases "has_field st n")
  case True
  then have "find (\<lambda>f. f_name f = n) (fields st) \<noteq> None"
    by (auto simp: has_field_def list_ex_iff find_None_iff)
  with True assms show ?thesis by (auto simp: add_field_def get_field_def)
next
  case False
  then have new: "n \<notin> set (map f_name (fields st))" by (auto simp: has_field_def list_ex_iff)
  have fs: "fields (add_field n t off bf dl st) = fields st @ [Field n t off bf dl]"
    using False by (simp add: add_field_def set_fields_def)
  have find_app: "find P (xs @ [y]) = (case find P xs of Some x \<Rightarrow> Some x | None \<Rightarrow> if P y then Some y else None)"
    for P :: "field \<Rightarrow> bool" and xs y by (induction xs) auto
  have "find (\<lambda>f. f_name f = n) (fields st) = None"
    using new by (auto simp: find_None_iff)
  then show ?thesis using assms new fs by (auto simp: get_field_def find_app split: option.splits)
qed

theorem add_field_correct_witness:
  "distinct (map f_name (fields (add_field ''b'' create_bool 1 None False
      (add_field ''a'' create_bool 0 None False (new_struct 2 True)))))"
  using add_field_correct [of "add_field ''a'' create_bool 0 None False (new_struct 2 True)" "''b''" create_bool 1 None False]
  by (simp add: add_field_def has_field_def set_fields_def new_struct_def)

end
