(* ===== verification/Function_Registry.thy ===== *)
theory Function_Registry
  imports Structs
begin

text \<open>
  The registry of callable functions, \<open>src/functions.h\<close> and \<open>src/functions.cpp\<close>: adding a function
  under a qualified name, and resolving a call by name and argument types.
\<close>

section \<open>Functions and the registry\<close>

datatype origin = Builtin | Script | External

record param =
  p_name :: string
  p_type :: sized_type

record fun_decl =
  fn_name :: string
  fn_return :: sized_type
  fn_params :: "param list"
  fn_origin :: origin

record fq_name =
  fq_ns :: string
  fq_id :: string

definition fq_str :: "fq_name \<Rightarrow> string" where
  "fq_str q = (if fq_ns q = [] then fq_id q else fq_ns q @ ''::'' @ fq_id q)"

text \<open>
  The functions are owned by \<open>all_funcs\<close> and never change after they are added, so the references
  held by name are the functions themselves.
\<close>

record registry =
  by_name :: "fq_name \<rightharpoonup> fun_decl list"
  all_funcs :: "fun_decl list"

definition empty_registry :: registry where
  "empty_registry = \<lparr>by_name = Map.empty, all_funcs = []\<rparr>"

definition candidates :: "registry \<Rightarrow> fq_name \<Rightarrow> fun_decl list" where
  "candidates reg q = (case by_name reg q of None \<Rightarrow> [] | Some fs \<Rightarrow> fs)"

definition registry_add ::
  "origin \<Rightarrow> string \<Rightarrow> string \<Rightarrow> sized_type \<Rightarrow> param list \<Rightarrow> registry \<Rightarrow> fun_decl option \<times> registry" where
  "registry_add orig ns name return_type params reg =
     (let q = \<lparr>fq_ns = ns, fq_id = name\<rparr>
      in if list_ex (\<lambda>f. fn_origin f \<noteq> Builtin) (candidates reg q) then (None, reg)
         else let f = \<lparr>fn_name = name, fn_return = return_type, fn_params = params, fn_origin = orig\<rparr>
              in (Some f, reg\<lparr>by_name := (by_name reg)(q \<mapsto> candidates reg q @ [f]),
                              all_funcs := all_funcs reg @ [f]\<rparr>))"

section \<open>Resolving a call\<close>

definition can_implicit_cast :: "sized_type \<Rightarrow> sized_type \<Rightarrow> bool" where
  "can_implicit_cast src dst =
     (if fits_into src dst then True
      else if ty src = Ty_string \<and> ty dst = Ty_pointer \<and>
              (case element dst of None \<Rightarrow> False | Some p \<Rightarrow> ty p = Ty_integer \<and> get_size p = 1) then True
      else if ty src = Ty_string \<and> ty dst = Ty_string then True
      else False)"

text \<open>The loop over the candidates stops at the first that is no builtin.\<close>

fun pick_candidate :: "fun_decl list \<Rightarrow> fun_decl option \<Rightarrow> fun_decl option" where
  "pick_candidate [] cand = cand"
| "pick_candidate (f # fs) cand = (if fn_origin f \<noteq> Builtin then Some f else pick_candidate fs (Some f))"

fun args_castable :: "sized_type list \<Rightarrow> param list \<Rightarrow> bool" where
  "args_castable (t # ts) (p # ps) = (if \<not> can_implicit_cast t (p_type p) then False else args_castable ts ps)"
| "args_castable ts ps = True"

definition arg_types_str :: "sized_type list \<Rightarrow> string" where
  "arg_types_str ts = ''('' @ concat (map (\<lambda>(i, t). (if i = 0 then [] else '', '') @ typestr t)
     (enumerate 0 ts)) @ '')''"

definition param_types_str :: "param list \<Rightarrow> string" where
  "param_types_str ps = arg_types_str (map p_type ps)"

text \<open>\<open>NoCandidate\<close> is the null dereference the code would reach for a name with no function.\<close>

datatype call_error =
    FunctionNotFound string
  | CannotCall string string string string
  | NoCandidate

definition registry_get ::
  "registry \<Rightarrow> string \<Rightarrow> string \<Rightarrow> sized_type list \<Rightarrow> call_error + fun_decl" where
  "registry_get reg ns name arg_types =
     (case by_name reg \<lparr>fq_ns = ns, fq_id = name\<rparr> of
        None \<Rightarrow> Inl (FunctionNotFound name)
      | Some fs \<Rightarrow>
          (case pick_candidate fs None of
             None \<Rightarrow> Inl NoCandidate
           | Some c \<Rightarrow>
               if length (fn_params c) = length arg_types \<and> args_castable arg_types (fn_params c) then Inr c
               else Inl (CannotCall name (arg_types_str arg_types) (fn_name c) (param_types_str (fn_params c)))))"

section \<open>Reachable registries\<close>

inductive reachable_registry :: "registry \<Rightarrow> bool" where
  reg_empty: "reachable_registry empty_registry"
| reg_add: "reachable_registry reg \<Longrightarrow> registry_add orig ns name ret ps reg = (r, reg') \<Longrightarrow> reachable_registry reg'"

text \<open>
  The class invariant: under every name there is at least one function, all but the last are
  builtins, and every function is owned by the registry and stored under its own name.
\<close>

definition registry_inv :: "registry \<Rightarrow> bool" where
  "registry_inv reg \<longleftrightarrow> (\<forall>q fs. by_name reg q = Some fs \<longrightarrow>
     fs \<noteq> [] \<and> (\<forall>f \<in> set (butlast fs). fn_origin f = Builtin) \<and>
     (\<forall>f \<in> set fs. f \<in> set (all_funcs reg) \<and> fn_name f = fq_id q))"

lemma registry_inv_empty: "registry_inv empty_registry"
  by (simp add: registry_inv_def empty_registry_def)

lemma registry_add_inv:
  assumes "registry_inv reg" "registry_add orig ns name ret ps reg = (r, reg')"
  shows "registry_inv reg'"
proof (cases "list_ex (\<lambda>f. fn_origin f \<noteq> Builtin) (candidates reg \<lparr>fq_ns = ns, fq_id = name\<rparr>)")
  case True
  with assms show ?thesis by (simp add: registry_add_def)
next
  case False
  let ?q = "\<lparr>fq_ns = ns, fq_id = name\<rparr>"
  let ?f = "\<lparr>fn_name = name, fn_return = ret, fn_params = ps, fn_origin = orig\<rparr>"
  have reg': "reg' = reg\<lparr>by_name := (by_name reg)(?q \<mapsto> candidates reg ?q @ [?f]), all_funcs := all_funcs reg @ [?f]\<rparr>"
    using False assms(2) by (simp add: registry_add_def Let_def)
  have "\<forall>f \<in> set (candidates reg ?q). f \<in> set (all_funcs reg) \<and> fn_name f = name \<and> fn_origin f = Builtin"
  proof (cases "by_name reg ?q")
    case None
    then show ?thesis by (simp add: candidates_def)
  next
    case (Some fs)
    then have c: "candidates reg ?q = fs" by (simp add: candidates_def)
    from assms(1) Some have "\<forall>f \<in> set fs. f \<in> set (all_funcs reg) \<and> fn_name f = name"
      unfolding registry_inv_def by fastforce
    with False show ?thesis unfolding c by (auto simp: list_ex_iff)
  qed
  with assms(1) show ?thesis unfolding reg' registry_inv_def by auto
qed

lemma reachable_registry_inv: "reachable_registry reg \<Longrightarrow> registry_inv reg"
  by (induction rule: reachable_registry.induct) (auto intro: registry_inv_empty registry_add_inv)

lemma pick_candidate_last:
  "fs \<noteq> [] \<Longrightarrow> \<forall>f \<in> set (butlast fs). fn_origin f = Builtin \<Longrightarrow> pick_candidate fs c = Some (last fs)"
  by (induction fs c rule: pick_candidate.induct) (auto split: if_splits)

section \<open>Casting arguments\<close>

lemma fits_into_string: "fits_into t u \<Longrightarrow> ty u = Ty_string \<longleftrightarrow> ty t = Ty_string"
  by (cases t; cases u) (auto split: if_splits)

lemma can_implicit_cast_narrow: "fits_into t u \<Longrightarrow> can_implicit_cast u v \<Longrightarrow> can_implicit_cast t v"
  using type_fits.fits_trans [of t u v] fits_into_string [of t u]
  by (auto simp: can_implicit_cast_def split: if_splits)

lemma args_castable_iff:
  "length ts = length ps \<Longrightarrow> args_castable ts ps \<longleftrightarrow> list_all2 can_implicit_cast ts (map p_type ps)"
  by (induction ts ps rule: args_castable.induct) auto

section \<open>Properties\<close>

text \<open>C21: in every registry that adding can build, a call resolves to the function added last under
  its name; that function is the non-builtin one where there is one, its arity is that of the call,
  and every argument can be cast to its parameter.\<close>

theorem registry_get_resolves:
  assumes "reachable_registry reg" "registry_get reg ns name arg_types = Inr f"
  shows "f = last (candidates reg \<lparr>fq_ns = ns, fq_id = name\<rparr>)
    \<and> (\<forall>g \<in> set (candidates reg \<lparr>fq_ns = ns, fq_id = name\<rparr>). fn_origin g \<noteq> Builtin \<longrightarrow> g = f)
    \<and> fn_name f = name \<and> list_all2 can_implicit_cast arg_types (map p_type (fn_params f))"
proof -
  let ?q = "\<lparr>fq_ns = ns, fq_id = name\<rparr>"
  from assms(2) obtain fs where fs: "by_name reg ?q = Some fs" and p: "pick_candidate fs None = Some f"
    and args: "length (fn_params f) = length arg_types" "args_castable arg_types (fn_params f)"
    by (auto simp: registry_get_def split: option.splits if_splits)
  from reachable_registry_inv [OF assms(1)] fs
  have inv: "fs \<noteq> []" "\<forall>g \<in> set (butlast fs). fn_origin g = Builtin" "\<forall>g \<in> set fs. fn_name g = name"
    by (auto simp: registry_inv_def)
  from pick_candidate_last [OF inv(1,2)] p have f: "f = last fs" by simp
  have "g = f" if "g \<in> set fs" "fn_origin g \<noteq> Builtin" for g
    using inv(1,2) that f by (metis append_butlast_last_id in_set_conv_decomp insertE list.set_intros(1)
        rotate1.simps(2) set_ConsD set_rotate1)
  with f fs inv args show ?thesis by (auto simp: candidates_def args_castable_iff)
qed

text \<open>a script or external function can be added once per name; a second attempt, of whatever
  origin, returns null and changes nothing, and after a successful one a call with castable
  arguments resolves to the new function.\<close>

theorem registry_add_get:
  assumes "reachable_registry reg" "registry_add orig ns name ret ps reg = (Some f, reg')"
    and "length ts = length ps" "list_all2 can_implicit_cast ts (map p_type ps)"
  shows "registry_get reg' ns name ts = Inr f
    \<and> (orig \<noteq> Builtin \<longrightarrow> registry_add orig' ns name ret' ps' reg' = (None, reg'))"
proof -
  let ?q = "\<lparr>fq_ns = ns, fq_id = name\<rparr>"
  from assms(2) have f: "f = \<lparr>fn_name = name, fn_return = ret, fn_params = ps, fn_origin = orig\<rparr>"
    and bn: "by_name reg' ?q = Some (candidates reg ?q @ [f])"
    by (auto simp: registry_add_def Let_def split: if_splits)
  from assms(1,2) have "registry_inv reg'" by (metis reachable_registry_inv registry_add_inv)
  with bn have "pick_candidate (candidates reg ?q @ [f]) None = Some f"
    by (subst pick_candidate_last) (auto simp: registry_inv_def)
  with bn f assms(3,4) show ?thesis
    by (auto simp: registry_get_def args_castable_iff registry_add_def candidates_def)
qed

text \<open>narrowing arguments never breaks a call: if a call resolves, the same call with arguments
  whose types fit into the original ones resolves to the same function.\<close>

theorem registry_get_narrow:
  assumes "registry_get reg ns name us = Inr f" "list_all2 fits_into ts us"
  shows "registry_get reg ns name ts = Inr f"
proof -
  from assms(1) obtain fs where fs: "by_name reg \<lparr>fq_ns = ns, fq_id = name\<rparr> = Some fs" "pick_candidate fs None = Some f"
    and len: "length (fn_params f) = length us" and args: "args_castable us (fn_params f)"
    by (auto simp: registry_get_def split: option.splits if_splits)
  from len assms(2) have len': "length (fn_params f) = length ts" by (simp add: list_all2_lengthD)
  from args len have "list_all2 can_implicit_cast us (map p_type (fn_params f))"
    by (simp add: args_castable_iff)
  with assms(2) have "list_all2 can_implicit_cast ts (map p_type (fn_params f))"
    using list_all2_trans [of fits_into can_implicit_cast can_implicit_cast ts us] can_implicit_cast_narrow
    by blast
  with len' fs show ?thesis by (simp add: registry_get_def args_castable_iff)
qed

definition demo_params :: "param list" where
  "demo_params = [\<lparr>p_name = ''x'', p_type = int_type 64 True\<rparr>]"

definition demo_fun :: fun_decl where
  "demo_fun = \<lparr>fn_name = ''f'', fn_return = create_void, fn_params = demo_params, fn_origin = Script\<rparr>"

definition demo_registry :: registry where
  "demo_registry = snd (registry_add Script [] ''f'' create_void demo_params empty_registry)"

lemma demo_registry_add:
  "registry_add Script [] ''f'' create_void demo_params empty_registry = (Some demo_fun, demo_registry)"
  by (simp add: demo_registry_def registry_add_def empty_registry_def candidates_def demo_fun_def Let_def)

lemma demo_reachable: "reachable_registry demo_registry"
  by (rule reg_add [OF reg_empty demo_registry_add])

lemma demo_get: "registry_get demo_registry [] ''f'' [int_type 64 True] = Inr demo_fun"
  using demo_registry_add type_fits.fits_refl [of "int_type 64 True"]
  by (simp add: registry_get_def registry_add_def empty_registry_def candidates_def demo_registry_def
      demo_fun_def demo_params_def can_implicit_cast_def Let_def)

theorem registry_get_resolves_witness:
  "demo_fun = last (candidates demo_registry \<lparr>fq_ns = [], fq_id = ''f''\<rparr>)"
  using registry_get_resolves [OF demo_reachable demo_get] by blast

theorem registry_add_get_witness:
  "registry_get demo_registry [] ''f'' [int_type 64 True] = Inr demo_fun"
proof -
  have "length [int_type 64 True] = length demo_params"
    "list_all2 can_implicit_cast [int_type 64 True] (map p_type demo_params)"
    using type_fits.fits_refl [of "int_type 64 True"] by (simp_all add: demo_params_def can_implicit_cast_def)
  from registry_add_get [OF reg_empty demo_registry_add this] show ?thesis by blast
qed

theorem registry_get_narrow_witness:
  "registry_get demo_registry [] ''f'' [int_type 32 False] = Inr demo_fun"
  by (rule registry_get_narrow [OF demo_get]) (simp add: int_type_def)

end
