(* ===== verification/Config.thy ===== *)
theory Config
  imports Int_Parser Str_Util Sized_Types "HOL-Library.AList"
begin

text \<open>
  Configuration variables, \<open>src/config.h\<close>, \<open>src/config.cpp\<close> and the \<open>StackMode\<close> parser of
  \<open>src/types.h\<close>: the record of all options, the parser of each type of option, the table from keys to
  fields, setting an option from the script or from the environment.
\<close>

section \<open>Options\<close>

datatype missing_probes = Missing_ignore | Missing_warn | Missing_error

datatype unstable = Unstable_enable | Unstable_warn | Unstable_error

datatype license = GPL | GPL_V2 | GPL_AR | DUAL_BSD_GPL | DUAL_MIT_GPL | DUAL_MPL_GPL

datatype user_symbol_cache_type = Per_pid | Per_program | Cache_none

record config =
  cpp_demangle :: bool
  lazy_symbolication :: bool
  print_maps_on_exit :: bool
  unstable_macro :: unstable
  unstable_map_decl :: unstable
  unstable_import :: unstable
  unstable_tseries :: unstable
  unstable_addr :: unstable
  unstable_typeinfo :: unstable
  use_blazesym :: bool
  show_debug_info :: bool
  log_size :: u64
  max_bpf_progs :: u64
  max_cat_bytes :: u64
  max_map_keys :: u64
  max_probes :: u64
  max_strlen :: u64
  on_stack_limit :: u64
  perf_rb_pages :: u64
  bpf_license :: license
  str_trunc_trailer :: string
  missing :: missing_probes
  stack_mode_cfg :: stack_mode
  cache_type :: user_symbol_cache_type

text \<open>
  The constructor. Whether the build has blazesym and whether the kernel randomises addresses, which
  \<open>is_aslr_enabled\<close> reads from \<open>/proc\<close>, are arguments.
\<close>

definition new_config :: "bool \<Rightarrow> bool \<Rightarrow> bool \<Rightarrow> config" where
  "new_config blazesym aslr has_cmd =
     \<lparr>cpp_demangle = True, lazy_symbolication = True, print_maps_on_exit = True,
      unstable_macro = Unstable_warn, unstable_map_decl = Unstable_warn, unstable_import = Unstable_warn,
      unstable_tseries = Unstable_warn, unstable_addr = Unstable_warn, unstable_typeinfo = Unstable_error,
      use_blazesym = blazesym, show_debug_info = blazesym,
      log_size = 1000000, max_bpf_progs = 1024, max_cat_bytes = 10240, max_map_keys = 4096,
      max_probes = 1024, max_strlen = 1024, on_stack_limit = 32, perf_rb_pages = 0,
      bpf_license = GPL, str_trunc_trailer = ''..'', missing = Missing_error,
      stack_mode_cfg = Mode_bpftrace,
      cache_type = (if has_cmd \<or> \<not> aslr then Per_program else Per_pid)\<rparr>"

datatype config_error =
    ParseError string string
  | RenameError string
  | LicenseError string

section \<open>The parsers\<close>

text \<open>
  \<open>ConfigParser<T>::parse\<close> has two overloads, for strings and for integers. Each writes through a
  pointer to the field; here it takes the field's present value and returns the new one, and an error
  leaves the field as it is.
\<close>

definition parse_u64_str :: "string \<Rightarrow> string \<Rightarrow> u64 \<Rightarrow> config_error + u64" where
  "parse_u64_str key s target =
     (case to_uint s 0 of
        Inl _ \<Rightarrow> Inl (ParseError key (''expecting a number, got '' @ s))
      | Inr n \<Rightarrow> Inr (word_of_nat n))"

definition parse_u64_int :: "string \<Rightarrow> u64 \<Rightarrow> u64 \<Rightarrow> config_error + u64" where
  "parse_u64_int key v target = Inr v"

definition parse_bool_str :: "string \<Rightarrow> string \<Rightarrow> bool \<Rightarrow> config_error + bool" where
  "parse_bool_str key original target =
     (if is_str_bool_truthy original then Inr True
      else if is_str_bool_falsy original then Inr False
      else Inl (ParseError key ''Invalid bool value: valid values are true, false, 1 or 0.''))"

definition parse_bool_int :: "string \<Rightarrow> u64 \<Rightarrow> bool \<Rightarrow> config_error + bool" where
  "parse_bool_int key v target = (if v \<noteq> 0 then Inr True else Inr False)"

definition parse_string_str :: "string \<Rightarrow> string \<Rightarrow> string \<Rightarrow> config_error + string" where
  "parse_string_str key s target = Inr s"

definition parse_string_int :: "string \<Rightarrow> u64 \<Rightarrow> string \<Rightarrow> config_error + string" where
  "parse_string_int key v target = Inr (show_nat (unat v))"

definition parse_cache_str ::
  "string \<Rightarrow> string \<Rightarrow> user_symbol_cache_type \<Rightarrow> config_error + user_symbol_cache_type" where
  "parse_cache_str key original target =
     (let s = to_lower original
      in if s = ''1'' then Inr target
         else if s = ''per_pid'' then Inr Per_pid
         else if s = ''per_program'' then Inr Per_program
         else if s = ''none'' \<or> s = ''0'' then Inr Cache_none
         else Inl (ParseError key
           (''Invalid value for cache_user_symbols: valid values are PER_PID, '' @ ''PER_PROGRAM, and NONE.'')))"

definition parse_cache_int ::
  "string \<Rightarrow> u64 \<Rightarrow> user_symbol_cache_type \<Rightarrow> config_error + user_symbol_cache_type" where
  "parse_cache_int key v target = (if v = 0 then Inr Cache_none else Inr target)"

definition missing_probes_error :: "string \<Rightarrow> config_error" where
  "missing_probes_error key = ParseError key
     (''Invalid value for missing_probes: valid '' @ ''values are ignore, warn, and error.'')"

definition parse_missing_str :: "string \<Rightarrow> string \<Rightarrow> missing_probes \<Rightarrow> config_error + missing_probes" where
  "parse_missing_str key original target =
     (let s = to_lower original
      in if s = ''ignore'' then Inr Missing_ignore
         else if s = ''warn'' then Inr Missing_warn
         else if s = ''error'' then Inr Missing_error
         else Inl (missing_probes_error key))"

definition parse_missing_int :: "string \<Rightarrow> u64 \<Rightarrow> missing_probes \<Rightarrow> config_error + missing_probes" where
  "parse_missing_int key v target = Inl (missing_probes_error key)"

definition bpf_license_str :: "(string \<times> license) list" where
  "bpf_license_str =
     [(''GPL'', GPL), (''GPL v2'', GPL_V2), (''GPL and additional rights'', GPL_AR),
      (''Dual BSD/GPL'', DUAL_BSD_GPL), (''Dual MIT/GPL'', DUAL_MIT_GPL), (''Dual MPL/GPL'', DUAL_MPL_GPL)]"

definition parse_license_str :: "string \<Rightarrow> string \<Rightarrow> license \<Rightarrow> config_error + license" where
  "parse_license_str key original target =
     (case map_of bpf_license_str original of None \<Rightarrow> Inl (LicenseError original) | Some l \<Rightarrow> Inr l)"

definition parse_license_int :: "string \<Rightarrow> u64 \<Rightarrow> license \<Rightarrow> config_error + license" where
  "parse_license_int key v target = Inl (LicenseError (show_nat (unat v)))"

definition parse_unstable_str :: "string \<Rightarrow> string \<Rightarrow> unstable \<Rightarrow> config_error + unstable" where
  "parse_unstable_str key original target =
     (let s = to_lower original
      in if s = ''enable'' \<or> is_str_bool_truthy original then Inr Unstable_enable
         else if s = ''warn'' then Inr Unstable_warn
         else if s = ''error'' \<or> is_str_bool_falsy original then Inr Unstable_error
         else Inl (ParseError key
           (''Invalid value for unstable config: valid '' @ ''values are enable, warn, and error.'')))"

definition parse_unstable_int :: "string \<Rightarrow> u64 \<Rightarrow> unstable \<Rightarrow> config_error + unstable" where
  "parse_unstable_int key v target = (if v \<noteq> 0 then Inr Unstable_enable else Inr Unstable_error)"

definition stack_mode_name_map :: "(stack_mode \<times> string) list" where
  "stack_mode_name_map = [(Mode_bpftrace, ''bpftrace''), (Mode_perf, ''perf''), (Mode_raw, ''raw'')]"

definition stack_mode_error :: "string \<Rightarrow> config_error" where
  "stack_mode_error key = ParseError key
     (''Invalid value for stack_mode: valid '' @ ''values are bpftrace, raw and perf.'')"

definition parse_stack_mode_str :: "string \<Rightarrow> string \<Rightarrow> stack_mode \<Rightarrow> config_error + stack_mode" where
  "parse_stack_mode_str key s target =
     (case List.find (\<lambda>(mode, name). s = name) stack_mode_name_map of
        None \<Rightarrow> Inl (stack_mode_error key)
      | Some (mode, _) \<Rightarrow> Inr mode)"

definition parse_stack_mode_int :: "string \<Rightarrow> u64 \<Rightarrow> stack_mode \<Rightarrow> config_error + stack_mode" where
  "parse_stack_mode_int key v target = Inl (stack_mode_error key)"

section \<open>The table of keys\<close>

record any_parser =
  p_integer :: "string \<Rightarrow> u64 \<Rightarrow> config \<Rightarrow> config_error + config"
  p_string :: "string \<Rightarrow> string \<Rightarrow> config \<Rightarrow> config_error + config"

text \<open>\<open>parser\<close> lifts the two overloads for a type to the field of the record that holds it.\<close>

definition on_field ::
  "(config \<Rightarrow> 'a) \<Rightarrow> (('a \<Rightarrow> 'a) \<Rightarrow> config \<Rightarrow> config) \<Rightarrow> ('a \<Rightarrow> config_error + 'a) \<Rightarrow> config \<Rightarrow> config_error + config" where
  "on_field get upd p c = result_bind (p (get c)) (\<lambda>x. Inr (upd (\<lambda>_. x) c))"

definition parser ::
  "(string \<Rightarrow> u64 \<Rightarrow> 'a \<Rightarrow> config_error + 'a) \<Rightarrow> (string \<Rightarrow> string \<Rightarrow> 'a \<Rightarrow> config_error + 'a) \<Rightarrow>
   (config \<Rightarrow> 'a) \<Rightarrow> (('a \<Rightarrow> 'a) \<Rightarrow> config \<Rightarrow> config) \<Rightarrow> any_parser" where
  "parser p_int p_str get upd =
     \<lparr>p_integer = (\<lambda>k v. on_field get upd (p_int k v)), p_string = (\<lambda>k s. on_field get upd (p_str k s))\<rparr>"

abbreviation (input) "bool_parser \<equiv> parser parse_bool_int parse_bool_str"
abbreviation (input) "u64_parser \<equiv> parser parse_u64_int parse_u64_str"
abbreviation (input) "unstable_parser \<equiv> parser parse_unstable_int parse_unstable_str"

text \<open>A \<open>std::map\<close> is ordered by key, and \<open>load_environment\<close> visits it in that order.\<close>

definition config_key_map :: "(string \<times> any_parser) list" where
  "config_key_map =
     [(''cache_user_symbols'', parser parse_cache_int parse_cache_str cache_type cache_type_update),
      (''cpp_demangle'', bool_parser cpp_demangle cpp_demangle_update),
      (''lazy_symbolication'', bool_parser lazy_symbolication lazy_symbolication_update),
      (''license'', parser parse_license_int parse_license_str bpf_license bpf_license_update),
      (''log_size'', u64_parser log_size log_size_update),
      (''max_bpf_progs'', u64_parser max_bpf_progs max_bpf_progs_update),
      (''max_cat_bytes'', u64_parser max_cat_bytes max_cat_bytes_update),
      (''max_map_keys'', u64_parser max_map_keys max_map_keys_update),
      (''max_probes'', u64_parser max_probes max_probes_update),
      (''max_strlen'', u64_parser max_strlen max_strlen_update),
      (''missing_probes'', parser parse_missing_int parse_missing_str missing missing_update),
      (''on_stack_limit'', u64_parser on_stack_limit on_stack_limit_update),
      (''perf_rb_pages'', u64_parser perf_rb_pages perf_rb_pages_update),
      (''print_maps_on_exit'', bool_parser print_maps_on_exit print_maps_on_exit_update),
      (''show_debug_info'', bool_parser show_debug_info show_debug_info_update),
      (''stack_mode'', parser parse_stack_mode_int parse_stack_mode_str stack_mode_cfg stack_mode_cfg_update),
      (''str_trunc_trailer'', parser parse_string_int parse_string_str str_trunc_trailer str_trunc_trailer_update),
      (''unstable_addr'', unstable_parser unstable_addr unstable_addr_update),
      (''unstable_import'', unstable_parser unstable_import unstable_import_update),
      (''unstable_macro'', unstable_parser unstable_macro unstable_macro_update),
      (''unstable_map_decl'', unstable_parser unstable_map_decl unstable_map_decl_update),
      (''unstable_tseries'', unstable_parser unstable_tseries unstable_tseries_update),
      (''unstable_typeinfo'', unstable_parser unstable_typeinfo unstable_typeinfo_update),
      (''use_blazesym'', bool_parser use_blazesym use_blazesym_update)]"

definition deprecated :: "(string \<times> string) list" where
  "deprecated =
     [(''strlen'', ''max_strlen''), (''no_cpp_demangle'', ''cpp_demangle''),
      (''cat_bytes_max'', ''max_cat_bytes''), (''map_keys_max'', ''max_map_keys'')]"

definition env_only :: "string list" where
  "env_only = [''btf'', ''debug_output'', ''kernel_build'', ''kernel_source'', ''vmlinux'']"

definition env_prefix :: string where
  "env_prefix = ''bpftrace_''"

definition starts_with :: "string \<Rightarrow> string \<Rightarrow> bool" where
  "starts_with s p \<longleftrightarrow> take (length p) s = p"

definition restore :: "string \<Rightarrow> string" where
  "restore original_key =
     (let key = to_lower original_key
      in if starts_with key env_prefix then drop (length env_prefix) key else key)"

definition config_lookup :: "string \<Rightarrow> config_error + any_parser" where
  "config_lookup original_key =
     (let key = restore original_key
      in case map_of config_key_map key of
           Some p \<Rightarrow> Inr p
         | None \<Rightarrow>
             (case map_of deprecated key of
                Some d \<Rightarrow> Inl (RenameError d)
              | None \<Rightarrow>
                  if List.member env_only key
                  then Inl (ParseError original_key ''can only be set as an environment variable'')
                  else Inl (ParseError original_key ''not a known configuration option'')))"

definition config_set :: "string \<Rightarrow> string \<Rightarrow> config \<Rightarrow> config_error + config" where
  "config_set original_key val c =
     (case config_lookup original_key of Inl e \<Rightarrow> Inl e | Inr p \<Rightarrow> p_string p original_key val c)"

definition config_set_int :: "string \<Rightarrow> u64 \<Rightarrow> config \<Rightarrow> config_error + config" where
  "config_set_int original_key val c =
     (case config_lookup original_key of Inl e \<Rightarrow> Inl e | Inr p \<Rightarrow> p_integer p original_key val c)"

definition is_unstable :: "string \<Rightarrow> bool" where
  "is_unstable original_key = starts_with (restore original_key) ''unstable_''"

definition env_name :: "string \<Rightarrow> string" where
  "env_name key = to_upper (env_prefix @ key)"

text \<open>
  The environment is an argument, \<open>getenv\<close>. The first error stops the loop; what was set before it
  stays set.
\<close>

fun load_keys :: "(string \<rightharpoonup> string) \<Rightarrow> string list \<Rightarrow> config \<Rightarrow> config \<times> config_error option" where
  "load_keys getenv [] c = (c, None)"
| "load_keys getenv (key # keys) c =
     (case getenv (env_name key) of
        None \<Rightarrow> load_keys getenv keys c
      | Some cenv \<Rightarrow>
          (case config_set key cenv c of
             Inl e \<Rightarrow> (c, Some e)
           | Inr c' \<Rightarrow> load_keys getenv keys c'))"

definition load_environment :: "(string \<rightharpoonup> string) \<Rightarrow> config \<Rightarrow> config \<times> config_error option" where
  "load_environment getenv c = load_keys getenv (map fst config_key_map) c"

definition get_license_str :: "license \<Rightarrow> string" where
  "get_license_str l =
     (case List.find (\<lambda>(k, v). v = l) bpf_license_str of None \<Rightarrow> [] | Some (k, _) \<Rightarrow> k)"

section \<open>The options as a table of values\<close>

text \<open>
  What a configuration says, key by key, in the order of the table, and the printed form of a value
  that a script or an environment variable would carry.
\<close>

datatype config_value =
    V_bool bool
  | V_u64 u64
  | V_string string
  | V_unstable unstable
  | V_missing missing_probes
  | V_license license
  | V_mode stack_mode
  | V_cache user_symbol_cache_type

definition config_values :: "config \<Rightarrow> (string \<times> config_value) list" where
  "config_values c =
     [(''cache_user_symbols'', V_cache (cache_type c)), (''cpp_demangle'', V_bool (cpp_demangle c)),
      (''lazy_symbolication'', V_bool (lazy_symbolication c)), (''license'', V_license (bpf_license c)),
      (''log_size'', V_u64 (log_size c)), (''max_bpf_progs'', V_u64 (max_bpf_progs c)),
      (''max_cat_bytes'', V_u64 (max_cat_bytes c)), (''max_map_keys'', V_u64 (max_map_keys c)),
      (''max_probes'', V_u64 (max_probes c)), (''max_strlen'', V_u64 (max_strlen c)),
      (''missing_probes'', V_missing (missing c)), (''on_stack_limit'', V_u64 (on_stack_limit c)),
      (''perf_rb_pages'', V_u64 (perf_rb_pages c)), (''print_maps_on_exit'', V_bool (print_maps_on_exit c)),
      (''show_debug_info'', V_bool (show_debug_info c)), (''stack_mode'', V_mode (stack_mode_cfg c)),
      (''str_trunc_trailer'', V_string (str_trunc_trailer c)), (''unstable_addr'', V_unstable (unstable_addr c)),
      (''unstable_import'', V_unstable (unstable_import c)), (''unstable_macro'', V_unstable (unstable_macro c)),
      (''unstable_map_decl'', V_unstable (unstable_map_decl c)),
      (''unstable_tseries'', V_unstable (unstable_tseries c)),
      (''unstable_typeinfo'', V_unstable (unstable_typeinfo c)), (''use_blazesym'', V_bool (use_blazesym c))]"

fun print_value :: "config_value \<Rightarrow> string" where
  "print_value (V_bool b) = (if b then ''true'' else ''false'')"
| "print_value (V_u64 n) = show_nat (unat n)"
| "print_value (V_string s) = s"
| "print_value (V_unstable u) =
     (case u of Unstable_enable \<Rightarrow> ''enable'' | Unstable_warn \<Rightarrow> ''warn'' | Unstable_error \<Rightarrow> ''error'')"
| "print_value (V_missing m) =
     (case m of Missing_ignore \<Rightarrow> ''ignore'' | Missing_warn \<Rightarrow> ''warn'' | Missing_error \<Rightarrow> ''error'')"
| "print_value (V_license l) = get_license_str l"
| "print_value (V_mode m) = (case m of Mode_bpftrace \<Rightarrow> ''bpftrace'' | Mode_perf \<Rightarrow> ''perf'' | Mode_raw \<Rightarrow> ''raw'')"
| "print_value (V_cache t) = (case t of Per_pid \<Rightarrow> ''per_pid'' | Per_program \<Rightarrow> ''per_program'' | Cache_none \<Rightarrow> ''none'')"

lemma config_values_keys [simp]: "map fst (config_values c) = map fst config_key_map"
  by (simp add: config_values_def config_key_map_def)

lemma config_values_inject: "config_values c = config_values d \<Longrightarrow> c = d"
  by (rule config.equality) (simp_all add: config_values_def)

text \<open>
  The contract of an option type: whatever the field holds, parsing the printed form of a value writes
  that value.
\<close>

definition field_spec :: "string \<Rightarrow> any_parser \<Rightarrow> bool" where
  "field_spec key p \<longleftrightarrow>
     (\<forall>k s c c'. p_string p k s c = Inr c' \<longrightarrow> (\<exists>v. config_values c' = AList.update key v (config_values c))) \<and>
     (\<forall>k n c c'. p_integer p k n c = Inr c' \<longrightarrow> (\<exists>v. config_values c' = AList.update key v (config_values c))) \<and>
     (\<forall>k v c d. map_of (config_values d) key = Some v \<longrightarrow>
        (\<exists>c'. p_string p k (print_value v) c = Inr c' \<and> config_values c' = AList.update key v (config_values c)))"

locale option_type =
  fixes p_int :: "string \<Rightarrow> u64 \<Rightarrow> 'a \<Rightarrow> config_error + 'a"
    and p_str :: "string \<Rightarrow> string \<Rightarrow> 'a \<Rightarrow> config_error + 'a"
    and mk :: "'a \<Rightarrow> config_value"
  assumes parse_print: "p_str k (print_value (mk x)) y = Inr x"
begin

lemma spec_of_field:
  assumes upd: "\<And>x c. config_values (upd (\<lambda>_. x) c) = AList.update key (mk x) (config_values c)"
    and get: "\<And>d. map_of (config_values d) key = Some (mk (get d))"
  shows "field_spec key (parser p_int p_str get upd)"
proof -
  have bind: "\<exists>v. config_values c' = AList.update key v (config_values c)"
    if "on_field get upd p c = Inr c'" for p c c'
    using that by (cases "p (get c)") (auto simp: on_field_def upd)
  show ?thesis
    unfolding field_spec_def parser_def using bind
    by (auto simp: on_field_def get parse_print upd)
qed

end

lemmas lower_simps = to_lower_def char_lower_def is_upper_def char_code_def

interpretation bool_option: option_type parse_bool_int parse_bool_str V_bool
  by unfold_locales
    (simp add: parse_bool_str_def is_str_bool_truthy_def is_str_bool_falsy_def lower_simps)

interpretation u64_option: option_type parse_u64_int parse_u64_str V_u64
proof
  fix k :: string and x y :: u64
  have "unat x < 2 ^ LENGTH(64)" by (rule unsigned_less)
  then have "unat x \<le> u64_max" by simp
  then show "parse_u64_str k (print_value (V_u64 x)) y = Inr x"
    by (simp add: parse_u64_str_def uint_reader.read_print)
qed

interpretation string_option: option_type parse_string_int parse_string_str V_string
  by unfold_locales (simp add: parse_string_str_def)

interpretation cache_option: option_type parse_cache_int parse_cache_str V_cache
proof
  fix k :: string and x y
  show "parse_cache_str k (print_value (V_cache x)) y = Inr x"
    by (cases x) (simp_all add: parse_cache_str_def lower_simps)
qed

interpretation missing_option: option_type parse_missing_int parse_missing_str V_missing
proof
  fix k :: string and x y
  show "parse_missing_str k (print_value (V_missing x)) y = Inr x"
    by (cases x) (simp_all add: parse_missing_str_def lower_simps)
qed

interpretation license_option: option_type parse_license_int parse_license_str V_license
proof
  fix k :: string and x y
  show "parse_license_str k (print_value (V_license x)) y = Inr x"
    by (cases x) (simp_all add: parse_license_str_def get_license_str_def bpf_license_str_def)
qed

interpretation unstable_option: option_type parse_unstable_int parse_unstable_str V_unstable
proof
  fix k :: string and x y
  show "parse_unstable_str k (print_value (V_unstable x)) y = Inr x"
    by (cases x) (simp_all add: parse_unstable_str_def is_str_bool_truthy_def is_str_bool_falsy_def lower_simps)
qed

interpretation mode_option: option_type parse_stack_mode_int parse_stack_mode_str V_mode
proof
  fix k :: string and x y
  show "parse_stack_mode_str k (print_value (V_mode x)) y = Inr x"
    by (cases x) (simp_all add: parse_stack_mode_str_def stack_mode_name_map_def)
qed

lemmas field_specs =
  bool_option.spec_of_field u64_option.spec_of_field string_option.spec_of_field
  cache_option.spec_of_field missing_option.spec_of_field license_option.spec_of_field
  unstable_option.spec_of_field mode_option.spec_of_field

lemma config_key_map_spec: "list_all (\<lambda>(key, p). field_spec key p) config_key_map"
  unfolding config_key_map_def
  by (simp only: list.pred_inject prod.case simp_thms, intro conjI)
    (rule field_specs; simp add: config_values_def)+

lemma config_lookup_spec:
  assumes "config_lookup k = Inr p"
  shows "restore k \<in> set (map fst config_key_map) \<and> field_spec (restore k) p"
proof -
  from assms have "map_of config_key_map (restore k) = Some p"
    by (auto simp: config_lookup_def Let_def split: option.splits if_splits)
  then have "(restore k, p) \<in> set config_key_map" by (rule map_of_SomeD)
  with config_key_map_spec show ?thesis by (force simp: list_all_iff)
qed

lemma config_lookup_key: "restore k \<in> set (map fst config_key_map) \<Longrightarrow> \<exists>p. config_lookup k = Inr p"
  by (cases "map_of config_key_map (restore k)") (auto simp: config_lookup_def map_of_eq_None_iff)

section \<open>Keys and environment variables\<close>

lemma restore_plain:
  assumes "list_all (\<lambda>c. \<not> is_upper c) k" "\<not> starts_with k env_prefix"
  shows "restore k = k"
proof -
  from assms(1) have "to_lower k = k"
    unfolding to_lower_def by (intro map_idI) (simp add: char_lower_def list_all_iff)
  with assms(2) show ?thesis by (simp add: restore_def Let_def)
qed

lemma char_lower_upper: "\<not> is_upper c \<Longrightarrow> char_lower (char_upper c) = c"
proof (cases "is_lower c")
  case True
  then have "char_code c - 32 < 256" unfolding is_lower_def by linarith
  with True have "char_code (char_upper c) = char_code c - 32"
    by (simp only: char_upper_def if_True char_code_chr_of)
  moreover with True have "is_upper (char_upper c)" unfolding is_upper_def is_lower_def by linarith
  moreover from True have "32 \<le> char_code c" unfolding is_lower_def by linarith
  ultimately have "char_code (char_lower (char_upper c)) = char_code c"
    by (simp add: char_lower_def del: char_code_inject)
  then show ?thesis by simp
next
  case False
  moreover assume "\<not> is_upper c"
  ultimately show ?thesis by (simp add: char_lower_def char_upper_def)
qed

lemma restore_env_name:
  assumes "list_all (\<lambda>c. \<not> is_upper c) k"
  shows "restore (env_name k) = k"
proof -
  have "list_all (\<lambda>c. \<not> is_upper c) (env_prefix @ k)"
    using assms by (simp add: env_prefix_def is_upper_def char_code_def)
  then have "to_lower (env_name k) = env_prefix @ k"
    unfolding env_name_def to_lower_def to_upper_def map_map
    by (intro map_idI) (simp add: list_all_iff char_lower_upper)
  then show ?thesis by (simp add: restore_def Let_def starts_with_def)
qed

lemma config_keys_plain:
  "list_all (\<lambda>k. list_all (\<lambda>c. \<not> is_upper c) k \<and> \<not> starts_with k env_prefix) (map fst config_key_map)"
  by (simp add: config_key_map_def is_upper_def char_code_def starts_with_def env_prefix_def)

lemma restore_key:
  assumes "k \<in> set (map fst config_key_map)"
  shows "restore k = k" "restore (env_name k) = k"
  using assms config_keys_plain by (auto simp: list_all_iff intro: restore_plain restore_env_name)

lemma config_keys_distinct: "distinct (map fst config_key_map)"
  by (simp add: config_key_map_def)

lemma config_values_key: "map_of (config_values d) k = Some v \<Longrightarrow> k \<in> set (map fst config_key_map)"
  by (metis config_values_keys domI dom_map_of_conv_image_fst list.set_map)

lemma config_set_export:
  assumes "map_of (config_values d) k = Some v" "restore j = k"
  shows "\<exists>c'. config_set j (print_value v) c = Inr c' \<and> config_values c' = AList.update k v (config_values c)"
proof -
  from config_lookup_key [of j] config_values_key [OF assms(1)] assms(2) obtain p where p: "config_lookup j = Inr p" by auto
  from config_lookup_spec [OF p] assms
  have "\<exists>c'. p_string p j (print_value v) c = Inr c' \<and> config_values c' = AList.update k v (config_values c)"
    unfolding field_spec_def by blast
  with p show ?thesis by (simp add: config_set_def)
qed

section \<open>Properties\<close>

text \<open>a successful \<open>set\<close>, with a string or with an integer, names a key of the table and changes
  the option of that key only.\<close>

theorem config_set_frame:
  assumes "config_set key s c = Inr c' \<or> config_set_int key n c = Inr c'"
  shows "restore key \<in> set (map fst config_key_map)
    \<and> (\<exists>v. config_values c' = AList.update (restore key) v (config_values c))"
proof -
  from assms obtain p where "config_lookup key = Inr p"
    and "p_string p key s c = Inr c' \<or> p_integer p key n c = Inr c'"
    by (auto simp: config_set_def config_set_int_def split: sum.splits)
  with config_lookup_spec [of key p] show ?thesis unfolding field_spec_def by blast
qed

text \<open>every option can be set to every value it can hold, by its key or by its environment name:
  setting it to the printed form of its value in another configuration copies that value and nothing
  else.\<close>

theorem config_set_print:
  assumes "map_of (config_values d) key = Some v"
  shows "\<exists>c'. config_set key (print_value v) c = Inr c' \<and> config_set (env_name key) (print_value v) c = Inr c'
    \<and> config_values c' = AList.update key v (config_values c)"
proof -
  from config_values_key [OF assms] have "restore key = key" "restore (env_name key) = key" by (rule restore_key)+
  with config_set_export [OF assms, of key c] config_set_export [OF assms, of "env_name key" c] show ?thesis
    by (metis config_values_inject)
qed

text \<open>renamed options are reported, never set: a key that \<open>set\<close> reports as renamed is no option,
  the new name is one, and \<open>set\<close> finds it.\<close>

theorem config_set_renamed:
  assumes "map_of deprecated (restore key) = Some new"
  shows "config_set key s c = Inl (RenameError new) \<and> config_set_int key n c = Inl (RenameError new)
    \<and> new \<in> set (map fst config_key_map) \<and> (\<exists>p. config_lookup new = Inr p)"
proof -
  have key: "map_of config_key_map (restore key) = None \<and> new \<in> set (map fst config_key_map)"
    using assms by (auto simp: deprecated_def config_key_map_def split: if_splits)
  then have "restore new = new" using restore_key by blast
  with key have "\<exists>p. config_lookup new = Inr p" using config_lookup_key [of new] by simp
  with key assms show ?thesis by (simp add: config_set_def config_set_int_def config_lookup_def Let_def)
qed

text \<open>The environment in which every option is exported with its value in a configuration.\<close>

definition export_env :: "config \<Rightarrow> string \<rightharpoonup> string" where
  "export_env d = map_of (map (\<lambda>(k, v). (env_name k, print_value v)) (config_values d))"

lemma export_env_key:
  assumes "map_of (config_values d) k = Some v"
  shows "export_env d (env_name k) = Some (print_value v)"
proof -
  have "inj_on env_name (set (map fst config_key_map))"
    by (rule inj_on_inverseI [of _ restore]) (rule restore_key(2))
  then have "distinct (map env_name (map fst (config_values d)))"
    using config_keys_distinct by (simp only: config_values_keys distinct_map)
  then have "distinct (map fst (map (\<lambda>(k, v). (env_name k, print_value v)) (config_values d)))"
    by (simp add: case_prod_beta comp_def del: config_values_keys)
  moreover from assms have "(env_name k, print_value v) \<in> set (map (\<lambda>(k, v). (env_name k, print_value v)) (config_values d))"
    by (force dest: map_of_SomeD)
  ultimately show ?thesis unfolding export_env_def by (rule map_of_is_SomeI)
qed

lemma alist_rebuild: "distinct (map fst xs) \<Longrightarrow> map (\<lambda>k. (k, the (map_of xs k))) (map fst xs) = xs"
proof (induction xs)
  case (Cons x xs)
  then have "k \<noteq> fst x" if "k \<in> set (map fst xs)" for k using that by fastforce
  then have "map (\<lambda>k. (k, the (map_of (x # xs) k))) (map fst xs) = map (\<lambda>k. (k, the (map_of xs k))) (map fst xs)"
    by (intro map_cong) simp_all
  with Cons show ?case by simp
qed simp

lemma config_values_lookup_inject:
  assumes "map_of (config_values c) = map_of (config_values d)"
  shows "c = d"
proof -
  have "config_values e = map (\<lambda>k. (k, the (map_of (config_values e) k))) (map fst config_key_map)" for e
    using alist_rebuild [of "config_values e"] config_keys_distinct by (simp del: map_map)
  from this [of c] this [of d] assms show ?thesis by (intro config_values_inject) simp
qed

lemma load_keys_export:
  assumes "set ks \<subseteq> set (map fst config_key_map)"
  shows "\<exists>c'. load_keys (export_env d) ks c = (c', None) \<and>
    map_of (config_values c') = (\<lambda>j. map_of (config_values (if j \<in> set ks then d else c)) j)"
  using assms
proof (induction ks arbitrary: c)
  case (Cons k ks)
  then obtain v where v: "map_of (config_values d) k = Some v"
    by (metis config_values_keys list.set_intros(1) list.set_map map_of_eq_None_iff option.exhaust subsetD)
  from Cons.prems have "restore k = k" by (intro restore_key) auto
  from config_set_export [OF v this] obtain c1 where c1: "config_set k (print_value v) c = Inr c1"
    "config_values c1 = AList.update k v (config_values c)" by blast
  from Cons obtain c2 where c2: "load_keys (export_env d) ks c1 = (c2, None)"
    "map_of (config_values c2) = (\<lambda>j. map_of (config_values (if j \<in> set ks then d else c1)) j)"
    by (meson list.set_intros(2) subset_iff)
  have "map_of (config_values c2) = (\<lambda>j. map_of (config_values (if j \<in> set (k # ks) then d else c)) j)"
    using v by (auto simp: c2(2) c1(2) update_conv fun_eq_iff)
  with c1(1) c2(1) export_env_key [OF v] show ?case by simp
qed simp

text \<open>loading the environment reproduces a configuration: with every option exported under its
  environment name, \<open>load_environment\<close> ends without an error in that configuration, whatever it
  started from.\<close>

theorem load_environment_export: "load_environment (export_env d) c = (d, None)"
proof -
  from load_keys_export [of "map fst config_key_map" d c] obtain c' where
    c': "load_environment (export_env d) c = (c', None)"
    and m: "map_of (config_values c') =
      (\<lambda>j. map_of (config_values (if j \<in> set (map fst config_key_map) then d else c)) j)"
    unfolding load_environment_def by blast
  have "map_of (config_values c) j = map_of (config_values d) j" if "j \<notin> set (map fst config_key_map)" for j
    using that by (metis config_values_keys list.set_map map_of_eq_None_iff)
  with m have "map_of (config_values c') = map_of (config_values d)" by (simp add: fun_eq_iff)
  with c' show ?thesis by (simp add: config_values_lookup_inject)
qed

section \<open>Witnesses\<close>

lemma demo_config_set:
  "config_set (env_name ''max_probes'') ''5'' (new_config True True False) =
   Inr ((new_config True True False)\<lparr>max_probes := 5\<rparr>)"
proof -
  have "show_nat 5 = ''5''" by (simp add: show_nat_def digits_rev.simps digit_char_def chr_of_def char_of_def bit_Suc_0_iff)
  then have "to_uint ''5'' 0 = Inr 5" using uint_reader.read_print [of 5] by simp
  moreover have "restore (env_name ''max_probes'') = ''max_probes''"
    using restore_key(2) [of "''max_probes''"] by (simp add: config_key_map_def)
  ultimately show ?thesis
    by (simp add: config_set_def config_lookup_def config_key_map_def parser_def on_field_def parse_u64_str_def)
qed

theorem config_set_frame_witness:
  "\<exists>v. config_values ((new_config True True False)\<lparr>max_probes := 5\<rparr>) =
    AList.update (restore (env_name ''max_probes'')) v (config_values (new_config True True False))"
  using config_set_frame [OF disjI1 [OF demo_config_set]] by blast

theorem config_set_print_witness:
  "\<exists>c'. config_set ''max_strlen'' (print_value (V_u64 1024)) (new_config False False True) = Inr c'"
  using config_set_print [of "new_config True True False" "''max_strlen''" "V_u64 1024" "new_config False False True"]
  by (auto simp: config_values_def new_config_def)

theorem config_set_renamed_witness:
  "config_set ''strlen'' ''64'' (new_config True True False) = Inl (RenameError ''max_strlen'')"
  using config_set_renamed [of "''strlen''" "''max_strlen''" "''64''" "new_config True True False"]
  by (simp add: deprecated_def restore_plain is_upper_def char_code_def starts_with_def env_prefix_def)

end
