(* ===== verification/Probe_Types.thy ===== *)
theory Probe_Types
  imports Str_Util Int_Parser Sized_Types
begin

text \<open>
  Probe types and attach points: the table of \<open>src/probe_types.h\<close> and its lookups in
  \<open>src/probe_types.cpp\<close>, \<open>progtype\<close> of \<open>src/attached_probe.cpp\<close>, the expansion of a wildcarded probe
  type in \<open>src/probe_matcher.cpp\<close>, and class \<open>AttachPoint\<close> of \<open>src/ast/ast.h\<close> and \<open>src/ast/ast.cpp\<close>.
\<close>

section \<open>The table of probe types\<close>

datatype probe_type =
    PT_invalid | PT_special | PT_test | PT_benchmark | PT_kprobe | PT_kretprobe | PT_uprobe | PT_uretprobe
  | PT_usdt | PT_tracepoint | PT_profile | PT_interval | PT_software | PT_hardware | PT_watchpoint
  | PT_asyncwatchpoint | PT_fentry | PT_fexit | PT_iter | PT_rawtracepoint

record probe_item =
  pi_name :: string
  pi_aliases :: "string list"
  pi_type :: probe_type
  show_in_kernel_list :: bool
  show_in_userspace_list :: bool

definition item :: "string \<Rightarrow> string list \<Rightarrow> probe_type \<Rightarrow> bool \<Rightarrow> bool \<Rightarrow> probe_item" where
  "item n as t k u = \<lparr>pi_name = n, pi_aliases = as, pi_type = t, show_in_kernel_list = k, show_in_userspace_list = u\<rparr>"

definition probe_list :: "probe_item list" where
  "probe_list =
     [item ''kprobe'' [''k''] PT_kprobe True False,
      item ''kretprobe'' [''kr''] PT_kretprobe False False,
      item ''uprobe'' [''u''] PT_uprobe False True,
      item ''uretprobe'' [''ur''] PT_uretprobe False False,
      item ''usdt'' [''U''] PT_usdt False True,
      item ''begin'' [] PT_special False False,
      item ''end'' [] PT_special False False,
      item ''self'' [] PT_special False False,
      item ''test'' [] PT_test False False,
      item ''bench'' [] PT_benchmark False False,
      item ''tracepoint'' [''t''] PT_tracepoint True False,
      item ''profile'' [''p''] PT_profile False False,
      item ''interval'' [''i''] PT_interval False False,
      item ''software'' [''s''] PT_software True False,
      item ''hardware'' [''h''] PT_hardware True False,
      item ''watchpoint'' [''w''] PT_watchpoint False False,
      item ''asyncwatchpoint'' [''aw''] PT_asyncwatchpoint False False,
      item ''fentry'' [''f'', ''kfunc''] PT_fentry True False,
      item ''fexit'' [''fr'', ''kretfunc''] PT_fexit False False,
      item ''iter'' [''it''] PT_iter True False,
      item ''rawtracepoint'' [''rt''] PT_rawtracepoint True False]"

definition item_named :: "string \<Rightarrow> probe_item \<Rightarrow> bool" where
  "item_named s p \<longleftrightarrow> pi_name p = s \<or> List.member (pi_aliases p) s"

definition probetype :: "string \<Rightarrow> probe_type" where
  "probetype probe_name =
     (case List.find (item_named (to_lower probe_name)) probe_list of None \<Rightarrow> PT_invalid | Some p \<Rightarrow> pi_type p)"

definition expand_probe_name :: "string \<Rightarrow> string" where
  "expand_probe_name orig_name =
     (case List.find (item_named orig_name) probe_list of None \<Rightarrow> to_lower orig_name | Some p \<Rightarrow> pi_name p)"

fun probetype_name :: "probe_type \<Rightarrow> string" where
  "probetype_name PT_invalid = ''invalid''"
| "probetype_name PT_special = ''special''"
| "probetype_name PT_test = ''test''"
| "probetype_name PT_benchmark = ''benchmark''"
| "probetype_name PT_kprobe = ''kprobe''"
| "probetype_name PT_kretprobe = ''kretprobe''"
| "probetype_name PT_uprobe = ''uprobe''"
| "probetype_name PT_uretprobe = ''uretprobe''"
| "probetype_name PT_usdt = ''usdt''"
| "probetype_name PT_tracepoint = ''tracepoint''"
| "probetype_name PT_profile = ''profile''"
| "probetype_name PT_interval = ''interval''"
| "probetype_name PT_software = ''software''"
| "probetype_name PT_hardware = ''hardware''"
| "probetype_name PT_watchpoint = ''watchpoint''"
| "probetype_name PT_asyncwatchpoint = ''asyncwatchpoint''"
| "probetype_name PT_fentry = ''fentry''"
| "probetype_name PT_fexit = ''fexit''"
| "probetype_name PT_iter = ''iter''"
| "probetype_name PT_rawtracepoint = ''rawtracepoint''"

text \<open>The kind of BPF program a probe becomes; \<open>None\<close> is the \<open>LOG(BUG)\<close> that aborts.\<close>

datatype prog_type = Prog_raw_tracepoint | Prog_xdp | Prog_kprobe | Prog_tracepoint | Prog_perf_event | Prog_tracing

fun progtype :: "probe_type \<Rightarrow> prog_type option" where
  "progtype PT_special = Some Prog_raw_tracepoint"
| "progtype PT_test = Some Prog_xdp"
| "progtype PT_benchmark = Some Prog_xdp"
| "progtype PT_kprobe = Some Prog_kprobe"
| "progtype PT_kretprobe = Some Prog_kprobe"
| "progtype PT_uprobe = Some Prog_kprobe"
| "progtype PT_uretprobe = Some Prog_kprobe"
| "progtype PT_usdt = Some Prog_kprobe"
| "progtype PT_tracepoint = Some Prog_tracepoint"
| "progtype PT_profile = Some Prog_perf_event"
| "progtype PT_interval = Some Prog_perf_event"
| "progtype PT_software = Some Prog_perf_event"
| "progtype PT_watchpoint = Some Prog_perf_event"
| "progtype PT_asyncwatchpoint = Some Prog_perf_event"
| "progtype PT_hardware = Some Prog_perf_event"
| "progtype PT_fentry = Some Prog_tracing"
| "progtype PT_fexit = Some Prog_tracing"
| "progtype PT_iter = Some Prog_tracing"
| "progtype PT_rawtracepoint = Some Prog_tracing"
| "progtype PT_invalid = None"

section \<open>Expanding a wildcarded probe type\<close>

text \<open>A \<open>std::set\<close> of strings is the list of its elements in ascending order.\<close>

fun set_insert :: "string \<Rightarrow> string list \<Rightarrow> string list" where
  "set_insert x [] = [x]"
| "set_insert x (y # ys) =
     (case cmp_string x y of Less \<Rightarrow> x # y # ys | Equal \<Rightarrow> y # ys | Greater \<Rightarrow> y # set_insert x ys)"

text \<open>
  \<open>get_matches_in_stream\<close> without demangling, over the lines of the stream. \<open>None\<close> is the access to
  \<open>tokens[0]\<close> of an empty list of tokens that \<open>wildcard_match\<close> can make.
\<close>

fun matches_in :: "string list \<Rightarrow> bool \<Rightarrow> bool \<Rightarrow> string list \<Rightarrow> string list \<Rightarrow> string list option" where
  "matches_in tokens sw ew [] acc = Some acc"
| "matches_in tokens sw ew (line # stream) acc =
     (case wildcard_match line tokens sw ew of
        None \<Rightarrow> None
      | Some False \<Rightarrow> matches_in tokens sw ew stream acc
      | Some True \<Rightarrow>
          if find_sub ''.part.'' line \<noteq> None then matches_in tokens sw ew stream acc
          else matches_in tokens sw ew stream (set_insert line acc))"

definition get_matches_in_stream :: "string \<Rightarrow> string list \<Rightarrow> string list option" where
  "get_matches_in_stream search_input stream =
     (case get_wildcard_tokens search_input False False of (tokens, sw, ew) \<Rightarrow> matches_in tokens sw ew stream [])"

definition kernel_probe_list :: "string list" where
  "kernel_probe_list = map pi_name (filter show_in_kernel_list probe_list)"

definition userspace_probe_list :: "string list" where
  "userspace_probe_list = map pi_name (filter show_in_userspace_list probe_list)"

definition expand_probetype_kernel :: "string \<Rightarrow> string list option" where
  "expand_probetype_kernel pt =
     (if has_wildcard pt then get_matches_in_stream pt kernel_probe_list else Some [pt])"

definition expand_probetype_userspace :: "string \<Rightarrow> string list option" where
  "expand_probetype_userspace pt =
     (if has_wildcard pt then get_matches_in_stream pt userspace_probe_list else Some [pt])"

section \<open>Attach points\<close>

record attach_point =
  raw_input :: string
  provider :: string
  target :: string
  lang :: string
  ns :: string
  func :: string
  pin :: string
  freq :: int
  len :: nat
  mode :: string
  async :: bool
  address :: nat
  func_offset :: nat
  bpf_prog_id :: nat
  ignore_invalid :: bool

definition new_attach_point :: "string \<Rightarrow> bool \<Rightarrow> attach_point" where
  "new_attach_point raw ignore =
     \<lparr>raw_input = raw, provider = [], target = [], lang = [], ns = [], func = [], pin = [], freq = 0,
      len = 0, mode = [], async = False, address = 0, func_offset = 0, bpf_prog_id = 0,
      ignore_invalid = ignore\<rparr>"

text \<open>\<open>operator==\<close> compares every field but the program id.\<close>

definition ap_equal :: "attach_point \<Rightarrow> attach_point \<Rightarrow> bool" where
  "ap_equal a b \<longleftrightarrow>
     raw_input a = raw_input b \<and> provider a = provider b \<and> target a = target b \<and> lang a = lang b \<and>
     ns a = ns b \<and> func a = func b \<and> pin a = pin b \<and> freq a = freq b \<and> len a = len b \<and>
     mode a = mode b \<and> async a = async b \<and> address a = address b \<and>
     func_offset a = func_offset b \<and> ignore_invalid a = ignore_invalid b"

definition name_part :: "string \<Rightarrow> string" where
  "name_part s = (if s = [] then [] else CHR '':'' # s)"

definition num_part :: "nat \<Rightarrow> string" where
  "num_part n = (if n \<noteq> 0 then CHR '':'' # show_nat n else [])"

definition ap_name :: "attach_point \<Rightarrow> string" where
  "ap_name ap =
     provider ap @ name_part (target ap) @ name_part (lang ap) @ name_part (ns ap) @
     num_part (bpf_prog_id ap) @
     (if func ap = [] then []
      else CHR '':'' # func ap @
        (if func_offset ap \<noteq> 0 then CHR ''+'' # show_nat (func_offset ap) else [])) @
     num_part (address ap) @
     (if freq ap \<noteq> 0 then CHR '':'' # show_int (freq ap) else []) @
     num_part (len ap) @ name_part (mode ap)"

text \<open>
  \<open>create_expansion_copy\<close>. The constructor of the copy takes the raw input and \<open>ignore_invalid\<close>, and
  every other field is assigned but the program id, which a copy starts without. \<open>None\<close> is the
  \<open>LOG(BUG)\<close> on a program id that is no number, and the access past the end of \<open>parts\<close>.
\<close>

definition expand_prefix :: "string \<Rightarrow> attach_point \<Rightarrow> attach_point" where
  "expand_prefix m ap = (case erase_prefix m of (pre, rest) \<Rightarrow> ap\<lparr>target := pre, func := rest\<rparr>)"

definition expand_bpf :: "string \<Rightarrow> attach_point \<Rightarrow> attach_point option" where
  "expand_bpf m ap =
     (case split_string m (CHR '':'') False of
        p0 # p1 # p2 # _ \<Rightarrow>
          (case to_uint p1 0 of
             Inl _ \<Rightarrow> None
           | Inr prog_id \<Rightarrow> Some (ap\<lparr>target := p0, bpf_prog_id := prog_id, func := p2\<rparr>))
      | _ \<Rightarrow> None)"

definition create_expansion_copy :: "attach_point \<Rightarrow> string \<Rightarrow> attach_point option" where
  "create_expansion_copy orig m =
     (let ap = orig\<lparr>bpf_prog_id := 0\<rparr>; pt = probetype (provider ap)
      in if pt = PT_kprobe \<or> pt = PT_kretprobe then
           Some (if find_sub '':'' m \<noteq> None then expand_prefix m ap else ap\<lparr>func := m\<rparr>)
         else if (pt = PT_fentry \<or> pt = PT_fexit) \<and> take 4 m = ''bpf:'' then expand_bpf m ap
         else if pt \<in> {PT_fentry, PT_fexit, PT_uprobe, PT_uretprobe, PT_tracepoint, PT_rawtracepoint} then
           Some (expand_prefix m ap)
         else if pt = PT_usdt then
           (case erase_prefix m of (path, rest) \<Rightarrow>
             (case erase_prefix rest of (namespace, f) \<Rightarrow> Some (ap\<lparr>target := path, ns := namespace, func := f\<rparr>)))
         else if pt = PT_watchpoint \<or> pt = PT_asyncwatchpoint then
           Some (ap\<lparr>func := snd (erase_prefix m)\<rparr>)
         else Some ap)"

text \<open>\<open>check_available\<close>; \<open>None\<close> is the abort of \<open>progtype\<close> on an invalid probe type.\<close>

definition check_available :: "attach_point \<Rightarrow> string \<Rightarrow> bool option" where
  "check_available ap identifier =
     (let pt = probetype (provider ap)
      in if identifier = ''reg'' \<or> identifier = ''__builtin_usermode'' then
           Some (pt \<in> {PT_kprobe, PT_kretprobe, PT_uprobe, PT_uretprobe, PT_usdt, PT_profile, PT_interval,
             PT_software, PT_hardware, PT_watchpoint, PT_asyncwatchpoint})
         else if identifier = ''__builtin_uaddr'' then Some (pt \<in> {PT_usdt, PT_uretprobe, PT_uprobe})
         else if identifier = ''skboutput'' \<or> identifier = ''socket_cookie'' then
           map_option (\<lambda>t. t = Prog_tracing) (progtype pt)
         else Some (pt \<noteq> PT_invalid))"

definition is_supported_lang :: "string \<Rightarrow> bool" where
  "is_supported_lang l \<longleftrightarrow> l = ''cpp''"

section \<open>Names of probe types\<close>

definition probe_names :: "string list" where
  "probe_names = concat (map (\<lambda>p. pi_name p # pi_aliases p) probe_list)"

lemma find_item_named: "List.find (item_named s) probe_list \<noteq> None \<longleftrightarrow> s \<in> set probe_names"
  by (auto simp: find_None_iff probe_names_def item_named_def)

lemma probe_names_lower: "list_all (\<lambda>s. s = ''U'' \<or> to_lower s = s) probe_names"
  by (simp add: probe_names_def probe_list_def item_def to_lower_def char_lower_def is_upper_def char_code_def)

text \<open>The name of an entry finds that entry.\<close>

lemma probe_items_by_name: "list_all (\<lambda>p. List.find (item_named (pi_name p)) probe_list = Some p \<and> to_lower (pi_name p) = pi_name p) probe_list"
  by (simp add: probe_list_def item_def item_named_def to_lower_def char_lower_def is_upper_def char_code_def)

lemma probetype_item_name: "p \<in> set probe_list \<Longrightarrow> probetype (pi_name p) = pi_type p"
  using probe_items_by_name by (simp add: list_all_iff probetype_def)

section \<open>Properties\<close>

text \<open>expanding the name of a probe type does not change the type it names, whatever its case,
  with one exception: the alias \<open>U\<close> expands to \<open>usdt\<close>, while \<open>probetype\<close>, which ignores case, takes it
  for the alias \<open>u\<close> of \<open>uprobe\<close>.\<close>

theorem probetype_expand:
  "probetype (expand_probe_name s) = (if s = ''U'' then PT_usdt else probetype s)"
proof (cases "List.find (item_named s) probe_list")
  case None
  then have "s \<notin> set probe_names" using find_item_named [of s] by simp
  then have "s \<noteq> ''U''" by (auto simp: probe_names_def probe_list_def item_def)
  with None show ?thesis by (simp add: expand_probe_name_def probetype_def)
next
  case (Some p)
  then have p: "p \<in> set probe_list" "s \<in> set probe_names"
    using find_item_named [of s] by (auto simp: find_Some_iff)
  then have e: "probetype (expand_probe_name s) = pi_type p"
    using Some by (simp add: expand_probe_name_def probetype_item_name)
  show ?thesis
  proof (cases "s = ''U''")
    case True
    with Some have "pi_type p = PT_usdt" by (auto simp: probe_list_def item_def item_named_def)
    with True e show ?thesis by simp
  next
    case False
    with p(2) probe_names_lower have "to_lower s = s" by (auto simp: list_all_iff)
    with Some e False show ?thesis by (simp add: probetype_def)
  qed
qed

text \<open>an attach point expanded to a match \<open>target:function\<close> is named by its provider and that
  match, so distinct matches of one attach point have distinct names.\<close>

theorem expansion_copy_name:
  assumes "CHR '':'' \<notin> set t" "t \<noteq> []" "f \<noteq> []" "t \<noteq> ''bpf''"
    and "probetype (provider ap) \<in> {PT_kprobe, PT_kretprobe, PT_uprobe, PT_uretprobe, PT_tracepoint,
      PT_rawtracepoint, PT_fentry, PT_fexit}"
    and "lang ap = []" "ns ap = []" "func_offset ap = 0" "address ap = 0" "freq ap = 0" "len ap = 0" "mode ap = []"
  shows "\<exists>c. create_expansion_copy ap (t @ CHR '':'' # f) = Some c
    \<and> ap_name c = provider ap @ CHR '':'' # t @ CHR '':'' # f"
proof -
  let ?m = "t @ CHR '':'' # f"
  have e: "erase_prefix ?m = (t, f)" by (rule erase_prefix_colon [OF assms(1)])
  have colon: "find_sub '':'' ?m \<noteq> None" by (simp add: find_sub_single)
  have "take 4 ?m \<noteq> ''bpf:''"
  proof
    assume m: "take 4 ?m = ''bpf:''"
    show False
    proof (cases "4 \<le> length t")
      case True
      with m have "take 4 t = ''bpf:''" by simp
      then have "CHR '':'' \<in> set (take 4 t)" by simp
      with assms(1) show False by (meson in_set_takeD)
    next
      case False
      from m have "take (length t) ?m = take (length t) ''bpf:''" using False by (metis le_cases min.absorb1 take_take)
      then have t: "t = take (length t) ''bpf:''" by simp
      from False consider "length t = 0" | "length t = 1" | "length t = 2" | "length t = 3" by linarith
      then show False
        using t m assms(2,4) by cases (simp_all add: numeral_2_eq_2 numeral_3_eq_3)
    qed
  qed
  with assms(5) e colon have "create_expansion_copy ap ?m = Some (ap\<lparr>bpf_prog_id := 0, target := t, func := f\<rparr>)"
    by (auto simp: create_expansion_copy_def expand_prefix_def Let_def)
  then show ?thesis using assms by (simp add: ap_name_def name_part_def num_part_def)
qed

theorem expansion_copy_name_witness:
  "\<exists>c. create_expansion_copy ((new_attach_point ''t:sched:*'' False)\<lparr>provider := ''tracepoint'', target := ''sched'', func := ''*''\<rparr>)
       ''sched:sched_switch'' = Some c \<and> ap_name c = ''tracepoint:sched:sched_switch''"
  using expansion_copy_name [of "''sched''" "''sched_switch''"
      "(new_attach_point ''t:sched:*'' False)\<lparr>provider := ''tracepoint'', target := ''sched'', func := ''*''\<rparr>"]
    probetype_item_name [of "item ''tracepoint'' [''t''] PT_tracepoint True False"]
  by (simp add: new_attach_point_def probe_list_def item_def)

end
