(* ===== verification/Attach_Parser.thy ===== *)
theory Attach_Parser
  imports Probe_Types
begin

text \<open>
  The attach point parser of \<open>src/ast/passes/attachpoint_passes.cpp\<close>: the lexer that splits an attach
  point into its parts, the parser of each probe type, \<open>parse_attachpoint\<close>, and the loop over the
  attach points of a probe.
\<close>

section \<open>What the parser asks of its surroundings\<close>

text \<open>
  The options of the run and the answers of the system: \<open>env_exe\<close> is the path of the traced
  process's executable (empty where \<open>get_pid_exe\<close> fails), \<open>env_which_so\<close> is bcc's lookup of a shared
  library, \<open>env_watch_path\<close> is \<open>get_watchpoint_binary_path\<close>, \<open>env_func_modules\<close> the modules that
  define a kernel function.
\<close>

record parse_env =
  env_listing :: bool
  env_has_pid :: bool
  env_params :: "string list"
  env_exe :: string
  env_which_so :: "string \<Rightarrow> string option"
  env_watch_path :: "string option"
  env_func_modules :: "string \<Rightarrow> string list"

section \<open>The lexer\<close>

text \<open>\<open>BPFtrace::get_param\<close>; \<open>None\<close> is the exception of \<open>params_.at\<close>, at index 0.\<close>

definition get_param :: "string list \<Rightarrow> nat \<Rightarrow> string option" where
  "get_param params i =
     (if length params < i then Some [] else if i = 0 then None else Some (params ! (i - 1)))"

text \<open>The digits after a dollar sign; a leading 0 ends them at once.\<close>

definition param_digits :: "string \<Rightarrow> string" where
  "param_digits s = (if s \<noteq> [] \<and> hd s = CHR ''0'' then [] else takeWhile is_digit s)"

datatype lex_result =
    Lexed "string list"
  | Lex_error string
  | Lex_throws

definition invalid_param_error :: "char \<Rightarrow> string" where
  "invalid_param_error c =
     ''invalid trailing character for positional param: '' @ [c] @
     ''. Try quoting this entire part if this is intentional e.g. '' @ [CHR 0x22, CHR ''$'', c, CHR 0x22] @ ''.''"

text \<open>
  The loop of \<open>lex_attachpoint\<close>: \<open>raw\<close> is what is left of the input from the current index on. The
  expansion of a positional parameter is put in front of it and read again, so a parameter that
  names itself is expanded forever; \<open>None\<close> is this loop not ending.
\<close>

partial_function (option) lex :: "string list \<Rightarrow> string \<Rightarrow> bool \<Rightarrow> string \<Rightarrow> string list \<Rightarrow> lex_result option" where
  "lex params raw in_quotes argument parts =
     (case raw of
        [] \<Rightarrow> Some (Lexed (parts @ [argument]))
      | c # rest \<Rightarrow>
          if c = CHR '':'' \<and> \<not> in_quotes then lex params rest in_quotes [] (parts @ [argument])
          else if c = CHR 0x22 then lex params rest (\<not> in_quotes) argument parts
          else if in_quotes \<and> c = CHR 0x5C \<and> rest \<noteq> [] then
            lex params (tl rest) in_quotes (argument @ [hd rest]) parts
          else if \<not> in_quotes \<and> c = CHR ''$'' then
            (if param_digits rest = [] \<and> rest \<noteq> [] then Some (Lex_error (invalid_param_error (hd rest)))
             else (case to_uint (param_digits rest) 10 of
                     Inl e \<Rightarrow> Some (Lex_error (''positional parameter is not valid: '' @ num_error_str e @ [CHR 0x0A]))
                   | Inr i \<Rightarrow>
                       (case get_param params i of
                          None \<Rightarrow> Some Lex_throws
                        | Some p \<Rightarrow> lex params (p @ drop (length (param_digits rest)) rest) in_quotes argument parts)))
          else lex params rest in_quotes (argument @ [c]) parts)"

definition lex_attachpoint :: "string list \<Rightarrow> string \<Rightarrow> lex_result option" where
  "lex_attachpoint params raw = lex params raw False [] []"

section \<open>The parsers of the probe types\<close>

text \<open>
  What a parser ends with. The text of an error is what it wrote to \<open>errs_\<close>, which is empty when an
  attach point is entered. The attach point keeps what was assigned before an error.
\<close>

datatype ap_state =
    AP_ok
  | AP_invalid string
  | AP_new "attach_point list"
  | AP_skip

definition endl :: string where "endl = [CHR 0x0A]"

definition argument_count_error :: "string \<Rightarrow> string list \<Rightarrow> nat \<Rightarrow> nat option \<Rightarrow> ap_state" where
  "argument_count_error prov parts expected expected2 =
     AP_invalid (prov @ '' probe type requires '' @ show_nat expected @
       (case expected2 of None \<Rightarrow> [] | Some e \<Rightarrow> '' or '' @ show_nat e) @
       '' arguments, found '' @ show_nat (length parts - 1) @ endl)"

definition count_error :: "attach_point \<Rightarrow> string list \<Rightarrow> nat \<Rightarrow> nat option \<Rightarrow> attach_point \<times> ap_state" where
  "count_error ap parts expected expected2 = (ap, argument_count_error (provider ap) parts expected expected2)"

definition skip_or_count_error ::
  "attach_point \<Rightarrow> string list \<Rightarrow> nat \<Rightarrow> nat option \<Rightarrow> attach_point \<times> ap_state" where
  "skip_or_count_error ap parts expected expected2 =
     (if ignore_invalid ap then (ap, AP_skip) else count_error ap parts expected expected2)"

definition special_parser :: "attach_point \<Rightarrow> string list \<Rightarrow> attach_point \<times> ap_state" where
  "special_parser ap parts =
     (if provider ap = ''begin'' \<or> provider ap = ''end'' then
        (let parts = (if length parts = 2 \<and> parts ! 1 = ''*'' then butlast parts else parts)
         in if length parts \<noteq> 1 then count_error ap parts 0 None else (ap, AP_ok))
      else if provider ap = ''self'' then
        (if length parts \<noteq> 3 then count_error ap parts 2 None
         else (ap\<lparr>target := parts ! 1, func := parts ! 2\<rparr>, AP_ok))
      else (ap, AP_ok))"

definition test_parser :: "attach_point \<Rightarrow> string list \<Rightarrow> attach_point \<times> ap_state" where
  "test_parser ap parts =
     (if length parts \<noteq> 2 then count_error ap parts 1 None else (ap\<lparr>target := parts ! 1\<rparr>, AP_ok))"

definition benchmark_parser :: "attach_point \<Rightarrow> string list \<Rightarrow> attach_point \<times> ap_state" where
  "benchmark_parser ap parts =
     (if length parts \<noteq> 2 then count_error ap parts 1 None else (ap\<lparr>target := parts ! 1\<rparr>, AP_ok))"

text \<open>A function with one or more plus signs: \<open>func+offset\<close>.\<close>

definition parse_offset :: "bool \<Rightarrow> string \<Rightarrow> attach_point \<Rightarrow> attach_point \<times> ap_state" where
  "parse_offset allow_offset f ap =
     (if \<not> allow_offset then (ap, AP_invalid (''Offset not allowed'' @ endl))
      else if count_list f (CHR ''+'') \<noteq> 1 then (ap, AP_invalid (''Cannot take more than one offset'' @ endl))
      else let offset_parts = split_string f (CHR ''+'') True
        in if length offset_parts \<noteq> 2 then (ap, AP_invalid (''Invalid offset'' @ endl))
           else let ap = ap\<lparr>func := offset_parts ! 0\<rparr>
             in (case to_uint (offset_parts ! 1) 0 of
                   Inl e \<Rightarrow> (ap, AP_invalid (''Invalid offset: '' @ num_error_str e @ endl))
                 | Inr n \<Rightarrow> (ap\<lparr>func_offset := n\<rparr>, AP_ok)))"

definition kprobe_parser :: "bool \<Rightarrow> attach_point \<Rightarrow> string list \<Rightarrow> attach_point \<times> ap_state" where
  "kprobe_parser allow_offset ap parts =
     (if length parts \<noteq> 2 \<and> length parts \<noteq> 3 then skip_or_count_error ap parts 1 (Some 2)
      else let func_idx = (if length parts = 3 then 2 else 1);
               ap = (if length parts = 3 then ap\<lparr>target := parts ! 1\<rparr> else ap)
        in if count_list (parts ! func_idx) (CHR ''+'') \<noteq> 0 then parse_offset allow_offset (parts ! func_idx) ap
           else (ap\<lparr>func := parts ! func_idx\<rparr>, AP_ok))"

definition kretprobe_parser :: "attach_point \<Rightarrow> string list \<Rightarrow> attach_point \<times> ap_state" where
  "kretprobe_parser = kprobe_parser False"

definition uprobe_target :: "parse_env \<Rightarrow> string \<Rightarrow> string" where
  "uprobe_target env path =
     (if \<not> has_wildcard path \<and> take 3 path = ''lib'' then
        (case env_which_so env (c_str (drop 3 path)) of
           None \<Rightarrow> path
         | Some so \<Rightarrow> if so = [] then path else so)
      else path)"

definition uprobe_pid_parts :: "parse_env \<Rightarrow> string list \<Rightarrow> string list" where
  "uprobe_pid_parts env parts =
     (if env_has_pid env \<and> (length parts = 2 \<or> (length parts = 3 \<and> is_supported_lang (parts ! 1))) then
        (let parts = (if length parts = 2 then take 1 parts @ [[]] @ drop 1 parts else parts)
         in parts[1 := env_exe env])
      else parts)"

definition uprobe_parser :: "parse_env \<Rightarrow> bool \<Rightarrow> bool \<Rightarrow> attach_point \<Rightarrow> string list \<Rightarrow> attach_point \<times> ap_state" where
  "uprobe_parser env allow_offset allow_abs_addr ap parts0 =
     (let parts = uprobe_pid_parts env parts0
      in if length parts \<noteq> 3 \<and> length parts \<noteq> 4 then skip_or_count_error ap parts 2 (Some 3)
         else let ap = (if length parts = 4 then ap\<lparr>lang := parts ! 2\<rparr> else ap);
                  ap = ap\<lparr>target := uprobe_target env (parts ! 1)\<rparr>;
                  f = last parts
           in if count_list f (CHR ''+'') \<noteq> 0 then parse_offset allow_offset f ap
              else if allow_abs_addr then
                (case to_uint f 0 of
                   Inr a \<Rightarrow>
                     if has_wildcard (target ap)
                     then (ap, AP_invalid (''Cannot use wildcards with absolute address'' @ endl))
                     else (ap\<lparr>address := a\<rparr>, AP_ok)
                 | Inl _ \<Rightarrow> (ap\<lparr>address := 0, func := f\<rparr>, AP_ok))
              else (ap\<lparr>func := f\<rparr>, AP_ok))"

definition uretprobe_parser :: "parse_env \<Rightarrow> attach_point \<Rightarrow> string list \<Rightarrow> attach_point \<times> ap_state" where
  "uretprobe_parser env = uprobe_parser env False True"

definition usdt_parser :: "parse_env \<Rightarrow> attach_point \<Rightarrow> string list \<Rightarrow> attach_point \<times> ap_state" where
  "usdt_parser env ap parts0 =
     (let parts = (if env_has_pid env \<and> length parts0 = 2 then [parts0 ! 0, [], parts0 ! 1] else parts0)
      in if length parts \<noteq> 3 \<and> length parts \<noteq> 4 then skip_or_count_error ap parts 2 (Some 3)
         else if length parts = 3 then (ap\<lparr>target := parts ! 1, func := parts ! 2\<rparr>, AP_ok)
         else (ap\<lparr>target := parts ! 1, ns := parts ! 2, func := parts ! 3\<rparr>, AP_ok))"

definition tracepoint_parser :: "attach_point \<Rightarrow> string list \<Rightarrow> attach_point \<times> ap_state" where
  "tracepoint_parser ap parts0 =
     (let parts = (if length parts0 = 2 \<and> has_wildcard (parts0 ! 1) then [parts0 ! 0, ''*'', parts0 ! 1] else parts0)
      in if length parts \<noteq> 3 then skip_or_count_error ap parts 2 None
         else (ap\<lparr>target := parts ! 1, func := parts ! 2\<rparr>, AP_ok))"

text \<open>The parser of profile and interval probes. The frequency is a signed field.\<close>

definition frequency_parser :: "attach_point \<Rightarrow> string list \<Rightarrow> attach_point \<times> ap_state" where
  "frequency_parser ap parts =
     (if length parts = 2 then
        (if has_wildcard (parts ! 1) then (ap\<lparr>target := parts ! 1, freq := 0\<rparr>, AP_ok)
         else (case to_uint (parts ! 1) 0 of
                 Inl e \<Rightarrow> (ap, AP_invalid (''Invalid rate of '' @ provider ap @ '' probe: '' @ num_error_str e @ endl))
               | Inr res \<Rightarrow>
                   if res < 1000 then
                     (ap, AP_invalid (''Invalid rate of '' @ provider ap @
                        '' probe. Minimum is 1000 or 1us. Found: '' @ show_nat res @ '' nanoseconds'' @ endl))
                   else (ap\<lparr>target := ''us'', freq := cast_i64 (res div 1000)\<rparr>, AP_ok)))
      else if length parts \<noteq> 3 then count_error ap parts 1 (Some 2)
      else let ap = ap\<lparr>target := parts ! 1\<rparr>
        in (case to_uint (parts ! 2) 0 of
              Inl e \<Rightarrow> (ap, AP_invalid (''Invalid rate of '' @ provider ap @ '' probe: '' @ num_error_str e @ endl))
            | Inr res \<Rightarrow> (ap\<lparr>freq := cast_i64 res\<rparr>, AP_ok)))"

text \<open>The parsers of software and hardware probes, which are the same.\<close>

definition event_parser :: "attach_point \<Rightarrow> string list \<Rightarrow> attach_point \<times> ap_state" where
  "event_parser ap parts =
     (if length parts \<noteq> 2 \<and> length parts \<noteq> 3 then skip_or_count_error ap parts 1 (Some 2)
      else let ap = ap\<lparr>target := parts ! 1\<rparr>
        in if length parts = 3 \<and> parts ! 2 \<noteq> ''*'' then
             (case to_uint (parts ! 2) 0 of
                Inl e \<Rightarrow> (ap, AP_invalid (''Invalid count for '' @ provider ap @ '' probe: '' @ num_error_str e @ endl))
              | Inr res \<Rightarrow> (ap\<lparr>freq := cast_i64 res\<rparr>, AP_ok))
           else (ap, AP_ok))"

definition software_parser :: "attach_point \<Rightarrow> string list \<Rightarrow> attach_point \<times> ap_state" where
  "software_parser = event_parser"

definition hardware_parser :: "attach_point \<Rightarrow> string list \<Rightarrow> attach_point \<times> ap_state" where
  "hardware_parser = event_parser"

text \<open>The first argument of a watchpoint: an address, or a function and one of its arguments.\<close>

definition watchpoint_address :: "attach_point \<Rightarrow> string \<Rightarrow> attach_point \<times> ap_state" where
  "watchpoint_address ap s =
     (if CHR ''+'' \<notin> set s then
        (case to_uint s 0 of
           Inl e \<Rightarrow> (ap, AP_invalid (''Invalid function/address argument: '' @ num_error_str e @ endl))
         | Inr a \<Rightarrow> (ap\<lparr>address := a\<rparr>, AP_ok))
      else let fa = split_string s (CHR ''+'') True
        in if length fa \<noteq> 2 then (ap, AP_invalid (''Invalid function/address argument: '' @ s @ endl))
           else let ap = ap\<lparr>func := fa ! 0\<rparr>
             in if length (fa ! 1) \<le> 3 \<or> take 3 (fa ! 1) \<noteq> ''arg''
                then (ap, AP_invalid (''Invalid function/address argument: '' @ fa ! 1 @ endl))
                else (case to_uint (drop 3 (fa ! 1)) 0 of
                        Inl e \<Rightarrow> (ap, AP_invalid (''Invalid function argument: '' @ num_error_str e @ endl))
                      | Inr a \<Rightarrow> (ap\<lparr>address := a\<rparr>, AP_ok)))"

definition watchpoint_parser :: "parse_env \<Rightarrow> bool \<Rightarrow> attach_point \<Rightarrow> string list \<Rightarrow> attach_point \<times> ap_state" where
  "watchpoint_parser env is_async ap parts =
     (if length parts \<noteq> 4 then count_error ap parts 3 None
      else (case watchpoint_address ap (parts ! 1) of
              (ap, AP_ok) \<Rightarrow>
                (case to_uint (parts ! 2) 0 of
                   Inl e \<Rightarrow> (ap, AP_invalid (''Invalid length argument: '' @ num_error_str e @ endl))
                 | Inr n \<Rightarrow>
                     (ap\<lparr>len := n, target := (case env_watch_path env of None \<Rightarrow> [] | Some p \<Rightarrow> p),
                         mode := parts ! 3, async := is_async\<rparr>, AP_ok))
            | r \<Rightarrow> r))"

definition quote :: "string \<Rightarrow> string" where "quote s = [CHR 0x27] @ s @ [CHR 0x27]"

definition fentry_bpf :: "attach_point \<Rightarrow> string list \<Rightarrow> attach_point \<times> ap_state" where
  "fentry_bpf ap0 parts =
     (let ap = ap0\<lparr>target := parts ! 1\<rparr>
      in if length parts = 2 then
           (ap, AP_invalid (''the '' @ quote ''bpf'' @ '' variant of this probe requires a bpf program name '' @
             ''and optional bpf program id''))
         else if length parts = 3 then (ap\<lparr>func := parts ! 2\<rparr>, AP_ok)
         else let ap = ap\<lparr>func := parts ! 3\<rparr>
           in if parts ! 2 \<noteq> ''*'' then
                (case to_uint (parts ! 2) 0 of
                   Inl _ \<Rightarrow> (ap, AP_invalid (''bpf program id must be a number or '' @ quote ''*''))
                 | Inr i \<Rightarrow> (ap\<lparr>bpf_prog_id := i\<rparr>, AP_ok))
              else (ap, AP_ok))"

definition fentry_parser :: "parse_env \<Rightarrow> attach_point \<Rightarrow> string list \<Rightarrow> attach_point \<times> ap_state" where
  "fentry_parser env ap parts =
     (if length parts \<noteq> 2 \<and> length parts \<noteq> 3 \<and> length parts \<noteq> 4 then skip_or_count_error ap parts 1 (Some 3)
      else if parts ! 1 = ''bpf'' then fentry_bpf ap parts
      else if length parts = 4 then
        (ap, AP_invalid (''Only the '' @ quote ''bpf'' @ '' variant of this probe supports 4 arguments''))
      else if length parts = 3 then (ap\<lparr>target := parts ! 1, func := parts ! 2\<rparr>, AP_ok)
      else let ap = ap\<lparr>func := parts ! 1\<rparr>
        in if \<not> has_wildcard (func ap) then
             (case env_func_modules env (func ap) of
                [] \<Rightarrow> (ap, AP_ok)
              | [m] \<Rightarrow> (ap\<lparr>target := m\<rparr>, AP_ok)
              | _ \<Rightarrow>
                  if env_listing env then (ap\<lparr>target := ''*''\<rparr>, AP_ok)
                  else (ap, AP_invalid (''ambiguous attach point, please specify module containing '' @
                    ''the function '' @ quote (func ap))))
           else (ap\<lparr>target := ''*''\<rparr>, AP_ok))"

text \<open>The parser of iterators also reads and sets the flag that one was seen in this probe.\<close>

definition iter_parser ::
  "parse_env \<Rightarrow> bool \<Rightarrow> attach_point \<Rightarrow> string list \<Rightarrow> bool \<times> attach_point \<times> ap_state" where
  "iter_parser env has_iter ap parts =
     (if length parts \<noteq> 2 \<and> length parts \<noteq> 3 then
        (has_iter, ap,
         if ignore_invalid ap then AP_skip
         else AP_invalid (provider ap @ '' probe type takes 2 arguments (1 optional)'' @ endl))
      else if \<not> env_listing env \<and> has_iter then
        (has_iter, ap, AP_invalid (provider ap @ '' probe only supports one attach point.'' @ endl))
      else if \<not> env_listing env \<and>
              (has_wildcard (parts ! 1) \<or> (length parts = 3 \<and> has_wildcard (parts ! 2))) then
        (has_iter, ap, AP_invalid (provider ap @ '' probe type does not support wildcards''))
      else let ap = ap\<lparr>func := parts ! 1\<rparr>;
               ap = (if length parts = 3 then ap\<lparr>pin := parts ! 2\<rparr> else ap)
        in (True, ap, AP_ok))"

definition raw_tracepoint_parser :: "attach_point \<Rightarrow> string list \<Rightarrow> attach_point \<times> ap_state" where
  "raw_tracepoint_parser ap parts =
     (if length parts \<noteq> 2 \<and> length parts \<noteq> 3 then skip_or_count_error ap parts 2 (Some 1)
      else if length parts = 3 then (ap\<lparr>target := parts ! 1, func := parts ! 2\<rparr>, AP_ok)
      else (ap\<lparr>target := ''*'', func := parts ! 1\<rparr>, AP_ok))"

section \<open>\<open>parse_attachpoint\<close>\<close>

definition dispatch ::
  "parse_env \<Rightarrow> bool \<Rightarrow> attach_point \<Rightarrow> string list \<Rightarrow> bool \<times> attach_point \<times> ap_state" where
  "dispatch env has_iter ap parts =
     (case probetype (provider ap) of
        PT_special \<Rightarrow> (has_iter, special_parser ap parts)
      | PT_test \<Rightarrow> (has_iter, test_parser ap parts)
      | PT_benchmark \<Rightarrow> (has_iter, benchmark_parser ap parts)
      | PT_kprobe \<Rightarrow> (has_iter, kprobe_parser True ap parts)
      | PT_kretprobe \<Rightarrow> (has_iter, kretprobe_parser ap parts)
      | PT_uprobe \<Rightarrow> (has_iter, uprobe_parser env True True ap parts)
      | PT_uretprobe \<Rightarrow> (has_iter, uretprobe_parser env ap parts)
      | PT_usdt \<Rightarrow> (has_iter, usdt_parser env ap parts)
      | PT_tracepoint \<Rightarrow> (has_iter, tracepoint_parser ap parts)
      | PT_profile \<Rightarrow> (has_iter, frequency_parser ap parts)
      | PT_interval \<Rightarrow> (has_iter, frequency_parser ap parts)
      | PT_software \<Rightarrow> (has_iter, software_parser ap parts)
      | PT_hardware \<Rightarrow> (has_iter, hardware_parser ap parts)
      | PT_watchpoint \<Rightarrow> (has_iter, watchpoint_parser env False ap parts)
      | PT_asyncwatchpoint \<Rightarrow> (has_iter, watchpoint_parser env True ap parts)
      | PT_fentry \<Rightarrow> (has_iter, fentry_parser env ap parts)
      | PT_fexit \<Rightarrow> (has_iter, fentry_parser env ap parts)
      | PT_iter \<Rightarrow> iter_parser env has_iter ap parts
      | PT_rawtracepoint \<Rightarrow> (has_iter, raw_tracepoint_parser ap parts)
      | PT_invalid \<Rightarrow> (has_iter, ap, AP_invalid (''Invalid probe type: '' @ provider ap @ endl)))"

text \<open>The probe types a first part with a wildcard stands for, in the order of a \<open>std::set\<close>.\<close>

definition probe_types_of :: "parse_env \<Rightarrow> string list \<Rightarrow> string list option" where
  "probe_types_of env parts =
     (if has_wildcard (hd parts) then
        (let query = (if length parts = 1 then ''*'' else hd parts)
         in if env_has_pid env \<or> (2 \<le> length parts \<and> CHR ''/'' \<in> set (parts ! 1))
            then expand_probetype_userspace query
            else expand_probetype_kernel query)
      else Some [hd parts])"

definition replacement :: "attach_point \<Rightarrow> string list \<Rightarrow> string \<Rightarrow> attach_point" where
  "replacement ap parts pt =
     new_attach_point
       (pt @ CHR '':'' # (if 1 < length parts then snd (erase_prefix (raw_input ap)) else raw_input ap)) True"

text \<open>
  What follows the lexer. \<open>None\<close> is the undefined access inside \<open>wildcard_match\<close>, which
  \<open>parse_parts_defined\<close> below excludes.
\<close>

definition parse_parts ::
  "parse_env \<Rightarrow> bool \<Rightarrow> attach_point \<Rightarrow> string list \<Rightarrow> (bool \<times> attach_point \<times> ap_state) option" where
  "parse_parts env has_iter ap parts =
     (if parts = [] then Some (has_iter, ap, AP_invalid (''Invalid attachpoint definition'' @ endl))
      else if hd parts = [] then Some (has_iter, ap\<lparr>provider := []\<rparr>, AP_ok)
      else (case probe_types_of env parts of
              None \<Rightarrow> None
            | Some [] \<Rightarrow>
                Some (has_iter, ap,
                  AP_invalid ((if has_wildcard (hd parts) then ''No probe type matched for ''
                               else ''Invalid probe type: '') @ hd parts @ endl))
            | Some [pt] \<Rightarrow> Some (dispatch env has_iter (ap\<lparr>provider := expand_probe_name pt\<rparr>) parts)
            | Some pts \<Rightarrow> Some (has_iter, ap, AP_new (map (replacement ap parts) pts))))"

definition parse_attachpoint ::
  "parse_env \<Rightarrow> bool \<Rightarrow> attach_point \<Rightarrow> (bool \<times> attach_point \<times> ap_state) option" where
  "parse_attachpoint env has_iter ap =
     (case lex_attachpoint (env_params env) (raw_input ap) of
        None \<Rightarrow> None
      | Some Lex_throws \<Rightarrow> None
      | Some (Lex_error e) \<Rightarrow> Some (has_iter, ap, AP_invalid e)
      | Some (Lexed parts) \<Rightarrow> parse_parts env has_iter ap parts)"

section \<open>The attach points of a probe\<close>

text \<open>
  The loop of \<open>parse\<close>: \<open>done\<close> are the attach points before the index, \<open>todo\<close> those from it on. New
  attach points go to the end of the vector, and are parsed when the index gets there. \<open>errs\<close> are the
  errors added to attach points.
\<close>

partial_function (option) parse_loop ::
  "parse_env \<Rightarrow> bool \<Rightarrow> attach_point list \<Rightarrow> attach_point list \<Rightarrow> string list \<Rightarrow>
   (attach_point list \<times> string list) option" where
  "parse_loop env has_iter finished todo errs =
     (case todo of
        [] \<Rightarrow> Some (finished, errs)
      | ap # rest \<Rightarrow>
          (case parse_attachpoint env has_iter ap of
             None \<Rightarrow> None
           | Some (it, ap', st) \<Rightarrow>
               (case st of
                  AP_ok \<Rightarrow> parse_loop env it (finished @ [ap']) rest errs
                | AP_invalid e \<Rightarrow> parse_loop env it (finished @ [ap']) rest (errs @ [e])
                | AP_skip \<Rightarrow> parse_loop env it finished rest errs
                | AP_new aps \<Rightarrow> parse_loop env it finished (rest @ aps) errs)))"

definition parse_probe :: "parse_env \<Rightarrow> attach_point list \<Rightarrow> (attach_point list \<times> string list) option" where
  "parse_probe env aps =
     map_option (\<lambda>(aps', errs).
       let kept = filter (\<lambda>ap. provider ap \<noteq> []) aps'
       in (kept, errs @ (if kept = [] then [''No attach points for probe''] else [])))
     (parse_loop env False [] aps [])"

text \<open>\<open>parse\<close> over the probes of the program, with the number of failures it returns.\<close>

fun parse_probes ::
  "parse_env \<Rightarrow> attach_point list list \<Rightarrow> (attach_point list list \<times> string list) option" where
  "parse_probes env [] = Some ([], [])"
| "parse_probes env (p # ps) =
     (case parse_probe env p of
        None \<Rightarrow> None
      | Some (p', e) \<Rightarrow> map_option (\<lambda>(ps', es). (p' # ps', e @ es)) (parse_probes env ps))"

definition parse_program ::
  "parse_env \<Rightarrow> attach_point list list option \<Rightarrow> (nat \<times> attach_point list list \<times> string list) option" where
  "parse_program env root =
     (case root of
        None \<Rightarrow> Some (1, [], [])
      | Some probes \<Rightarrow> map_option (\<lambda>(ps, es). (length es, ps, es)) (parse_probes env probes))"

section \<open>One step of the lexer\<close>

lemma lex_Nil: "lex ps [] q a parts = Some (Lexed (parts @ [a]))"
  by (subst lex.simps) simp

lemma lex_colon: "lex ps (CHR '':'' # r) False a parts = lex ps r False [] (parts @ [a])"
  by (subst lex.simps) simp

lemma lex_dquote: "lex ps (CHR 0x22 # r) q a parts = lex ps r (\<not> q) a parts"
  by (subst lex.simps) simp

lemma lex_escape: "lex ps (CHR 0x5C # c # r) True a parts = lex ps r True (a @ [c]) parts"
  by (subst lex.simps) simp

definition lex_plain :: "bool \<Rightarrow> char \<Rightarrow> bool" where
  "lex_plain q c \<longleftrightarrow> c \<noteq> CHR 0x22 \<and> (if q then c \<noteq> CHR 0x5C else c \<noteq> CHR '':'' \<and> c \<noteq> CHR ''$'')"

lemma lex_char: "lex_plain q c \<Longrightarrow> lex ps (c # r) q a parts = lex ps r q (a @ [c]) parts"
  by (subst lex.simps) (auto simp: lex_plain_def split: if_splits)

lemma lex_backslash_end: "lex ps [CHR 0x5C] q a parts = Some (Lexed (parts @ [a @ [CHR 0x5C]]))"
  by (subst lex.simps) (simp add: lex_Nil)

lemma lex_dollar:
  "lex ps (CHR ''$'' # r) False a parts =
    (if param_digits r = [] \<and> r \<noteq> [] then Some (Lex_error (invalid_param_error (hd r)))
     else (case to_uint (param_digits r) 10 of
             Inl e \<Rightarrow> Some (Lex_error (''positional parameter is not valid: '' @ num_error_str e @ [CHR 0x0A]))
           | Inr i \<Rightarrow>
               (case get_param ps i of
                  None \<Rightarrow> Some Lex_throws
                | Some p \<Rightarrow> lex ps (p @ drop (length (param_digits r)) r) False a parts)))"
  by (subst lex.simps) simp

lemmas lex_steps = lex_Nil lex_colon lex_dquote lex_escape

lemma lex_string: "list_all (lex_plain q) s \<Longrightarrow> lex ps (s @ r) q a parts = lex ps r q (a @ s) parts"
  by (induction s arbitrary: a) (simp_all add: lex_char)

section \<open>Quoting\<close>

text \<open>How a script writes any text as one part: in double quotes, with quotes and backslashes escaped.\<close>

fun escape :: "string \<Rightarrow> string" where
  "escape [] = []"
| "escape (c # cs) = (if c = CHR 0x22 \<or> c = CHR 0x5C then [CHR 0x5C, c] else [c]) @ escape cs"

definition quoted :: "string \<Rightarrow> string" where
  "quoted s = [CHR 0x22] @ escape s @ [CHR 0x22]"

lemma lex_escaped: "lex ps (escape s @ r) True a parts = lex ps r True (a @ s) parts"
proof (induction s arbitrary: a)
  case (Cons c s)
  then show ?case
    by (cases "c = CHR 0x22 \<or> c = CHR 0x5C") (auto simp: lex_escape lex_char lex_plain_def)
qed simp

lemma lex_quoted: "lex ps (quoted s @ r) False a parts = lex ps r False (a @ s) parts"
  by (simp add: quoted_def lex_dquote lex_escaped)

lemma lex_quoted_parts:
  "ss \<noteq> [] \<Longrightarrow> lex ps (str_join (map quoted ss) '':'') False [] parts = Some (Lexed (parts @ ss))"
proof (induction ss arbitrary: parts rule: induct_list012)
  case (2 s)
  have "lex ps (quoted s @ []) False [] parts = Some (Lexed (parts @ [s]))"
    by (simp only: lex_quoted lex_Nil append_Nil)
  then show ?case by simp
next
  case (3 s t ss)
  then show ?case by (simp add: lex_quoted lex_colon)
qed simp

section \<open>The lexer ends when no parameter mentions a parameter\<close>

definition closed_params :: "string list \<Rightarrow> bool" where
  "closed_params ps \<longleftrightarrow> list_all (\<lambda>p. CHR ''$'' \<notin> set p) ps"

lemma digit_char_digit_val: "is_digit c \<Longrightarrow> digit_char (digit_val c) = c"
  by (subst char_code_inject [symmetric])
    (simp add: digit_val_def is_digit_def digit_char_def char_code_chr_of del: char_code_inject)

lemma show_nat_onto:
  "ds \<noteq> [] \<Longrightarrow> list_all is_digit ds \<Longrightarrow> hd ds \<noteq> CHR ''0'' \<Longrightarrow> \<exists>n > 0. ds = show_nat n"
proof (induction ds rule: rev_induct)
  case (snoc c xs)
  let ?d = "digit_val c"
  from snoc.prems have c: "is_digit c" by simp
  show ?case
  proof (cases "xs = []")
    case True
    with snoc.prems c have "?d \<noteq> 0" by (metis append_Nil digit_char_0 digit_char_digit_val list.sel(1))
    with True c show ?thesis
      by (intro exI [of _ ?d]) (simp add: digit_val_digit digit_char_digit_val)
  next
    case False
    with snoc obtain m where m: "0 < m" "xs = show_nat m" by auto
    with c have "show_nat (10 * m + ?d) = xs @ [c]"
      using digit_val_digit [OF c] by (subst show_nat_step) (simp_all add: digit_char_digit_val)
    with m show ?thesis by (intro exI [of _ "10 * m + ?d"]) simp
  qed
qed simp

lemma to_uint_10:
  "to_uint (show_nat n) 10 = (if n \<le> u64_max then Inr n else Inl (OverflowError (show_nat n) u64_max))"
proof -
  have "c_str (show_nat n) = show_nat n" using c_str_show_nat [of n "[]"] by (simp add: c_str_def)
  with strtoull_show_nat_10 [of "[]" n] show ?thesis
    by (simp add: to_uint_based parse_uint_def exponent_follows_def apply_suffix_def int_config_def)
qed

lemma to_uint_10_Nil: "to_uint [] 10 = Inl (NumberFormatError ''invalid integer'' [])"
  by (simp add: to_uint_eval)

lemma param_digits_positive: "to_uint (param_digits r) 10 = Inr i \<Longrightarrow> 0 < i"
proof (cases "param_digits r = []")
  case False
  moreover have "list_all is_digit (param_digits r)"
    by (auto simp: param_digits_def list_all_iff dest: set_takeWhileD)
  moreover from False have "hd (param_digits r) \<noteq> CHR ''0''"
    by (cases r) (auto simp: param_digits_def split: if_splits)
  ultimately obtain n where "0 < n" "param_digits r = show_nat n" using show_nat_onto by blast
  moreover assume "to_uint (param_digits r) 10 = Inr i"
  ultimately show ?thesis by (simp add: to_uint_10 split: if_splits)
qed (simp add: to_uint_10_Nil)

lemma get_param_positive: "0 < i \<Longrightarrow> get_param ps i \<noteq> None"
  by (simp add: get_param_def)

lemma lex_ends:
  assumes "closed_params ps"
  shows "\<exists>r. lex ps raw q a parts = Some r \<and> r \<noteq> Lex_throws"
proof (induction raw arbitrary: q a parts
    rule: wf_induct_rule [OF wf_inv_image [OF wf_lex_prod [OF wf_less_than wf_less_than]],
      of "\<lambda>r. (count_list r (CHR ''$''), length r)"])
  case (1 raw)
  have step: "\<exists>r. lex ps s q a parts = Some r \<and> r \<noteq> Lex_throws"
    if "count_list s (CHR ''$'') < count_list raw (CHR ''$'') \<or>
        (count_list s (CHR ''$'') = count_list raw (CHR ''$'') \<and> length s < length raw)" for s q a parts
    by (rule 1) (use that in auto)
  show ?case
  proof (cases raw)
    case Nil
    then show ?thesis by (simp add: lex_Nil)
  next
    case (Cons c r)
    consider "c = CHR ''$'' \<and> \<not> q" | "q \<and> c = CHR 0x5C" | "c = CHR '':'' \<and> \<not> q" | "c = CHR 0x22" | "lex_plain q c"
      by (metis lex_plain_def)
    then show ?thesis
    proof cases
      case 1
      have "\<exists>s. lex ps (p @ drop n r) False a parts = Some s \<and> s \<noteq> Lex_throws" if "get_param ps i = Some p" for p i n
      proof (rule step)
        have "CHR ''$'' \<notin> set p"
          using that assms by (auto simp: get_param_def closed_params_def list_all_length split: if_splits)
        then have "count_list (p @ drop n r) (CHR ''$'') \<le> count_list r (CHR ''$'')"
          by (metis add_0 append_take_drop_id count_list_0_iff count_list_append le_add2)
        then show "count_list (p @ drop n r) (CHR ''$'') < count_list raw (CHR ''$'') \<or>
          (count_list (p @ drop n r) (CHR ''$'') = count_list raw (CHR ''$'') \<and> length (p @ drop n r) < length raw)"
          using Cons 1 by simp
      qed
      then show ?thesis using Cons 1 get_param_positive [OF param_digits_positive]
        by (fastforce simp: lex_dollar split: sum.split option.split)
    next
      case 2
      show ?thesis
      proof (cases r)
        case Nil
        with Cons 2 show ?thesis by (simp add: lex_backslash_end)
      next
        case (Cons d s)
        with \<open>raw = c # r\<close> 2 show ?thesis by (auto simp: lex_escape intro!: step split: if_splits)
      qed
    next
      case 3
      with Cons show ?thesis by (auto simp: lex_colon intro!: step)
    next
      case 4
      with Cons show ?thesis by (auto simp: lex_dquote intro!: step)
    next
      case 5
      with Cons show ?thesis by (auto simp: lex_char intro!: step)
    qed
  qed
qed

section \<open>Parts the lexer has finished stay\<close>

lemma lex_keeps_parts:
  assumes "lex ps raw q a parts = Some r"
  shows "\<forall>res. r = Lexed res \<longrightarrow> (\<exists>more. res = parts @ more \<and> more \<noteq> [])"
proof (rule lex.raw_induct [where P = "\<lambda>ps raw q a parts r.
      \<forall>res. r = Lexed res \<longrightarrow> (\<exists>more. res = parts @ more \<and> more \<noteq> [])", OF _ assms], goal_cases)
  case (1 f ps raw q a parts r)
  show ?case
  proof (cases raw)
    case Nil
    with 1(2) show ?thesis by auto
  next
    case (Cons c rest)
    with 1(2) show ?thesis
      by (auto split: if_splits sum.splits option.splits dest!: 1(1))
  qed
qed

lemma lexed_nonempty: "lex ps raw q a parts = Some (Lexed res) \<Longrightarrow> res \<noteq> []"
  using lex_keeps_parts by fastforce

section \<open>The probe types of a wildcard\<close>

lemma wildcard_tokens_start:
  "s \<noteq> [] \<Longrightarrow> get_wildcard_tokens s sw ew = (tokens, sw', ew') \<Longrightarrow> tokens = [] \<Longrightarrow> sw'"
proof -
  assume a: "s \<noteq> []" "get_wildcard_tokens s sw ew = (tokens, sw', ew')" "tokens = []"
  show sw'
  proof (rule ccontr)
    assume "\<not> sw'"
    with a have "hd s \<noteq> CHR ''*''" by (simp add: get_wildcard_tokens_def)
    with a(1) have "takeWhile (\<lambda>c. c \<noteq> CHR ''*'') s \<noteq> []" by (cases s) auto
    moreover have "takeWhile (\<lambda>c. c \<noteq> CHR ''*'') s \<in> set (getline_all (CHR ''*'') s)"
      using a(1) by (subst getline_all.simps) simp
    ultimately show False using a by (auto simp: get_wildcard_tokens_def split_string_def filter_empty_conv)
  qed
qed

lemma set_set_insert [simp]: "set (set_insert x xs) = insert x (set xs)"
  by (induction xs) (auto split: ordering.splits)

lemma matches_in_defined:
  assumes "tokens = [] \<longrightarrow> sw"
  shows "\<exists>ms. matches_in tokens sw ew stream acc = Some ms \<and> set ms \<subseteq> set acc \<union> set stream"
proof (induction stream arbitrary: acc)
  case (Cons line stream)
  from assms have "wildcard_match line tokens sw ew \<noteq> None"
    by (auto simp: wildcard_match_def split: option.splits)
  with Cons [of acc] Cons [of "set_insert line acc"] show ?case
    by (auto split: option.splits bool.splits)
qed simp

lemma get_matches_defined:
  assumes "has_wildcard s"
  shows "\<exists>ms. get_matches_in_stream s stream = Some ms \<and> set ms \<subseteq> set stream"
proof -
  obtain tokens sw ew where t: "get_wildcard_tokens s False False = (tokens, sw, ew)" by (metis prod_cases3)
  moreover from assms have "s \<noteq> []" by (auto simp: has_wildcard_def str_find_def)
  ultimately have "tokens = [] \<longrightarrow> sw" by (metis wildcard_tokens_start)
  from matches_in_defined [OF this, of ew stream "[]"] t show ?thesis
    by (auto simp: get_matches_in_stream_def)
qed

lemma probe_types_defined:
  "\<exists>pts. probe_types_of env parts = Some pts \<and>
    (if has_wildcard (hd parts) then set pts \<subseteq> set kernel_probe_list \<union> set userspace_probe_list else pts = [hd parts])"
proof (cases "has_wildcard (hd parts)")
  case True
  define query where "query = (if length parts = 1 then ''*'' else hd parts)"
  have "has_wildcard ''*''" by (simp add: has_wildcard_def str_find_def)
  with True have "has_wildcard query" by (simp add: query_def)
  then have "\<exists>pts. expand_probetype_kernel query = Some pts \<and> set pts \<subseteq> set kernel_probe_list"
    "\<exists>pts. expand_probetype_userspace query = Some pts \<and> set pts \<subseteq> set userspace_probe_list"
    by (simp_all add: expand_probetype_kernel_def expand_probetype_userspace_def get_matches_defined)
  then show ?thesis
    using True unfolding probe_types_of_def Let_def query_def [symmetric] by (auto split: if_splits)
qed (simp add: probe_types_of_def)

lemma parse_parts_defined: "\<exists>r. parse_parts env it ap parts = Some r"
  using probe_types_defined [of env parts]
  by (auto simp: parse_parts_def simp del: split_paired_Ex split: option.splits list.splits)

lemma parse_attachpoint_defined:
  assumes "closed_params (env_params env)"
  shows "\<exists>r. parse_attachpoint env it ap = Some r"
proof -
  from lex_ends [OF assms] obtain r where r: "lex_attachpoint (env_params env) (raw_input ap) = Some r" "r \<noteq> Lex_throws"
    unfolding lex_attachpoint_def by blast
  show ?thesis
  proof (cases r)
    case (Lexed parts)
    with r show ?thesis using parse_parts_defined by (simp add: parse_attachpoint_def del: split_paired_Ex)
  qed (use r in \<open>simp_all add: parse_attachpoint_def\<close>)
qed

section \<open>Which attach points are replaced\<close>

fun is_new :: "ap_state \<Rightarrow> bool" where
  "is_new (AP_new aps) = True"
| "is_new st = False"

named_theorems ap_defs

lemmas [ap_defs] =
  count_error_def argument_count_error_def skip_or_count_error_def special_parser_def test_parser_def
  benchmark_parser_def parse_offset_def kprobe_parser_def kretprobe_parser_def uprobe_parser_def
  uretprobe_parser_def usdt_parser_def tracepoint_parser_def frequency_parser_def event_parser_def
  software_parser_def hardware_parser_def watchpoint_address_def watchpoint_parser_def fentry_bpf_def
  fentry_parser_def iter_parser_def raw_tracepoint_parser_def

lemma count_error_not_new [simp]:
  "\<not> is_new (snd (count_error ap parts e e2))" "\<not> is_new (snd (skip_or_count_error ap parts e e2))"
  by (simp_all add: ap_defs)

lemma parse_offset_not_new [simp]: "\<not> is_new (snd (parse_offset b f ap))"
  by (simp add: parse_offset_def Let_def split: sum.split)

lemma watchpoint_address_not_new [simp]: "\<not> is_new (snd (watchpoint_address ap s))"
  by (simp add: watchpoint_address_def Let_def split: sum.split)

lemma dispatch_not_new: "\<not> is_new (snd (snd (dispatch env it ap parts)))"
proof -
  have k: "\<not> is_new (snd (kprobe_parser b ap parts))" for b by (simp add: kprobe_parser_def Let_def)
  have u: "\<not> is_new (snd (uprobe_parser env b c ap parts))" for b c
    by (simp add: uprobe_parser_def Let_def split: sum.split)
  have f: "\<not> is_new (snd (frequency_parser ap parts))"
    by (simp add: frequency_parser_def Let_def split: sum.split)
  have e: "\<not> is_new (snd (event_parser ap parts))" by (simp add: event_parser_def Let_def split: sum.split)
  have w: "\<not> is_new (snd (watchpoint_parser env b ap parts))" for b
  proof -
    obtain a st where a: "watchpoint_address ap (parts ! 1) = (a, st)" by fastforce
    have "\<not> is_new st" using watchpoint_address_not_new [of ap "parts ! 1"] unfolding a snd_conv .
    with a show ?thesis by (cases st) (simp_all add: watchpoint_parser_def count_error_def
          argument_count_error_def split: sum.split)
  qed
  have n: "\<not> is_new (snd (fentry_parser env ap parts))"
    by (simp add: fentry_parser_def fentry_bpf_def Let_def split: sum.split list.split)
  have i: "\<not> is_new (snd (snd (iter_parser env it ap parts)))" by (simp add: iter_parser_def Let_def)
  have rest: "\<not> is_new (snd (special_parser ap parts))" "\<not> is_new (snd (test_parser ap parts))"
    "\<not> is_new (snd (benchmark_parser ap parts))" "\<not> is_new (snd (usdt_parser env ap parts))"
    "\<not> is_new (snd (tracepoint_parser ap parts))" "\<not> is_new (snd (raw_tracepoint_parser ap parts))"
    by (simp_all add: special_parser_def test_parser_def benchmark_parser_def usdt_parser_def
        tracepoint_parser_def raw_tracepoint_parser_def Let_def)
  show ?thesis
    unfolding dispatch_def
    using k u f e w n i rest
    by (auto simp: kretprobe_parser_def uretprobe_parser_def software_parser_def hardware_parser_def
        split: probe_type.split)
qed

lemma dispatch_new_simp [simp]: "dispatch env it ap parts \<noteq> (x, y, AP_new z)"
  using dispatch_not_new [of env it ap parts] by fastforce

definition settled :: "parse_env \<Rightarrow> attach_point \<Rightarrow> bool" where
  "settled env ap \<longleftrightarrow> (\<forall>it it' ap' st. parse_attachpoint env it ap = Some (it', ap', st) \<longrightarrow> \<not> is_new st)"

lemma probe_names_plain:
  "pt \<in> set kernel_probe_list \<union> set userspace_probe_list \<Longrightarrow>
    list_all (lex_plain False) pt \<and> \<not> has_wildcard pt \<and> pt \<noteq> []"
  by (auto simp: kernel_probe_list_def userspace_probe_list_def probe_list_def item_def lex_plain_def
      has_wildcard_def str_find_def)

lemma lexed_front:
  assumes "list_all (lex_plain False) pt" "lex_attachpoint ps (pt @ CHR '':'' # s) = Some (Lexed res)"
  shows "hd res = pt"
proof -
  from assms have "lex ps s False [] [pt] = Some (Lexed res)"
    by (simp add: lex_attachpoint_def lex_string lex_colon)
  from lex_keeps_parts [OF this] show ?thesis by auto
qed

lemma replacement_settled:
  assumes "pt \<in> set kernel_probe_list \<union> set userspace_probe_list"
  shows "settled env (replacement ap parts pt)"
  unfolding settled_def
proof (intro allI impI notI)
  fix it it' ap' st
  assume p: "parse_attachpoint env it (replacement ap parts pt) = Some (it', ap', st)" and new: "is_new st"
  then obtain res where l: "lex_attachpoint (env_params env) (raw_input (replacement ap parts pt)) = Some (Lexed res)"
    and pp: "parse_parts env it (replacement ap parts pt) res = Some (it', ap', st)"
    by (auto simp: parse_attachpoint_def split: option.splits lex_result.splits)
  from l have "hd res = pt"
    using probe_names_plain [OF assms] by (auto simp: replacement_def new_attach_point_def intro: lexed_front split: if_splits)
  with probe_names_plain [OF assms] have "probe_types_of env res = Some [pt]" by (simp add: probe_types_of_def)
  with pp new show False
    using dispatch_not_new [of env it "(replacement ap parts pt)\<lparr>provider := expand_probe_name pt\<rparr>" res]
    by (auto simp: parse_parts_def split: if_splits)
qed

lemma new_attachpoints_settled:
  assumes "parse_attachpoint env it ap = Some (it', ap', AP_new aps)"
  shows "it' = it \<and> \<not> settled env ap \<and> (\<forall>a \<in> set aps. settled env a)"
proof -
  from assms have "\<not> settled env ap" unfolding settled_def by fastforce
  moreover from assms obtain parts where "parse_parts env it ap parts = Some (it', ap', AP_new aps)"
    by (auto simp: parse_attachpoint_def split: option.splits lex_result.splits)
  then obtain pts where pts: "probe_types_of env parts = Some pts" "it' = it" "length pts \<ge> 2"
    "aps = map (replacement ap parts) pts"
    by (auto simp: parse_parts_def split: if_splits option.splits list.splits)
  moreover from probe_types_defined [of env parts] pts(1,3)
  have "set pts \<subseteq> set kernel_probe_list \<union> set userspace_probe_list" by (auto split: if_splits)
  ultimately show ?thesis by (auto intro: replacement_settled)
qed

section \<open>The loop over the attach points ends\<close>

lemma parse_loop_ends:
  assumes "closed_params (env_params env)"
  shows "\<exists>r. parse_loop env it finished todo errs = Some r"
proof (induction todo arbitrary: it finished errs
    rule: wf_induct_rule [OF wf_inv_image [OF wf_lex_prod [OF wf_less_than wf_less_than]],
      of "\<lambda>aps. (length (filter (\<lambda>a. \<not> settled env a) aps), length aps)"])
  case (1 todo)
  show ?case
  proof (cases todo)
    case Nil
    then show ?thesis by (subst parse_loop.simps) simp
  next
    case (Cons ap rest)
    from parse_attachpoint_defined [OF assms] obtain it' ap' st
      where p: "parse_attachpoint env it ap = Some (it', ap', st)" by (metis prod_cases3)
    have step: "\<exists>r. parse_loop env it' fin rest errs' = Some r" for fin errs'
      by (rule 1) (auto simp: Cons)
    show ?thesis
    proof (cases st)
      case (AP_new aps)
      with new_attachpoints_settled p have s: "\<not> settled env ap" "\<forall>a \<in> set aps. settled env a" by blast+
      then have "filter (\<lambda>a. \<not> settled env a) aps = []" by (simp add: filter_empty_conv)
      with s have "\<exists>r. parse_loop env it' finished (rest @ aps) errs = Some r"
        by (intro 1) (simp add: Cons)
      with Cons p AP_new show ?thesis by (subst parse_loop.simps) simp
    qed (use Cons p step in \<open>subst parse_loop.simps; simp\<close>)+
  qed
qed

section \<open>What a parsed attach point is\<close>

definition ap_type :: "attach_point \<Rightarrow> probe_type" where
  "ap_type ap = probetype (provider ap)"

lemma provider_kept [simp]:
  "provider (fst (count_error ap parts e e2)) = provider ap"
  "provider (fst (skip_or_count_error ap parts e e2)) = provider ap"
  "provider (fst (parse_offset b f ap)) = provider ap"
  "provider (fst (watchpoint_address ap f)) = provider ap"
  by (simp_all add: count_error_def skip_or_count_error_def parse_offset_def watchpoint_address_def Let_def
      split: sum.split)

lemma dispatch_provider: "provider (fst (snd (dispatch env it ap parts))) = provider ap"
proof -
  have k: "provider (fst (kprobe_parser b ap parts)) = provider ap" for b by (simp add: kprobe_parser_def Let_def)
  have u: "provider (fst (uprobe_parser env b c ap parts)) = provider ap" for b c
    by (simp add: uprobe_parser_def Let_def split: sum.split)
  have f: "provider (fst (frequency_parser ap parts)) = provider ap"
    by (simp add: frequency_parser_def Let_def split: sum.split)
  have e: "provider (fst (event_parser ap parts)) = provider ap"
    by (simp add: event_parser_def Let_def split: sum.split)
  have w: "provider (fst (watchpoint_parser env b ap parts)) = provider ap" for b
  proof -
    obtain a st where a: "watchpoint_address ap (parts ! 1) = (a, st)" by fastforce
    have "provider a = provider ap" using provider_kept(4) [of ap "parts ! 1"] unfolding a fst_conv .
    with a show ?thesis
      by (cases st) (simp_all add: watchpoint_parser_def count_error_def split: sum.split)
  qed
  have n: "provider (fst (fentry_parser env ap parts)) = provider ap"
    by (simp add: fentry_parser_def fentry_bpf_def Let_def split: sum.split list.split)
  have i: "provider (fst (snd (iter_parser env it ap parts))) = provider ap" by (simp add: iter_parser_def Let_def)
  have rest: "provider (fst (special_parser ap parts)) = provider ap" "provider (fst (test_parser ap parts)) = provider ap"
    "provider (fst (benchmark_parser ap parts)) = provider ap" "provider (fst (usdt_parser env ap parts)) = provider ap"
    "provider (fst (tracepoint_parser ap parts)) = provider ap" "provider (fst (raw_tracepoint_parser ap parts)) = provider ap"
    by (simp_all add: special_parser_def test_parser_def benchmark_parser_def usdt_parser_def
        tracepoint_parser_def raw_tracepoint_parser_def Let_def)
  show ?thesis
    unfolding dispatch_def
    using k u f e w n i rest
    by (auto simp: kretprobe_parser_def uretprobe_parser_def software_parser_def hardware_parser_def
        split: probe_type.split)
qed

text \<open>The flag for iterators: it is never reset, only iterators set it, and without listing a second one fails.\<close>

lemma dispatch_iter:
  assumes "dispatch env it ap parts = (it', ap', st)"
  shows "(it \<longrightarrow> it') \<and> (ap_type ap = PT_iter \<and> st = AP_ok \<longrightarrow> it' \<and> (env_listing env \<or> \<not> it)) \<and>
    (ap_type ap = PT_invalid \<longrightarrow> st \<noteq> AP_ok)"
  using assms
  by (cases "ap_type ap")
    (auto simp: dispatch_def iter_parser_def ap_type_def Let_def split: if_splits)

lemma parse_attachpoint_ok:
  assumes "parse_attachpoint env it ap = Some (it', ap', st)"
  shows "(it \<longrightarrow> it') \<and> (st = AP_ok \<longrightarrow> (provider ap' = [] \<or> ap_type ap' \<noteq> PT_invalid) \<and>
    (ap_type ap' = PT_iter \<longrightarrow> it' \<and> (env_listing env \<or> \<not> it)))"
proof -
  have "ap_type ap' = PT_invalid" if "provider ap' = []"
    using that by (simp add: ap_type_def probetype_def probe_list_def item_def item_named_def to_lower_def)
  moreover have ?thesis if "dispatch env it a parts = (it', ap', st)" for a parts
  proof -
    from that dispatch_provider [of env it a parts] have "ap_type ap' = ap_type a" by (simp add: ap_type_def)
    with dispatch_iter [OF that] show ?thesis by auto
  qed
  ultimately show ?thesis using assms
    by (auto simp: parse_attachpoint_def parse_parts_def split: option.splits lex_result.splits list.splits if_splits)
qed

definition iter_count :: "attach_point list \<Rightarrow> nat" where
  "iter_count aps = length (filter (\<lambda>a. ap_type a = PT_iter) aps)"

definition well_typed :: "attach_point list \<Rightarrow> bool" where
  "well_typed aps \<longleftrightarrow> list_all (\<lambda>a. provider a = [] \<or> ap_type a \<noteq> PT_invalid) aps"

definition loop_post :: "parse_env \<Rightarrow> bool \<Rightarrow> attach_point list \<Rightarrow> string list \<Rightarrow> attach_point list \<times> string list \<Rightarrow> bool" where
  "loop_post env it finished errs r \<longleftrightarrow>
     (case r of (res, errs') \<Rightarrow>
       (\<exists>more. errs' = errs @ more) \<and>
       (errs' = [] \<and> \<not> env_listing env \<and> iter_count finished \<le> (if it then 1 else 0) \<longrightarrow> iter_count res \<le> 1) \<and>
       (errs' = [] \<and> well_typed finished \<longrightarrow> well_typed res))"

lemma loop_post_step:
  assumes "parse_attachpoint env it ap = Some (it', ap', AP_ok)" "loop_post env it' (finished @ [ap']) errs r"
  shows "loop_post env it finished errs r"
  using parse_attachpoint_ok [OF assms(1)] assms(2)
  by (auto simp: loop_post_def iter_count_def well_typed_def split: prod.splits if_splits)

lemma loop_post_keep:
  assumes "parse_attachpoint env it ap = Some (it', ap', st)" "loop_post env it' finished errs r"
  shows "loop_post env it finished errs r"
  using parse_attachpoint_ok [OF assms(1)] assms(2)
  by (auto simp: loop_post_def split: prod.splits if_splits)

lemma loop_post_error: "loop_post env it' finished' (errs @ [e]) r \<Longrightarrow> loop_post env it finished errs r"
  by (auto simp: loop_post_def split: prod.splits)

lemma parse_loop_post:
  assumes "parse_loop env it finished todo errs = Some r"
  shows "loop_post env it finished errs r"
proof (rule parse_loop.raw_induct [where P = "\<lambda>env it finished todo errs r. loop_post env it finished errs r",
      OF _ assms], goal_cases)
  case (1 f env it finished todo errs r)
  show ?case
  proof (cases todo)
    case Nil
    with 1(2) show ?thesis by (auto simp: loop_post_def iter_count_def split: if_splits)
  next
    case (Cons ap rest)
    with 1(2) obtain it' ap' st where p: "parse_attachpoint env it ap = Some (it', ap', st)"
      by (auto split: option.splits)
    with Cons 1(2) show ?thesis
      by (cases st) (auto dest!: 1(1) intro: loop_post_step loop_post_keep loop_post_error)
  qed
qed

section \<open>Kernel probes as they are printed\<close>

text \<open>A kernel probe on a function, with an optional module and an optional offset.\<close>

definition kprobe_ap :: "string \<Rightarrow> string \<Rightarrow> string \<Rightarrow> nat \<Rightarrow> bool \<Rightarrow> attach_point" where
  "kprobe_ap prov module f offset ign =
     (new_attach_point [] ign)\<lparr>provider := prov, target := module, func := f, func_offset := offset\<rparr>"

definition plain_name :: "string \<Rightarrow> bool" where
  "plain_name s \<longleftrightarrow> list_all (\<lambda>c. lex_plain False c \<and> c \<noteq> CHR ''+'') s"

lemma plain_name_lex: "plain_name s \<Longrightarrow> list_all (lex_plain False) s"
  by (auto simp: plain_name_def list_all_iff)

lemma show_nat_lex: "list_all (lex_plain False) (show_nat n)"
  by (auto simp: list_all_iff lex_plain_def is_digit_def char_code_def dest!: show_nat_digits)

lemma show_nat_no_plus: "CHR ''+'' \<notin> set (show_nat n)"
  by (auto simp: is_digit_def char_code_def dest!: show_nat_digits)

lemma split_offset:
  assumes "plain_name f" "f \<noteq> []"
  shows "split_string (f @ CHR ''+'' # show_nat n) (CHR ''+'') True = [f, show_nat n]"
proof -
  have "CHR ''+'' \<notin> set f" using assms(1) by (auto simp: plain_name_def list_all_iff)
  with assms(2) show ?thesis
    by (simp add: split_string_def getline_all_delim getline_all_last show_nat_no_plus)
qed

lemma parse_offset_printed:
  assumes "plain_name f" "f \<noteq> []" "n \<le> u64_max"
  shows "parse_offset True (f @ CHR ''+'' # show_nat n) ap = (ap\<lparr>func := f, func_offset := n\<rparr>, AP_ok)"
proof -
  have "CHR ''+'' \<notin> set f" using assms(1) by (auto simp: plain_name_def list_all_iff)
  then have "count_list (f @ CHR ''+'' # show_nat n) (CHR ''+'') = 1"
    using show_nat_no_plus [of n] by (simp add: count_list_0_iff)
  with assms show ?thesis by (simp add: parse_offset_def split_offset uint_reader.read_print)
qed

definition printed_func :: "string \<Rightarrow> nat \<Rightarrow> string" where
  "printed_func f n = f @ (if n \<noteq> 0 then CHR ''+'' # show_nat n else [])"

lemma kprobe_parser_printed:
  assumes "plain_name f" "f \<noteq> []" "n \<le> u64_max" "n \<noteq> 0 \<longrightarrow> allow"
    and "parts = pr # (if m = [] then [] else [m]) @ [printed_func f n]" "func_offset ap = 0" "target ap = []"
  shows "kprobe_parser allow ap parts = (ap\<lparr>target := m, func := f, func_offset := n\<rparr>, AP_ok)"
proof -
  have "count_list f (CHR ''+'') = 0" using assms(1) by (auto simp: plain_name_def list_all_iff count_list_0_iff)
  with assms show ?thesis
    by (cases "m = []"; cases "n = 0")
      (simp_all add: kprobe_parser_def printed_func_def parse_offset_printed)
qed

lemma lex_kprobe:
  assumes "list_all (lex_plain False) pr" "plain_name m" "plain_name f" "f \<noteq> []"
  shows "lex_attachpoint ps (pr @ name_part m @ CHR '':'' # printed_func f n) =
    Some (Lexed (pr # (if m = [] then [] else [m]) @ [printed_func f n]))"
proof -
  have "list_all (lex_plain False) (printed_func f n)"
    using plain_name_lex [OF assms(3)] show_nat_lex [of n] by (simp add: printed_func_def lex_plain_def)
  from lex_string [OF this, of ps "[]"] lex_string [OF assms(1)] lex_string [OF plain_name_lex [OF assms(2)]]
  show ?thesis by (simp add: lex_attachpoint_def name_part_def lex_colon lex_Nil)
qed

lemma kprobe_names:
  "list_all (lex_plain False) ''kprobe''" "list_all (lex_plain False) ''kretprobe''"
  "\<not> has_wildcard ''kprobe''" "\<not> has_wildcard ''kretprobe''"
  "expand_probe_name ''kprobe'' = ''kprobe''" "expand_probe_name ''kretprobe'' = ''kretprobe''"
  "probetype ''kprobe'' = PT_kprobe" "probetype ''kretprobe'' = PT_kretprobe"
  by (simp_all add: lex_plain_def has_wildcard_def str_find_def expand_probe_name_def probe_list_def
      item_def item_named_def probetype_def to_lower_def char_lower_def is_upper_def char_code_def)

section \<open>Properties\<close>

text \<open>quoting protects any text: the parts of an attach point, each written between double quotes
  with its quotes and backslashes escaped, are what the lexer finds, whatever the positional
  parameters are.\<close>

theorem lex_quoted_roundtrip:
  assumes "ss \<noteq> []"
  shows "lex_attachpoint ps (str_join (map quoted ss) '':'') = Some (Lexed ss)"
  using lex_quoted_parts [OF assms, of ps "[]"] by (simp add: lex_attachpoint_def)

theorem lex_quoted_roundtrip_witness:
  "lex_attachpoint [] (str_join (map quoted [''uprobe'', ''/a:b'', ''$f'']) '':'') = Some (Lexed [''uprobe'', ''/a:b'', ''$f''])"
  using lex_quoted_roundtrip [of "[''uprobe'', ''/a:b'', ''$f'']" "[]"] by simp

text \<open>C22: parsing the attach points of a probe ends, with a result, whenever no positional parameter
  mentions another: the lexer stops, no lookup is out of range, and replacing a wildcarded probe type
  by its matches cannot go on forever.\<close>

theorem parse_probe_terminates:
  assumes "closed_params (env_params env)"
  shows "\<exists>aps' errs. parse_probe env aps = Some (aps', errs)"
  using parse_loop_ends [OF assms, of False "[]" aps "[]"] by (auto simp: parse_probe_def Let_def)

definition demo_env :: parse_env where
  "demo_env = \<lparr>env_listing = False, env_has_pid = False, env_params = [''vfs_read''], env_exe = [],
     env_which_so = (\<lambda>_. None), env_watch_path = None, env_func_modules = (\<lambda>_. [])\<rparr>"

theorem parse_probe_terminates_witness:
  "\<exists>aps' errs. parse_probe demo_env [new_attach_point ''kprobe:$1'' False] = Some (aps', errs)"
  by (rule parse_probe_terminates) (simp add: closed_params_def demo_env_def)

text \<open>a positional parameter that starts with itself makes the lexer run forever: it is expanded
  in place and read again.\<close>

theorem lex_self_reference_diverges:
  assumes "0 < i" "i \<le> u64_max" "i \<le> length ps" "ps ! (i - 1) = CHR ''$'' # show_nat i"
    and "t = [] \<or> \<not> is_digit (hd t)"
  shows "lex_attachpoint ps (CHR ''$'' # show_nat i @ t) = None"
proof (rule ccontr)
  let ?raw = "CHR ''$'' # show_nat i @ t"
  have d: "param_digits (show_nat i @ t) = show_nat i"
  proof -
    obtain c cs where c: "show_nat i = c # cs" "49 \<le> char_code c" using show_nat_Cons [of i] assms(1) by blast
    then have "hd (show_nat i @ t) \<noteq> CHR ''0''" by (auto simp: char_code_def)
    moreover have "takeWhile is_digit (show_nat i @ t) = show_nat i"
      using assms(5) by (subst takeWhile_append2) (auto dest: show_nat_digits simp: takeWhile_eq_Nil_iff)
    ultimately show ?thesis by (simp add: param_digits_def)
  qed
  have g: "get_param ps i = Some (CHR ''$'' # show_nat i)" using assms by (simp add: get_param_def)
  assume "lex_attachpoint ps ?raw \<noteq> None"
  then obtain r where r: "lex ps ?raw False [] [] = Some r" by (auto simp: lex_attachpoint_def)
  have no: "(ps', raw, q) \<noteq> (ps, ?raw, False)" if "lex ps' raw q a parts = Some r" for ps' raw q a parts r
  proof (rule lex.raw_induct [where P = "\<lambda>ps' raw q a parts r. (ps', raw, q) \<noteq> (ps, ?raw, False)",
        OF _ that], goal_cases)
    case (1 f ps' raw q a parts r)
    show ?case
    proof
      assume e: "(ps', raw, q) = (ps, ?raw, False)"
      have "to_uint (show_nat i) 10 = Inr i" using assms(2) by (simp add: to_uint_10)
      with 1(2) e d g have "f ps (CHR ''$'' # show_nat i @ t) False a parts = Some r" by simp
      from 1(1) [OF this] show False by simp
    qed
  qed
  from no [OF r] show False by simp
qed

theorem lex_self_reference_diverges_witness: "lex_attachpoint [''$1''] ''$1:x'' = None"
  using lex_self_reference_diverges [of 1 "[''$1'']" "'':x''"]
  by (simp add: is_digit_def char_code_def)

lemma kprobe_parses:
  assumes "prov = ''kprobe'' \<or> prov = ''kretprobe'' \<and> n = 0"
    and "plain_name m" "plain_name f" "f \<noteq> []" "n \<le> u64_max"
  shows "parse_attachpoint env it (new_attach_point (ap_name (kprobe_ap prov m f n ign)) ign) =
    Some (it, (kprobe_ap prov m f n ign)\<lparr>raw_input := ap_name (kprobe_ap prov m f n ign)\<rparr>, AP_ok)"
proof -
  let ?raw = "ap_name (kprobe_ap prov m f n ign)"
  let ?ap = "(new_attach_point ?raw ign)\<lparr>provider := prov\<rparr>"
  let ?parts = "prov # (if m = [] then [] else [m]) @ [printed_func f n]"
  have raw: "?raw = prov @ name_part m @ CHR '':'' # printed_func f n"
    using assms(4) by (simp add: ap_name_def kprobe_ap_def new_attach_point_def name_part_def num_part_def printed_func_def)
  have prov: "list_all (lex_plain False) prov" "\<not> has_wildcard prov" "prov \<noteq> []" "expand_probe_name prov = prov"
    using assms(1) kprobe_names by auto
  have "dispatch env it ?ap ?parts = (it, kprobe_parser (prov = ''kprobe'') ?ap ?parts)"
    using assms(1) kprobe_names(7,8) by (auto simp: dispatch_def kretprobe_parser_def)
  also have "\<dots> = (it, ?ap\<lparr>target := m, func := f, func_offset := n\<rparr>, AP_ok)"
    using assms by (subst kprobe_parser_printed [of f n _ _ prov m]) (auto simp: new_attach_point_def)
  finally have "parse_parts env it (new_attach_point ?raw ign) ?parts =
      Some (it, ?ap\<lparr>target := m, func := f, func_offset := n\<rparr>, AP_ok)"
    using prov by (simp add: parse_parts_def probe_types_of_def)
  moreover have "lex_attachpoint (env_params env) ?raw = Some (Lexed ?parts)"
    unfolding raw by (rule lex_kprobe) (use prov assms in auto)
  ultimately show ?thesis
    by (simp add: parse_attachpoint_def kprobe_ap_def new_attach_point_def)
qed

text \<open>a probe that parses without an error keeps at least one attach point, every attach point
  it keeps has a known probe type, and unless probes are only listed at most one of them is an
  iterator.\<close>

theorem parse_probe_result:
  assumes "parse_probe env aps = Some (res, [])"
  shows "res \<noteq> [] \<and> (\<forall>a \<in> set res. ap_type a \<noteq> PT_invalid) \<and> (env_listing env \<or> iter_count res \<le> 1)"
proof -
  from assms obtain all errs where l: "parse_loop env False [] aps [] = Some (all, errs)"
    and res: "res = filter (\<lambda>ap. provider ap \<noteq> []) all" "res \<noteq> []" "errs = []"
    by (auto simp: parse_probe_def Let_def split: if_splits)
  from parse_loop_post [OF l] res(3)
  have "well_typed all" "env_listing env \<or> iter_count all \<le> 1"
    by (auto simp: loop_post_def well_typed_def iter_count_def)
  moreover have "iter_count res \<le> iter_count all"
  proof -
    have "filter (\<lambda>a. ap_type a = PT_iter) res = filter (\<lambda>a. provider a \<noteq> []) (filter (\<lambda>a. ap_type a = PT_iter) all)"
      by (simp add: res(1) conj_commute)
    then show ?thesis unfolding iter_count_def by (metis length_filter_le)
  qed
  ultimately show ?thesis using res by (auto simp: well_typed_def list_all_iff)
qed

lemma parse_loop_one:
  assumes "parse_attachpoint env False ap = Some (it, ap', AP_ok)"
  shows "parse_loop env False [] [ap] [] = Some ([ap'], [])"
proof -
  have "parse_loop env it [ap'] [] [] = Some ([ap'], [])" by (subst parse_loop.simps) simp
  with assms show ?thesis by (subst parse_loop.simps) simp
qed

theorem parse_probe_result_witness:
  "\<exists>res. parse_probe demo_env [new_attach_point (ap_name (kprobe_ap ''kprobe'' [] ''vfs_read'' 16 False)) False]
      = Some (res, []) \<and> res \<noteq> [] \<and> (\<forall>a \<in> set res. ap_type a \<noteq> PT_invalid)
    \<and> (env_listing demo_env \<or> iter_count res \<le> 1)"
proof -
  let ?a = "new_attach_point (ap_name (kprobe_ap ''kprobe'' [] ''vfs_read'' 16 False)) False"
  have p: "parse_attachpoint demo_env False ?a =
    Some (False, (kprobe_ap ''kprobe'' [] ''vfs_read'' 16 False)
      \<lparr>raw_input := ap_name (kprobe_ap ''kprobe'' [] ''vfs_read'' 16 False)\<rparr>, AP_ok)"
    by (rule kprobe_parses) (simp_all add: plain_name_def lex_plain_def)
  have "\<exists>res. parse_probe demo_env [?a] = Some (res, [])"
    unfolding parse_probe_def parse_loop_one [OF p] by (simp add: kprobe_ap_def)
  then obtain res where r: "parse_probe demo_env [?a] = Some (res, [])" ..
  with parse_probe_result [OF r] show ?thesis by blast
qed

text \<open>C6: a kernel probe prints to an attach point that parses to it: module, function and offset
  come back, for every offset of 64 bits, and the attach point is accepted.\<close>

theorem kprobe_roundtrip:
  assumes "prov = ''kprobe'' \<or> prov = ''kretprobe'' \<and> n = 0"
    and "plain_name m" "plain_name f" "f \<noteq> []" "n \<le> u64_max"
  shows "parse_attachpoint env it (new_attach_point (ap_name (kprobe_ap prov m f n ign)) ign) =
    Some (it, (kprobe_ap prov m f n ign)\<lparr>raw_input := ap_name (kprobe_ap prov m f n ign)\<rparr>, AP_ok)"
  using assms by (rule kprobe_parses)

theorem kprobe_roundtrip_witness:
  "parse_attachpoint demo_env False
     (new_attach_point (ap_name (kprobe_ap ''kprobe'' [] ''vfs_read'' 16 False)) False) =
   Some (False, (kprobe_ap ''kprobe'' [] ''vfs_read'' 16 False)
     \<lparr>raw_input := ap_name (kprobe_ap ''kprobe'' [] ''vfs_read'' 16 False)\<rparr>, AP_ok)"
  by (rule kprobe_roundtrip) (simp_all add: plain_name_def lex_plain_def)

end
