(* ===== verification/Attach_Check.thy ===== *)
theory Attach_Check
  imports Attach_Parser Config "HOL-Library.Multiset"
begin

text \<open>
  The checks of parsed attach points, \<open>AttachPointChecker\<close> in
  \<open>src/ast/passes/attachpoint_passes.cpp\<close>, with the tables of \<open>src/probe_matcher.h\<close>.
\<close>

section \<open>Tables\<close>

text \<open>Path and alias of the software and hardware events; the perf constants are not needed here.\<close>

definition sw_probe_list :: "(string \<times> string) list" where
  "sw_probe_list =
     [(''alignment-faults'', []), (''bpf-output'', []), (''context-switches'', ''cs''), (''cpu-clock'', ''cpu''),
      (''cpu-migrations'', []), (''dummy'', []), (''emulation-faults'', []), (''major-faults'', []),
      (''minor-faults'', []), (''page-faults'', ''faults''), (''task-clock'', [])]"

definition hw_probe_list :: "(string \<times> string) list" where
  "hw_probe_list =
     [(''backend-stalls'', []), (''branch-instructions'', ''branches''), (''branch-misses'', []),
      (''bus-cycles'', []), (''cache-misses'', []), (''cache-references'', []), (''cpu-cycles'', ''cycles''),
      (''frontend-stalls'', []), (''instructions'', []), (''ref-cycles'', [])]"

definition time_units :: "string list" where
  "time_units = [''s'', ''ms'', ''us'', ''hz'']"

definition signals :: "string list" where
  "signals = [''SIGUSR1'']"

definition event_listed :: "(string \<times> string) list \<Rightarrow> string \<Rightarrow> bool" where
  "event_listed table t \<longleftrightarrow> list_ex (\<lambda>(path, alias). t = path \<or> (alias \<noteq> [] \<and> t = alias)) table"

section \<open>The checker\<close>

text \<open>
  What it asks of the run and the system. \<open>ck_uprobe_paths\<close> is the list of binaries of a uprobe's target,
  or the text of an error; \<open>ck_usdt_paths\<close> the same for USDT, which cannot fail; the last five are the
  BTF data, the iterators of the kernel, and the host's argument registers and watchpoint modes.
\<close>

record check_env =
  ck_listing :: bool
  ck_has_child :: bool
  ck_has_pid :: bool
  ck_missing :: missing_probes
  ck_traceable :: "string \<Rightarrow> bool"
  ck_uprobe_paths :: "string \<Rightarrow> string + string list"
  ck_usdt_paths :: "string \<Rightarrow> string list"
  ck_has_btf :: bool
  ck_iters :: "string list"
  ck_machine :: string
  ck_num_arguments :: nat
  ck_watch_modes :: "string list"

text \<open>The locations kept with the names of test and benchmark probes only show in messages.\<close>

record checker =
  has_begin :: bool
  has_end :: bool
  test_names :: "string list"
  bench_names :: "string list"

definition new_checker :: checker where
  "new_checker = \<lparr>has_begin = False, has_end = False, test_names = [], bench_names = []\<rparr>"

definition err_if :: "bool \<Rightarrow> string \<Rightarrow> string list" where
  "err_if b msg = (if b then [msg] else [])"

definition check_kprobe :: "check_env \<Rightarrow> attach_point \<Rightarrow> string list \<times> string list" where
  "check_kprobe ck ap =
     (err_if (func ap = []) ''kprobes should be attached to a function'',
      err_if (ck_missing ck \<noteq> Missing_ignore \<and> \<not> has_wildcard (func ap) \<and> \<not> ck_traceable ck (func ap))
        (func ap @ '' is not traceable (either non-existing, inlined, '' @ ''or marked as '' @
         [CHR 0x22] @ ''notrace'' @ [CHR 0x22] @ ''); attaching to it will likely fail''))"

text \<open>
  The target of a uprobe or USDT probe is replaced by the first binary found, unless it has a star.
  The result is the target, the errors and the warnings.
\<close>

definition resolve_target :: "string \<Rightarrow> string \<Rightarrow> string list \<Rightarrow> string \<times> string list \<times> string list" where
  "resolve_target kind t paths =
     (case paths of
        [] \<Rightarrow> (t, [kind @ '' target file '' @ quote t @ '' does not exist or is not executable''], [])
      | [p] \<Rightarrow> (if CHR ''*'' \<notin> set t then (p, [], []) else (t, [], []))
      | p # _ \<Rightarrow>
          if CHR ''*'' \<notin> set t then
            (p, [], [''attaching to '' @ kind @ '' target file '' @ quote p @ '' but matched '' @
                     show_nat (length paths) @ '' binaries''])
          else (t, [], []))"

definition check_uprobe :: "check_env \<Rightarrow> attach_point \<Rightarrow> attach_point \<times> string list \<times> string list" where
  "check_uprobe ck ap =
     (let errs = err_if (target ap = []) (provider ap @ '' should have a target'') @
            err_if (func ap = [] \<and> address ap = 0) (provider ap @ '' should be attached to a function and/or address'') @
            err_if (lang ap \<noteq> [] \<and> \<not> is_supported_lang (lang ap)) (''unsupported language type: '' @ lang ap) @
            err_if (provider ap = ''uretprobe'' \<and> func_offset ap \<noteq> 0)
              ''uretprobes can not be attached to a function offset''
      in (case ck_uprobe_paths ck (target ap) of
            Inl e \<Rightarrow> (ap, errs @ [''error finding uprobe target: '' @ e], [])
          | Inr paths \<Rightarrow>
              (case resolve_target ''uprobe'' (target ap) paths of
                 (t, es, ws) \<Rightarrow> (ap\<lparr>target := t\<rparr>, errs @ es, ws))))"

definition check_usdt :: "check_env \<Rightarrow> attach_point \<Rightarrow> attach_point \<times> string list \<times> string list" where
  "check_usdt ck ap =
     (let errs = err_if (func ap = []) ''usdt probe must have a target function or wildcard'';
          (t, es, ws) =
            (if target ap \<noteq> [] \<and> \<not> (ck_has_pid ck \<and> has_wildcard (target ap))
             then resolve_target ''usdt'' (target ap) (ck_usdt_paths ck (target ap)) else (target ap, [], []))
      in (ap\<lparr>target := t\<rparr>, errs @ es @
            err_if (\<not> ck_has_pid ck \<and> t \<noteq> ''*'' \<and> t = [])
              (''usdt probe must specify at least path or pid to '' @ ''probe. To target '' @
               ''all paths/pids set the path to '' @ quote ''*'' @ ''.''), ws))"

text \<open>Profile and interval probes.\<close>

definition check_timer :: "check_env \<Rightarrow> attach_point \<Rightarrow> string list" where
  "check_timer ck ap =
     (if target ap = [] then [provider ap @ '' probe must have unit of time'']
      else if \<not> ck_listing ck then
        err_if (\<not> List.member time_units (target ap)) (target ap @ '' is not an accepted unit of time'') @
        (if func ap \<noteq> [] then [provider ap @ '' probe must have an integer frequency'']
         else err_if (freq ap \<le> 0) (provider ap @ '' frequency should be a positive integer''))
      else [])"

text \<open>Software and hardware probes, which differ in the table and in two messages.\<close>

definition check_event :: "check_env \<Rightarrow> (string \<times> string) list \<Rightarrow> string \<Rightarrow> attach_point \<Rightarrow> string list" where
  "check_event ck table count_name ap =
     (if target ap = [] then [provider ap @ '' probe must have a '' @ provider ap @ '' event name'']
      else if \<not> has_wildcard (target ap) \<and> \<not> ignore_invalid ap then
        err_if (\<not> event_listed table (target ap)) (target ap @ '' is not a '' @ provider ap @ '' probe'')
      else err_if (\<not> ck_listing ck) (''wildcards are not allowed for '' @ provider ap @ '' probe type'')) @
     (if func ap \<noteq> [] then [provider ap @ '' probe can only have an integer count'']
      else err_if (freq ap < 0) (provider ap @ '' '' @ count_name @ '' should be a positive integer''))"

definition is_watch_mode :: "char \<Rightarrow> bool" where
  "is_watch_mode c \<longleftrightarrow> c = CHR ''r'' \<or> c = CHR ''w'' \<or> c = CHR ''x''"

text \<open>\<open>std::ranges::sort\<close> of the mode's characters.\<close>

definition sort_chars :: "string \<Rightarrow> string" where
  "sort_chars s = sort_key char_code s"

fun adjacent_equal :: "string \<Rightarrow> nat" where
  "adjacent_equal (a # b # cs) = (if a = b then 1 else 0) + adjacent_equal (b # cs)"
| "adjacent_equal s = 0"

definition check_watchpoint :: "check_env \<Rightarrow> attach_point \<Rightarrow> attach_point \<times> string list" where
  "check_watchpoint ck ap0 =
     (let errs =
            (if func ap0 \<noteq> [] then
               err_if (\<not> ck_has_pid ck \<and> \<not> ck_has_child ck) ''-p PID or -c CMD required for watchpoint'' @
               err_if (ck_num_arguments ck \<le> address ap0)
                 (ck_machine ck @ '' doesn'' @ [CHR 0x27] @ ''t support arg'' @ show_nat (address ap0))
             else if provider ap0 = ''asyncwatchpoint'' then [provider ap0 @ '' requires a function name'']
             else err_if (address ap0 = 0) ''watchpoint must be attached to a non-zero address'') @
            err_if (len ap0 \<notin> {1, 2, 4, 8}) ''watchpoint length must be one of (1,2,4,8)'' @
            err_if (mode ap0 = []) ''watchpoint mode must be combination of (r,w,x)'';
          ap = ap0\<lparr>mode := sort_chars (mode ap0)\<rparr>;
          m = mode ap
      in (ap, errs @
          map (\<lambda>_. ''watchpoint mode must be combination of (r,w,x)'') (filter (\<lambda>c. \<not> is_watch_mode c) m) @
          replicate (adjacent_equal m) ''watchpoint modes may not be duplicated'' @
          (if List.member (ck_watch_modes ck) m then []
           else if ck_watch_modes ck = [] then [''watchpoints not supported'']
           else [''invalid watchpoint mode: '' @ m])))"

definition check_begin_end :: "checker \<Rightarrow> attach_point \<Rightarrow> checker \<times> string list" where
  "check_begin_end st ap =
     (let errs = err_if (target ap \<noteq> [] \<or> func ap \<noteq> []) ''begin/end probes should not have a target''
      in if provider ap = ''begin'' then
           (st\<lparr>has_begin := True\<rparr>, errs @ err_if (has_begin st) ''More than one begin probe defined'')
         else (st\<lparr>has_end := True\<rparr>, errs @ err_if (has_end st) ''More than one end probe defined''))"

text \<open>\<open>std::unordered_map::emplace\<close> keeps an element that is there.\<close>

definition emplace :: "string \<Rightarrow> string list \<Rightarrow> string list" where
  "emplace x xs = (if List.member xs x then xs else xs @ [x])"

definition check_named :: "string \<Rightarrow> string \<Rightarrow> string list \<Rightarrow> attach_point \<Rightarrow> string list" where
  "check_named what kind names ap =
     err_if (target ap = []) (what @ '' probes must have a name'') @
     err_if (List.member names (target ap))
       ([CHR 0x22] @ target ap @ [CHR 0x22] @ '' was used as the name for more than one '' @ kind @ '' probe'')"

definition check_attach_point ::
  "check_env \<Rightarrow> checker \<Rightarrow> attach_point \<Rightarrow> checker \<times> attach_point \<times> string list \<times> string list" where
  "check_attach_point ck st ap =
     (let p = provider ap
      in if p = ''kprobe'' \<or> p = ''kretprobe'' then (st, ap, check_kprobe ck ap)
         else if p = ''uprobe'' \<or> p = ''uretprobe'' then (st, check_uprobe ck ap)
         else if p = ''usdt'' then (st, check_usdt ck ap)
         else if p = ''tracepoint'' then
           (st, ap, err_if (target ap = [] \<or> func ap = []) ''tracepoint probe must have a target'', [])
         else if p = ''rawtracepoint'' then
           (st, ap, err_if (func ap = []) ''rawtracepoint should be attached to a function'' @
              err_if (\<not> ck_listing ck \<and> \<not> ck_has_btf ck)
                (''rawtracepoints require kernel BTF. Try using a '' @ quote ''tracepoint'' @ '' instead.''), [])
         else if p = ''profile'' \<or> p = ''interval'' then (st, ap, check_timer ck ap, [])
         else if p = ''software'' then (st, ap, check_event ck sw_probe_list ''count'' ap, [])
         else if p = ''watchpoint'' \<or> p = ''asyncwatchpoint'' then
           (case check_watchpoint ck ap of (ap', errs) \<Rightarrow> (st, ap', errs, []))
         else if p = ''hardware'' then (st, ap, check_event ck hw_probe_list ''frequency'' ap, [])
         else if p = ''begin'' \<or> p = ''end'' then
           (case check_begin_end st ap of (st', errs) \<Rightarrow> (st', ap, errs, []))
         else if p = ''self'' then
           (st, ap, if target ap = ''signal''
                    then err_if (\<not> List.member signals (func ap)) (func ap @ '' is not a supported signal'')
                    else [target ap @ '' is not a supported trigger''], [])
         else if p = ''test'' then
           (st\<lparr>test_names := emplace (target ap) (test_names st)\<rparr>, ap, check_named ''test'' ''TEST'' (test_names st) ap, [])
         else if p = ''bench'' then
           (st\<lparr>bench_names := emplace (target ap) (bench_names st)\<rparr>, ap, check_named ''bench'' ''BENCH'' (bench_names st) ap, [])
         else if p = ''fentry'' \<or> p = ''fexit'' then
           (st, ap, err_if (func ap = []) ''fentry/fexit should specify a function'', [])
         else if p = ''iter'' then
           (st, ap, err_if (\<not> ck_listing ck \<and> ck_has_btf ck \<and> \<not> List.member (ck_iters ck) (func ap))
                (''iter '' @ func ap @ '' not available for your kernel version.'') @
              err_if (func ap = []) ''iter should specify a iterator's name'', [])
         else (st, ap, [''Invalid provider: '' @ quote p], []))"

text \<open>The visitor goes through the attach points of every probe in order.\<close>

fun check_all ::
  "check_env \<Rightarrow> checker \<Rightarrow> attach_point list \<Rightarrow> checker \<times> attach_point list \<times> string list \<times> string list" where
  "check_all ck st [] = (st, [], [], [])"
| "check_all ck st (ap # aps) =
     (case check_attach_point ck st ap of (st1, ap', es, ws) \<Rightarrow>
       (case check_all ck st1 aps of (st2, aps', es', ws') \<Rightarrow> (st2, ap' # aps', es @ es', ws @ ws')))"

section \<open>Sorted modes\<close>

lemma mset_sort_chars [simp]: "mset (sort_chars s) = mset s"
  by (simp add: sort_chars_def)

lemma set_sort_chars [simp]: "set (sort_chars s) = set s"
  by (simp add: sort_chars_def)

lemma sort_chars_eq_iff: "sort_chars s = sort_chars t \<longleftrightarrow> mset s = mset t"
proof
  assume "mset s = mset t"
  then have "mset (map char_code (sort_chars s)) = mset (map char_code (sort_chars t))" by simp
  moreover have "sorted (map char_code (sort_chars s))" "sorted (map char_code (sort_chars t))"
    by (simp_all add: sort_chars_def)
  ultimately have "map char_code (sort_chars s) = map char_code (sort_chars t)"
    by (metis properties_for_sort)
  then show "sort_chars s = sort_chars t" by (simp add: map_inj_on inj_on_def)
next
  assume "sort_chars s = sort_chars t"
  then show "mset s = mset t" by (metis mset_sort_chars)
qed

lemma adjacent_equal_sorted:
  "sorted (map char_code s) \<Longrightarrow> adjacent_equal s = 0 \<longleftrightarrow> distinct s"
proof (induction s rule: adjacent_equal.induct)
  case (1 a b cs)
  then have le: "char_code a \<le> char_code b" "\<forall>c \<in> set cs. char_code b \<le> char_code c" by auto
  then have "a \<notin> set cs" if "a \<noteq> b"
    using that by (metis char_code_inject le_antisym)
  with 1 show ?case by auto
qed auto

lemma check_watchpoint_mode:
  assumes "mset m = mset (mode ap)"
  shows "check_watchpoint ck (ap\<lparr>mode := m\<rparr>) = check_watchpoint ck ap"
proof -
  from assms have "sort_chars m = sort_chars (mode ap)" "(m = []) = (mode ap = [])"
    by (simp_all add: sort_chars_eq_iff) (metis mset_zero_iff)
  then show ?thesis unfolding check_watchpoint_def Let_def by simp
qed

section \<open>Begin, end, test and bench probes are unique\<close>

definition named :: "string \<Rightarrow> attach_point list \<Rightarrow> attach_point list" where
  "named p aps = filter (\<lambda>a. provider a = p) aps"

text \<open>What the checker remembers, against what is left to check.\<close>

definition unique_after :: "checker \<Rightarrow> attach_point list \<Rightarrow> bool" where
  "unique_after st aps \<longleftrightarrow>
     length (named ''begin'' aps) \<le> (if has_begin st then 0 else 1) \<and>
     length (named ''end'' aps) \<le> (if has_end st then 0 else 1) \<and>
     distinct (map target (named ''test'' aps)) \<and> set (map target (named ''test'' aps)) \<inter> set (test_names st) = {} \<and>
     distinct (map target (named ''bench'' aps)) \<and> set (map target (named ''bench'' aps)) \<inter> set (bench_names st) = {}"

lemma check_step_begin:
  "check_attach_point ck st ap = (st1, ap', [], ws) \<Longrightarrow> provider ap = ''begin'' \<Longrightarrow>
    st1 = st\<lparr>has_begin := True\<rparr> \<and> \<not> has_begin st"
  by (simp add: check_attach_point_def check_begin_end_def err_if_def Let_def split: if_splits)

lemma check_step_end:
  "check_attach_point ck st ap = (st1, ap', [], ws) \<Longrightarrow> provider ap = ''end'' \<Longrightarrow>
    st1 = st\<lparr>has_end := True\<rparr> \<and> \<not> has_end st"
  by (simp add: check_attach_point_def check_begin_end_def err_if_def Let_def split: if_splits)

lemma check_step_test:
  "check_attach_point ck st ap = (st1, ap', [], ws) \<Longrightarrow> provider ap = ''test'' \<Longrightarrow>
    st1 = st\<lparr>test_names := test_names st @ [target ap]\<rparr> \<and> target ap \<notin> set (test_names st)"
  by (simp add: check_attach_point_def check_named_def emplace_def err_if_def split: if_splits) blast

lemma check_step_bench:
  "check_attach_point ck st ap = (st1, ap', [], ws) \<Longrightarrow> provider ap = ''bench'' \<Longrightarrow>
    st1 = st\<lparr>bench_names := bench_names st @ [target ap]\<rparr> \<and> target ap \<notin> set (bench_names st)"
  by (simp add: check_attach_point_def check_named_def emplace_def err_if_def split: if_splits) blast

lemma check_step_other:
  assumes "provider ap \<noteq> ''begin''" "provider ap \<noteq> ''end''" "provider ap \<noteq> ''test''" "provider ap \<noteq> ''bench''"
  shows "fst (check_attach_point ck st ap) = st"
  unfolding check_attach_point_def Let_def using assms by (simp split: prod.split)

lemma check_step_unique:
  assumes c: "check_attach_point ck st ap = (st1, ap', [], ws)" and u: "unique_after st1 aps"
  shows "unique_after st (ap # aps)"
proof -
  consider "provider ap = ''begin''" | "provider ap = ''end''" | "provider ap = ''test''" | "provider ap = ''bench''"
    | "provider ap \<noteq> ''begin''" "provider ap \<noteq> ''end''" "provider ap \<noteq> ''test''" "provider ap \<noteq> ''bench''"
    by blast
  then show ?thesis
  proof cases
    case 1
    with check_step_begin [OF c] u show ?thesis by (simp add: unique_after_def named_def)
  next
    case 2
    with check_step_end [OF c] u show ?thesis by (simp add: unique_after_def named_def)
  next
    case 3
    with check_step_test [OF c] u show ?thesis by (auto simp: unique_after_def named_def)
  next
    case 4
    with check_step_bench [OF c] u show ?thesis by (auto simp: unique_after_def named_def)
  next
    case 5
    with check_step_other [of ap ck st] c u show ?thesis by (simp add: unique_after_def named_def)
  qed
qed

lemma check_all_unique:
  "check_all ck st aps = (st', aps', [], ws) \<Longrightarrow> unique_after st aps"
proof (induction ck st aps arbitrary: st' aps' ws rule: check_all.induct)
  case (1 ck st)
  then show ?case by (simp add: unique_after_def named_def)
next
  case (2 ck st ap aps)
  from 2(2) obtain st1 ap1 ws1 aps1 ws2 where
    "check_attach_point ck st ap = (st1, ap1, [], ws1)" "check_all ck st1 aps = (st', aps1, [], ws2)"
    by (auto split: prod.splits)
  with 2(1) show ?case by (metis check_step_unique)
qed

section \<open>Properties\<close>

text \<open>a watchpoint is accepted only with a length of 1, 2, 4 or 8 bytes and a mode the host has,
  which the checker leaves as a duplicate-free arrangement of \<open>r\<close>, \<open>w\<close> and \<open>x\<close>; the order in which the
  script gives the mode does not matter.\<close>

theorem check_watchpoint_accepts:
  assumes "check_watchpoint ck ap = (ap', [])"
  shows "len ap \<in> {1, 2, 4, 8} \<and> mode ap' \<in> set (ck_watch_modes ck) \<and> mset (mode ap') = mset (mode ap)
    \<and> distinct (mode ap') \<and> mode ap' \<noteq> [] \<and> set (mode ap') \<subseteq> {CHR ''r'', CHR ''w'', CHR ''x''}
    \<and> (\<forall>m. mset m = mset (mode ap) \<longrightarrow> check_watchpoint ck (ap\<lparr>mode := m\<rparr>) = (ap', []))"
proof -
  let ?m = "sort_chars (mode ap)"
  from assms have ap': "ap' = ap\<lparr>mode := ?m\<rparr>" by (auto simp: check_watchpoint_def Let_def)
  from assms have l: "len ap \<in> {1, 2, 4, 8}" "mode ap \<noteq> []" "filter (\<lambda>c. \<not> is_watch_mode c) ?m = []"
    "adjacent_equal ?m = 0" "?m \<in> set (ck_watch_modes ck)"
    by (auto simp: check_watchpoint_def Let_def err_if_def simp del: mset_sort_chars split: if_splits)
  moreover have "sorted (map char_code ?m)" by (simp add: sort_chars_def)
  ultimately have "distinct ?m" by (simp add: adjacent_equal_sorted)
  moreover have "set ?m \<subseteq> {CHR ''r'', CHR ''w'', CHR ''x''}"
    using l(3) by (auto simp: filter_empty_conv is_watch_mode_def)
  moreover have "check_watchpoint ck (ap\<lparr>mode := m\<rparr>) = (ap', [])" if "mset m = mset (mode ap)" for m
    using check_watchpoint_mode [OF that, of ck] assms by simp
  moreover have "?m \<noteq> []" using l(2) by (metis mset_sort_chars mset_zero_iff)
  ultimately show ?thesis using l by (simp add: ap')
qed

text \<open>a program whose attach points the checker accepts has at most one \<open>begin\<close> and one \<open>end\<close>
  probe, and its test probes, and its benchmark probes, have distinct names.\<close>

theorem check_all_unique_probes:
  assumes "check_all ck new_checker aps = (st, aps', [], ws)"
  shows "length (named ''begin'' aps) \<le> 1 \<and> length (named ''end'' aps) \<le> 1
    \<and> distinct (map target (named ''test'' aps)) \<and> distinct (map target (named ''bench'' aps))"
  using check_all_unique [OF assms] by (auto simp: unique_after_def new_checker_def)

text \<open>every duration of at least a microsecond that the number parser can express is accepted as
  the rate of a profile or interval probe: it is kept in whole microseconds, no bit is lost to the sign
  of the field, and the checker has nothing to object.\<close>

theorem timer_duration:
  assumes "(sfx, mx, mul) \<in> set int_config" "n * mul \<le> mx" "1000 \<le> n * mul" "provider ap \<in> {''profile'', ''interval''}"
    and "func ap = []" "\<not> has_wildcard (show_nat n @ sfx)"
  shows "\<exists>ap'. frequency_parser ap [provider ap, show_nat n @ sfx] = (ap', AP_ok)
    \<and> target ap' = ''us'' \<and> freq ap' = int (n * mul div 1000) \<and> 0 < freq ap'
    \<and> check_attach_point ck st ap' = (st, ap', [], [])"
proof -
  have mx: "mx \<le> u64_max" "0 < mul" "map_of int_config sfx = Some (mx, mul)" using int_config_suffix [OF assms(1)] by auto
  have "n \<le> n * mul" using mx(2) by simp
  also have "\<dots> \<le> u64_max" using assms(2) mx(1) by linarith
  finally have n: "n \<le> u64_max" "n \<le> mx div mul" using assms(2) mx(2) by (simp_all add: less_eq_div_iff_mult_less_eq)
  then have u: "to_uint (show_nat n @ sfx) 0 = Inr (n * mul)"
    using to_uint_suffix [OF assms(1), of n] mx by (simp add: apply_suffix_def)
  have "n * mul div 1000 < 2 ^ 63" using assms(2) mx(1) by (simp add: div_less_iff_less_mult)
  then have f: "frequency_parser ap [provider ap, show_nat n @ sfx] =
      (ap\<lparr>target := ''us'', freq := int (n * mul div 1000)\<rparr>, AP_ok)"
    using assms(3,6) by (simp add: frequency_parser_def u cast_i64_small)
  have pos: "0 < n * mul div 1000" using assms(3) by (simp add: div_greater_zero_iff)
  have "check_attach_point ck st (ap\<lparr>target := ''us'', freq := int (n * mul div 1000)\<rparr>) =
      (st, ap\<lparr>target := ''us'', freq := int (n * mul div 1000)\<rparr>, [], [])"
    using assms(4,5) pos
    by (auto simp: check_attach_point_def check_timer_def err_if_def time_units_def Let_def)
  with f pos show ?thesis by auto
qed

section \<open>Witnesses\<close>

definition demo_check :: check_env where
  "demo_check = \<lparr>ck_listing = False, ck_has_child = False, ck_has_pid = False, ck_missing = Missing_error,
     ck_traceable = (\<lambda>_. True), ck_uprobe_paths = (\<lambda>_. Inr []), ck_usdt_paths = (\<lambda>_. []), ck_has_btf = True,
     ck_iters = [], ck_machine = ''x86_64'', ck_num_arguments = 6, ck_watch_modes = [''rw'', ''w'', ''x'']\<rparr>"

definition demo_watch :: attach_point where
  "demo_watch = (new_attach_point [] False)\<lparr>provider := ''watchpoint'', address := 4096, len := 8, mode := ''wr''\<rparr>"

lemma demo_watch_check: "check_watchpoint demo_check demo_watch = (demo_watch\<lparr>mode := ''rw''\<rparr>, [])"
  by (simp add: check_watchpoint_def demo_check_def demo_watch_def new_attach_point_def sort_chars_def
      err_if_def is_watch_mode_def char_code_def)

theorem check_watchpoint_accepts_witness:
  "check_watchpoint demo_check (demo_watch\<lparr>mode := ''rw''\<rparr>) = (demo_watch\<lparr>mode := ''rw''\<rparr>, [])"
proof -
  from check_watchpoint_accepts [OF demo_watch_check]
  have "\<forall>m. mset m = mset (mode demo_watch) \<longrightarrow>
    check_watchpoint demo_check (demo_watch\<lparr>mode := m\<rparr>) = (demo_watch\<lparr>mode := ''rw''\<rparr>, [])" by blast
  then show ?thesis by (simp add: demo_watch_def)
qed

definition demo_begin :: "attach_point list" where
  "demo_begin = [(new_attach_point [] False)\<lparr>provider := ''begin''\<rparr>]"

theorem check_all_unique_probes_witness: "length (named ''begin'' demo_begin) \<le> 1"
proof -
  have "\<exists>st ws. check_all demo_check new_checker demo_begin = (st, demo_begin, [], ws)"
    by (simp add: demo_begin_def check_attach_point_def check_begin_end_def new_checker_def new_attach_point_def err_if_def)
  then show ?thesis using check_all_unique_probes by blast
qed

theorem timer_duration_witness:
  "\<exists>ap'. frequency_parser ((new_attach_point [] False)\<lparr>provider := ''interval''\<rparr>) [''interval'', show_nat 5 @ ''ms''] = (ap', AP_ok)
    \<and> freq ap' = 5000"
  using timer_duration [of "''ms''" u64_max 1000000 5 "(new_attach_point [] False)\<lparr>provider := ''interval''\<rparr>" demo_check new_checker]
  by (force simp: int_config_def new_attach_point_def has_wildcard_def str_find_def)

end
