(* ===== verification/AST.thy ===== *)
theory AST
  imports Sized_Types Int_Parser
begin

text \<open>
  The abstract syntax tree of \<open>src/ast/ast.h\<close>: the 28 kinds of expression and 9 kinds of statement,
  with the fields each node has but its source location and the text a literal was written with. A
  node owns its children, so the tree is a datatype; \<open>clone\<close> in the code keeps it one.
\<close>

section \<open>Operators and jumps\<close>

datatype jump_type = RETURN | CONTINUE | BREAK

datatype operator =
    Op_ASSIGN | Op_EQ | Op_NE | Op_LE | Op_GE | Op_LEFT | Op_RIGHT | Op_LT | Op_GT | Op_LAND | Op_LOR
  | Op_PLUS | Op_PRE_INCREMENT | Op_PRE_DECREMENT | Op_POST_INCREMENT | Op_POST_DECREMENT | Op_MINUS
  | Op_MUL | Op_DIV | Op_MOD | Op_BAND | Op_BOR | Op_BXOR | Op_LNOT | Op_BNOT

definition is_comparison_op :: "operator \<Rightarrow> bool" where
  "is_comparison_op oper \<longleftrightarrow> oper \<in> {Op_EQ, Op_NE, Op_LE, Op_GE, Op_LT, Op_GT, Op_LAND, Op_LOR}"

fun opstr_jump :: "jump_type \<Rightarrow> string" where
  "opstr_jump RETURN = ''return''"
| "opstr_jump BREAK = ''break''"
| "opstr_jump CONTINUE = ''continue''"

fun opstr_binop :: "operator \<Rightarrow> string" where
  "opstr_binop Op_EQ = ''==''"
| "opstr_binop Op_NE = ''!=''"
| "opstr_binop Op_LE = ''<=''"
| "opstr_binop Op_GE = ''>=''"
| "opstr_binop Op_LT = ''<''"
| "opstr_binop Op_GT = ''>''"
| "opstr_binop Op_LAND = ''&&''"
| "opstr_binop Op_LOR = ''||''"
| "opstr_binop Op_LEFT = ''<<''"
| "opstr_binop Op_RIGHT = ''>>''"
| "opstr_binop Op_PLUS = ''+''"
| "opstr_binop Op_MINUS = ''-''"
| "opstr_binop Op_MUL = ''*''"
| "opstr_binop Op_DIV = ''/''"
| "opstr_binop Op_MOD = ''%''"
| "opstr_binop Op_BAND = ''&''"
| "opstr_binop Op_BOR = ''|''"
| "opstr_binop Op_BXOR = ''^''"
| "opstr_binop _ = []"

fun opstr_unop :: "operator \<Rightarrow> string" where
  "opstr_unop Op_LNOT = ''!''"
| "opstr_unop Op_BNOT = ''~''"
| "opstr_unop Op_MINUS = ''-''"
| "opstr_unop Op_MUL = ''dereference''"
| "opstr_unop Op_POST_INCREMENT = ''++ (post)''"
| "opstr_unop Op_PRE_INCREMENT = ''++ (pre)''"
| "opstr_unop Op_POST_DECREMENT = ''-- (post)''"
| "opstr_unop Op_PRE_DECREMENT = ''-- (pre)''"
| "opstr_unop _ = []"

section \<open>Nodes\<close>

text \<open>\<open>Map\<close> and \<open>Variable\<close> are also fields of other nodes, by themselves.\<close>

record map_node =
  m_ident :: string
  m_key_type :: sized_type
  m_value_type :: sized_type

record variable =
  v_ident :: string
  v_type :: sized_type

datatype expression =
    Integer u64 sized_type
  | NegativeInteger u64 sized_type
  | Boolean bool
  | PositionalParameter int
  | PositionalParameterCount
  | StringE string sized_type
  | NoneE
  | Identifier string sized_type
  | Builtin string int sized_type
  | Call string "expression list" sized_type nat bool
  | Sizeof type_or_expr
  | Offsetof type_or_expr "string list"
  | MapE map_node
  | VariableE variable
  | VariableAddr variable sized_type
  | MapAddr map_node
  | Binop expression operator expression sized_type
  | Unop expression operator sized_type
  | FieldAccess expression string sized_type
  | ArrayAccess expression expression sized_type
  | TupleAccess expression nat sized_type
  | MapAccess map_node expression
  | Cast type_or_expr expression
  | Tuple "expression list" sized_type
  | IfExpr expression expression expression sized_type
  | BlockExpr "statement list" expression
  | Typeinfo type_or_expr
  | Comptime expression
and type_or_expr =
    TE_expr expression
  | TE_type sized_type
and statement =
    ExprStatement expression
  | VarDeclStatement variable "type_or_expr option"
  | AssignScalarMapStatement map_node expression
  | AssignMapStatement map_node expression expression
  | AssignVarStatement bool variable "type_or_expr option" expression
  | Unroll expression "statement list" expression
  | Jump jump_type "expression option"
  | While expression "statement list" expression
  | For variable iterable "statement list" expression sized_type
and iterable =
    It_map map_node
  | It_range expression expression

text \<open>
  Fields in the order of the classes: a \<open>Call\<close> has its return type, the number of injected arguments
  and whether its value is discarded. A \<open>type_or_expr\<close> is the variant of \<open>Sizeof\<close>, \<open>Offsetof\<close> and
  \<open>Typeof\<close>. A block in a statement is its statements and its value. \<open>AssignVarStatement\<close> says first
  whether it declares the variable.
\<close>

definition new_integer :: "u64 \<Rightarrow> expression" where
  "new_integer n = Integer n (get_integer_type (unat n))"

definition new_negative :: "u64 \<Rightarrow> expression" where
  "new_negative n = NegativeInteger n (get_signed_integer_type (sint n))"

definition new_string :: "string \<Rightarrow> expression" where
  "new_string s = StringE s (create_string (length s + 1))"

section \<open>Types of expressions\<close>

fun expr_type :: "expression \<Rightarrow> sized_type" and typeof_type :: "type_or_expr \<Rightarrow> sized_type" where
  "expr_type (Integer n t) = t"
| "expr_type (NegativeInteger n t) = t"
| "expr_type (Boolean b) = create_bool"
| "expr_type (PositionalParameter n) = create_none"
| "expr_type PositionalParameterCount = create_none"
| "expr_type (StringE s t) = t"
| "expr_type NoneE = create_none"
| "expr_type (Identifier i t) = t"
| "expr_type (Builtin i p t) = t"
| "expr_type (Call f args t nj d) = t"
| "expr_type (Sizeof r) = int_type 64 False"
| "expr_type (Offsetof r fs) = int_type 64 False"
| "expr_type (MapE m) = m_value_type m"
| "expr_type (VariableE v) = v_type v"
| "expr_type (VariableAddr v t) = t"
| "expr_type (MapAddr m) = create_pointer create_void AS_none"
| "expr_type (Binop l oper r t) = t"
| "expr_type (Unop e oper t) = t"
| "expr_type (FieldAccess e f t) = t"
| "expr_type (ArrayAccess e i t) = t"
| "expr_type (TupleAccess e i t) = t"
| "expr_type (MapAccess m k) = m_value_type m"
| "expr_type (Cast te e) = typeof_type te"
| "expr_type (Tuple es t) = t"
| "expr_type (IfExpr c l r t) = t"
| "expr_type (BlockExpr ss e) = expr_type e"
| "expr_type (Typeinfo te) = create_none"
| "expr_type (Comptime e) = expr_type e"
| "typeof_type (TE_type t) = t"
| "typeof_type (TE_expr e) = (case e of MapE m \<Rightarrow> m_key_type m | _ \<Rightarrow> expr_type e)"

section \<open>Literals\<close>

fun is_literal :: "expression \<Rightarrow> bool" where
  "is_literal (Integer n t) = True"
| "is_literal (NegativeInteger n t) = True"
| "is_literal (StringE s t) = True"
| "is_literal (Boolean b) = True"
| "is_literal (Tuple es t) = list_all is_literal es"
| "is_literal _ = False"

section \<open>Depth of a tree\<close>

text \<open>The depth bounds how far a traversal recurses.\<close>

fun depth :: "expression \<Rightarrow> nat"
  and depth_te :: "type_or_expr \<Rightarrow> nat"
  and depth_st :: "statement \<Rightarrow> nat"
  and depth_it :: "iterable \<Rightarrow> nat"
  and depth_es :: "expression list \<Rightarrow> nat"
  and depth_ss :: "statement list \<Rightarrow> nat"
  and depth_ot :: "type_or_expr option \<Rightarrow> nat"
  and depth_oe :: "expression option \<Rightarrow> nat" where
  "depth (Call f args t nj d) = Suc (depth_es args)"
| "depth (Sizeof r) = Suc (depth_te r)"
| "depth (Offsetof r fs) = Suc (depth_te r)"
| "depth (Binop l oper r t) = Suc (max (depth l) (depth r))"
| "depth (Unop e oper t) = Suc (depth e)"
| "depth (FieldAccess e f t) = Suc (depth e)"
| "depth (ArrayAccess e i t) = Suc (max (depth e) (depth i))"
| "depth (TupleAccess e i t) = Suc (depth e)"
| "depth (MapAccess m k) = Suc (depth k)"
| "depth (Cast te e) = Suc (max (depth_te te) (depth e))"
| "depth (Tuple es t) = Suc (depth_es es)"
| "depth (IfExpr c l r t) = Suc (max (depth c) (max (depth l) (depth r)))"
| "depth (BlockExpr ss e) = Suc (max (depth_ss ss) (depth e))"
| "depth (Typeinfo te) = Suc (depth_te te)"
| "depth (Comptime e) = Suc (depth e)"
| "depth _ = 1"
| "depth_te (TE_expr e) = depth e"
| "depth_te (TE_type t) = 0"
| "depth_st (ExprStatement e) = Suc (depth e)"
| "depth_st (VarDeclStatement v te) = Suc (depth_ot te)"
| "depth_st (AssignScalarMapStatement m e) = Suc (depth e)"
| "depth_st (AssignMapStatement m k e) = Suc (max (depth k) (depth e))"
| "depth_st (AssignVarStatement d v te e) = Suc (max (depth_ot te) (depth e))"
| "depth_st (Unroll e ss b) = Suc (max (depth e) (max (depth_ss ss) (depth b)))"
| "depth_st (Jump j r) = Suc (depth_oe r)"
| "depth_st (While c ss b) = Suc (max (depth c) (max (depth_ss ss) (depth b)))"
| "depth_st (For v it ss b t) = Suc (max (depth_it it) (max (depth_ss ss) (depth b)))"
| "depth_it (It_map m) = 0"
| "depth_it (It_range a b) = Suc (max (depth a) (depth b))"
| "depth_es [] = 0"
| "depth_es (e # es) = max (depth e) (depth_es es)"
| "depth_ss [] = 0"
| "depth_ss (s # ss) = max (depth_st s) (depth_ss ss)"
| "depth_ot None = 0"
| "depth_ot (Some t) = depth_te t"
| "depth_oe None = 0"
| "depth_oe (Some e) = depth e"

end
