(* ===== verification/AST_Visit.thy ===== *)
theory AST_Visit
  imports AST
begin

text \<open>
  The default traversal of \<open>src/ast/visitor.h\<close>: the expressions and statements a node has as its
  children, in the order they are visited, and the rebuilding of a node from its visited children.
  A \<open>Typeof\<close>, an iterable and a block in a statement are passed through to the nodes in them.
\<close>

section \<open>Children\<close>

datatype node = NE expression | NS statement

fun te_children :: "type_or_expr \<Rightarrow> node list" where
  "te_children (TE_expr e) = [NE e]"
| "te_children (TE_type t) = []"

fun it_children :: "iterable \<Rightarrow> node list" where
  "it_children (It_map m) = []"
| "it_children (It_range a b) = [NE a, NE b]"

definition ot_children :: "type_or_expr option \<Rightarrow> node list" where
  "ot_children r = (case r of None \<Rightarrow> [] | Some te \<Rightarrow> te_children te)"

definition block_children :: "statement list \<Rightarrow> expression \<Rightarrow> node list" where
  "block_children ss e = map NS ss @ [NE e]"

fun expr_children :: "expression \<Rightarrow> node list" where
  "expr_children (Call f args t nj disc) = map NE args"
| "expr_children (Sizeof te) = te_children te"
| "expr_children (Offsetof te fs) = te_children te"
| "expr_children (Binop l oper r t) = [NE l, NE r]"
| "expr_children (Unop e oper t) = [NE e]"
| "expr_children (FieldAccess e f t) = [NE e]"
| "expr_children (ArrayAccess e i t) = [NE i, NE e]"
| "expr_children (TupleAccess e i t) = [NE e]"
| "expr_children (MapAccess m k) = [NE k]"
| "expr_children (Cast te e) = te_children te @ [NE e]"
| "expr_children (Tuple es t) = map NE es"
| "expr_children (IfExpr c l r t) = [NE c, NE l, NE r]"
| "expr_children (BlockExpr ss e) = block_children ss e"
| "expr_children (Typeinfo te) = te_children te"
| "expr_children (Comptime e) = [NE e]"
| "expr_children _ = []"

fun stmt_children :: "statement \<Rightarrow> node list" where
  "stmt_children (ExprStatement e) = [NE e]"
| "stmt_children (VarDeclStatement v te) = ot_children te"
| "stmt_children (AssignScalarMapStatement m e) = [NE e]"
| "stmt_children (AssignMapStatement m k e) = [NE k, NE e]"
| "stmt_children (AssignVarStatement decl v te e) = ot_children te @ [NE e]"
| "stmt_children (Unroll e ss b) = NE e # block_children ss b"
| "stmt_children (Jump j r) = (case r of None \<Rightarrow> [] | Some e \<Rightarrow> [NE e])"
| "stmt_children (While c ss b) = NE c # block_children ss b"
| "stmt_children (For v it ss b t) = it_children it @ block_children ss b"

fun children :: "node \<Rightarrow> node list" where
  "children (NE e) = expr_children e"
| "children (NS s) = stmt_children s"

fun node_depth :: "node \<Rightarrow> nat" where
  "node_depth (NE e) = depth e"
| "node_depth (NS s) = depth_st s"

lemma te_depth: "c \<in> set (te_children te) \<Longrightarrow> node_depth c \<le> depth_te te"
  by (cases te) auto

lemma ot_depth: "c \<in> set (ot_children r) \<Longrightarrow> node_depth c \<le> depth_ot r"
  by (cases r) (auto simp: ot_children_def te_depth)

lemma it_depth: "c \<in> set (it_children it) \<Longrightarrow> node_depth c \<le> depth_it it"
  by (cases it) auto

lemma es_depth: "e \<in> set es \<Longrightarrow> depth e \<le> depth_es es"
  by (induction es) auto

lemma ss_depth: "s \<in> set ss \<Longrightarrow> depth_st s \<le> depth_ss ss"
  by (induction ss) auto

lemma block_depth_child: "c \<in> set (block_children ss e) \<Longrightarrow> node_depth c \<le> max (depth_ss ss) (depth e)"
  by (auto simp: block_children_def dest: ss_depth)

lemma depth_children:
  assumes "c \<in> set (children n)"
  shows "node_depth c < node_depth n"
proof (cases n)
  case (NE e)
  with assms show ?thesis
    by (cases e) (auto simp: less_Suc_eq_le le_max_iff_disj dest: te_depth es_depth block_depth_child)
next
  case (NS s)
  with assms show ?thesis
    by (cases s) (auto simp: less_Suc_eq_le le_max_iff_disj dest: ot_depth it_depth block_depth_child
        split: option.splits)
qed

text \<open>All nodes of a tree, each before its children.\<close>

function subnodes :: "node \<Rightarrow> node list" where
  "subnodes n = n # concat (map subnodes (children n))"
  by auto
termination by (relation "measure node_depth") (simp_all add: depth_children)

declare subnodes.simps [simp del]

section \<open>Rebuilding\<close>

text \<open>A node with functions applied to the expressions and the statements it has as its children.\<close>

fun te_map :: "(expression \<Rightarrow> expression) \<Rightarrow> type_or_expr \<Rightarrow> type_or_expr" where
  "te_map f (TE_expr e) = TE_expr (f e)"
| "te_map f (TE_type t) = TE_type t"

fun it_map :: "(expression \<Rightarrow> expression) \<Rightarrow> iterable \<Rightarrow> iterable" where
  "it_map f (It_map m) = It_map m"
| "it_map f (It_range a b) = It_range (f a) (f b)"

fun expr_map :: "(expression \<Rightarrow> expression) \<Rightarrow> (statement \<Rightarrow> statement) \<Rightarrow> expression \<Rightarrow> expression" where
  "expr_map f g (Call fn args t nj disc) = Call fn (map f args) t nj disc"
| "expr_map f g (Sizeof te) = Sizeof (te_map f te)"
| "expr_map f g (Offsetof te fs) = Offsetof (te_map f te) fs"
| "expr_map f g (Binop l oper r t) = Binop (f l) oper (f r) t"
| "expr_map f g (Unop e oper t) = Unop (f e) oper t"
| "expr_map f g (FieldAccess e fd t) = FieldAccess (f e) fd t"
| "expr_map f g (ArrayAccess e i t) = ArrayAccess (f e) (f i) t"
| "expr_map f g (TupleAccess e i t) = TupleAccess (f e) i t"
| "expr_map f g (MapAccess m k) = MapAccess m (f k)"
| "expr_map f g (Cast te e) = Cast (te_map f te) (f e)"
| "expr_map f g (Tuple es t) = Tuple (map f es) t"
| "expr_map f g (IfExpr c l r t) = IfExpr (f c) (f l) (f r) t"
| "expr_map f g (BlockExpr ss e) = BlockExpr (map g ss) (f e)"
| "expr_map f g (Typeinfo te) = Typeinfo (te_map f te)"
| "expr_map f g (Comptime e) = Comptime (f e)"
| "expr_map f g e = e"

fun stmt_map :: "(expression \<Rightarrow> expression) \<Rightarrow> (statement \<Rightarrow> statement) \<Rightarrow> statement \<Rightarrow> statement" where
  "stmt_map f g (ExprStatement e) = ExprStatement (f e)"
| "stmt_map f g (VarDeclStatement v te) = VarDeclStatement v (map_option (te_map f) te)"
| "stmt_map f g (AssignScalarMapStatement m e) = AssignScalarMapStatement m (f e)"
| "stmt_map f g (AssignMapStatement m k e) = AssignMapStatement m (f k) (f e)"
| "stmt_map f g (AssignVarStatement decl v te e) =
     AssignVarStatement decl v (map_option (te_map f) te) (f e)"
| "stmt_map f g (Unroll e ss b) = Unroll (f e) (map g ss) (f b)"
| "stmt_map f g (Jump j r) = Jump j (map_option f r)"
| "stmt_map f g (While c ss b) = While (f c) (map g ss) (f b)"
| "stmt_map f g (For v it ss b t) = For v (it_map f it) (map g ss) (f b) t"

lemma te_map_cong: "(\<And>x. NE x \<in> set (te_children te) \<Longrightarrow> f x = f' x) \<Longrightarrow> te_map f te = te_map f' te"
  by (cases te) auto

lemma it_map_cong: "(\<And>x. NE x \<in> set (it_children it) \<Longrightarrow> f x = f' x) \<Longrightarrow> it_map f it = it_map f' it"
  by (cases it) auto

lemma ot_map_cong:
  "(\<And>x. NE x \<in> set (ot_children r) \<Longrightarrow> f x = f' x) \<Longrightarrow> map_option (te_map f) r = map_option (te_map f') r"
  by (cases r) (auto simp: ot_children_def intro: te_map_cong)

lemma expr_map_cong [fundef_cong]:
  assumes "e = e'" "\<And>x. NE x \<in> set (expr_children e') \<Longrightarrow> f x = f' x"
    "\<And>s. NS s \<in> set (expr_children e') \<Longrightarrow> g s = g' s"
  shows "expr_map f g e = expr_map f' g' e'"
  using assms by (cases e') (auto simp: block_children_def intro!: te_map_cong)

lemma stmt_map_cong [fundef_cong]:
  assumes "s = s'" "\<And>x. NE x \<in> set (stmt_children s') \<Longrightarrow> f x = f' x"
    "\<And>x. NS x \<in> set (stmt_children s') \<Longrightarrow> g x = g' x"
  shows "stmt_map f g s = stmt_map f' g' s'"
proof (cases s')
  case (Jump j r)
  with assms show ?thesis by (cases r) auto
qed (use assms in \<open>auto simp: block_children_def intro!: it_map_cong ot_map_cong\<close>)

text \<open>The children of a rebuilt node are the rebuilt children.\<close>

fun node_map :: "(expression \<Rightarrow> expression) \<Rightarrow> (statement \<Rightarrow> statement) \<Rightarrow> node \<Rightarrow> node" where
  "node_map f g (NE e) = NE (f e)"
| "node_map f g (NS s) = NS (g s)"

lemma te_children_map: "te_children (te_map f te) = map (node_map f g) (te_children te)"
  by (cases te) simp_all

lemma it_children_map: "it_children (it_map f it) = map (node_map f g) (it_children it)"
  by (cases it) simp_all

lemma block_children_map: "block_children (map g ss) (f e) = map (node_map f g) (block_children ss e)"
  by (simp add: block_children_def)

lemma expr_children_map: "expr_children (expr_map f g e) = map (node_map f g) (expr_children e)"
  by (cases e) (simp_all add: te_children_map [where g = g] block_children_map)

lemma stmt_children_map: "stmt_children (stmt_map f g s) = map (node_map f g) (stmt_children s)"
  by (cases s) (auto simp: te_children_map [where g = g] it_children_map [where g = g] block_children_map
      ot_children_def split: option.splits)

text \<open>
  The rewriting visitor: a function applied to every expression, after its children; the form of every
  pass that has only a \<open>visit(Expression &)\<close> which visits first.
\<close>

function (sequential) rewrite_expr :: "(expression \<Rightarrow> expression) \<Rightarrow> expression \<Rightarrow> expression"
  and rewrite_stmt :: "(expression \<Rightarrow> expression) \<Rightarrow> statement \<Rightarrow> statement" where
  "rewrite_expr h e = h (expr_map (rewrite_expr h) (rewrite_stmt h) e)"
| "rewrite_stmt h s = stmt_map (rewrite_expr h) (rewrite_stmt h) s"
  by pat_completeness auto
termination
  by (relation "measure (\<lambda>p. case p of Inl (h, e) \<Rightarrow> depth e | Inr (h, s) \<Rightarrow> depth_st s)")
    (auto dest!: depth_children [of _ "NE _", simplified] depth_children [of _ "NS _", simplified])

declare rewrite_expr.simps [simp del] rewrite_stmt.simps [simp del]

end
