(* ===== verification/AST_State.thy ===== *)
theory AST_State
  imports AST_Visit Probe_Types "HOL-Library.State_Monad"
begin

text \<open>
  The traversal of \<open>src/ast/visitor.h\<close> with a state, for the passes that carry one: the children of a
  node are visited in the order of the code and the node is rebuilt from the results. A pass gives the
  visits it overrides on maps and on variables, and says whether a \<open>Typeof\<close> is passed through.
\<close>

section \<open>Views of a node\<close>

text \<open>\<open>expr.as<T>()\<close> of the passes: the fields of a node of the kind, or nothing.\<close>

fun as_identifier :: "expression \<Rightarrow> string option" where
  "as_identifier (Identifier x t) = Some x"
| "as_identifier e = None"

fun as_call :: "expression \<Rightarrow> (string \<times> expression list) option" where
  "as_call (Call fn args t nj disc) = Some (fn, args)"
| "as_call e = None"

fun as_map :: "expression \<Rightarrow> map_node option" where
  "as_map (MapE m) = Some m"
| "as_map e = None"

fun as_variable :: "expression \<Rightarrow> variable option" where
  "as_variable (VariableE v) = Some v"
| "as_variable e = None"

text \<open>A call with other arguments.\<close>

fun with_args :: "expression \<Rightarrow> expression list \<Rightarrow> expression" where
  "with_args (Call fn args t nj disc) args' = Call fn args' t nj disc"
| "with_args e args' = e"

lemma as_identifier_eq: "as_identifier e = Some x \<longleftrightarrow> (\<exists>t. e = Identifier x t)"
  by (cases e) auto

lemma as_call_eq: "as_call e = Some (fn, args) \<longleftrightarrow> (\<exists>t nj disc. e = Call fn args t nj disc)"
  by (cases e) auto

lemma as_map_eq: "as_map e = Some m \<longleftrightarrow> e = MapE m"
  by (cases e) auto

lemma as_variable_eq: "as_variable e = Some v \<longleftrightarrow> e = VariableE v"
  by (cases e) auto

lemma expr_child_depth: "c \<in> set (expr_children e) \<Longrightarrow> node_depth c < depth e"
  using depth_children [of c "NE e"] by simp

lemma stmt_child_depth: "c \<in> set (stmt_children s) \<Longrightarrow> node_depth c < depth_st s"
  using depth_children [of c "NS s"] by simp

section \<open>The default visits\<close>

record 's hooks =
  on_map :: "map_node \<Rightarrow> ('s, map_node) state"
  on_var :: "variable \<Rightarrow> ('s, variable) state"
  on_typeof :: "type_or_expr \<Rightarrow> ('s, bool) state"

definition no_hooks :: "'s hooks" where
  "no_hooks =
     \<lparr>on_map = State_Monad.return, on_var = State_Monad.return, on_typeof = (\<lambda>_. State_Monad.return True)\<rparr>"

fun record_visit :: "(expression \<Rightarrow> ('s, expression) state) \<Rightarrow> type_or_expr \<Rightarrow> ('s, type_or_expr) state" where
  "record_visit f (TE_expr e) = do { e \<leftarrow> f e; State_Monad.return (TE_expr e) }"
| "record_visit f (TE_type t) = State_Monad.return (TE_type t)"

definition typeof_visit ::
  "'s hooks \<Rightarrow> (expression \<Rightarrow> ('s, expression) state) \<Rightarrow> type_or_expr \<Rightarrow> ('s, type_or_expr) state" where
  "typeof_visit h f te = do { go \<leftarrow> on_typeof h te; if go then record_visit f te else State_Monad.return te }"

fun option_visit :: "('a \<Rightarrow> ('s, 'b) state) \<Rightarrow> 'a option \<Rightarrow> ('s, 'b option) state" where
  "option_visit f None = State_Monad.return None"
| "option_visit f (Some x) = do { y \<leftarrow> f x; State_Monad.return (Some y) }"

fun iterable_visit ::
  "'s hooks \<Rightarrow> (expression \<Rightarrow> ('s, expression) state) \<Rightarrow> iterable \<Rightarrow> ('s, iterable) state" where
  "iterable_visit h f (It_map m) = do { m \<leftarrow> on_map h m; State_Monad.return (It_map m) }"
| "iterable_visit h f (It_range a b) = do { a \<leftarrow> f a; b \<leftarrow> f b; State_Monad.return (It_range a b) }"

fun expr_visit ::
  "'s hooks \<Rightarrow> (expression \<Rightarrow> ('s, expression) state) \<Rightarrow> (statement \<Rightarrow> ('s, statement) state) \<Rightarrow>
     expression \<Rightarrow> ('s, expression) state" where
  "expr_visit h f g (Call fn args t nj d) =
     do { args \<leftarrow> State_Monad.traverse_list f args; State_Monad.return (Call fn args t nj d) }"
| "expr_visit h f g (Sizeof te) = do { te \<leftarrow> record_visit f te; State_Monad.return (Sizeof te) }"
| "expr_visit h f g (Offsetof te fs) = do { te \<leftarrow> record_visit f te; State_Monad.return (Offsetof te fs) }"
| "expr_visit h f g (MapE m) = do { m \<leftarrow> on_map h m; State_Monad.return (MapE m) }"
| "expr_visit h f g (VariableE v) = do { v \<leftarrow> on_var h v; State_Monad.return (VariableE v) }"
| "expr_visit h f g (VariableAddr v t) = do { v \<leftarrow> on_var h v; State_Monad.return (VariableAddr v t) }"
| "expr_visit h f g (MapAddr m) = do { m \<leftarrow> on_map h m; State_Monad.return (MapAddr m) }"
| "expr_visit h f g (Binop l oper r t) =
     do { l \<leftarrow> f l; r \<leftarrow> f r; State_Monad.return (Binop l oper r t) }"
| "expr_visit h f g (Unop e oper t) = do { e \<leftarrow> f e; State_Monad.return (Unop e oper t) }"
| "expr_visit h f g (FieldAccess e fd t) = do { e \<leftarrow> f e; State_Monad.return (FieldAccess e fd t) }"
| "expr_visit h f g (ArrayAccess e i t) =
     do { i \<leftarrow> f i; e \<leftarrow> f e; State_Monad.return (ArrayAccess e i t) }"
| "expr_visit h f g (TupleAccess e i t) = do { e \<leftarrow> f e; State_Monad.return (TupleAccess e i t) }"
| "expr_visit h f g (MapAccess m k) = do { m \<leftarrow> on_map h m; k \<leftarrow> f k; State_Monad.return (MapAccess m k) }"
| "expr_visit h f g (Cast te e) =
     do { te \<leftarrow> typeof_visit h f te; e \<leftarrow> f e; State_Monad.return (Cast te e) }"
| "expr_visit h f g (Tuple es t) =
     do { es \<leftarrow> State_Monad.traverse_list f es; State_Monad.return (Tuple es t) }"
| "expr_visit h f g (IfExpr c l r t) =
     do { c \<leftarrow> f c; l \<leftarrow> f l; r \<leftarrow> f r; State_Monad.return (IfExpr c l r t) }"
| "expr_visit h f g (BlockExpr ss e) =
     do { ss \<leftarrow> State_Monad.traverse_list g ss; e \<leftarrow> f e; State_Monad.return (BlockExpr ss e) }"
| "expr_visit h f g (Typeinfo te) = do { te \<leftarrow> typeof_visit h f te; State_Monad.return (Typeinfo te) }"
| "expr_visit h f g (Comptime e) = do { e \<leftarrow> f e; State_Monad.return (Comptime e) }"
| "expr_visit h f g e = State_Monad.return e"

fun stmt_visit ::
  "'s hooks \<Rightarrow> (expression \<Rightarrow> ('s, expression) state) \<Rightarrow> (statement \<Rightarrow> ('s, statement) state) \<Rightarrow>
     statement \<Rightarrow> ('s, statement) state" where
  "stmt_visit h f g (ExprStatement e) = do { e \<leftarrow> f e; State_Monad.return (ExprStatement e) }"
| "stmt_visit h f g (VarDeclStatement v te) =
     do { v \<leftarrow> on_var h v; te \<leftarrow> option_visit (typeof_visit h f) te;
          State_Monad.return (VarDeclStatement v te) }"
| "stmt_visit h f g (AssignScalarMapStatement m e) =
     do { m \<leftarrow> on_map h m; e \<leftarrow> f e; State_Monad.return (AssignScalarMapStatement m e) }"
| "stmt_visit h f g (AssignMapStatement m k e) =
     do { m \<leftarrow> on_map h m; k \<leftarrow> f k; e \<leftarrow> f e; State_Monad.return (AssignMapStatement m k e) }"
| "stmt_visit h f g (AssignVarStatement decl v te e) =
     do { v \<leftarrow> on_var h v; te \<leftarrow> option_visit (typeof_visit h f) te; e \<leftarrow> f e;
          State_Monad.return (AssignVarStatement decl v te e) }"
| "stmt_visit h f g (Unroll e ss b) =
     do { e \<leftarrow> f e; ss \<leftarrow> State_Monad.traverse_list g ss; b \<leftarrow> f b; State_Monad.return (Unroll e ss b) }"
| "stmt_visit h f g (Jump j r) = do { r \<leftarrow> option_visit f r; State_Monad.return (Jump j r) }"
| "stmt_visit h f g (While c ss b) =
     do { c \<leftarrow> f c; ss \<leftarrow> State_Monad.traverse_list g ss; b \<leftarrow> f b; State_Monad.return (While c ss b) }"
| "stmt_visit h f g (For v it ss b t) =
     do { v \<leftarrow> on_var h v; it \<leftarrow> iterable_visit h f it; ss \<leftarrow> State_Monad.traverse_list g ss; b \<leftarrow> f b;
          State_Monad.return (For v it ss b t) }"

section \<open>Programs\<close>

text \<open>Functions and probes with the parts the passes visit; the functions come first.\<close>

record subprog =
  sp_args :: "(variable \<times> type_or_expr option) list"
  sp_ret :: "type_or_expr option"
  sp_stmts :: "statement list"
  sp_value :: expression

record probe_node =
  pr_attach_points :: "attach_point list"
  pr_stmts :: "statement list"
  pr_value :: expression

definition probe_visit ::
  "(expression \<Rightarrow> ('s, expression) state) \<Rightarrow> (statement \<Rightarrow> ('s, statement) state) \<Rightarrow>
     probe_node \<Rightarrow> ('s, probe_node) state" where
  "probe_visit f g p =
     do { ss \<leftarrow> State_Monad.traverse_list g (pr_stmts p);
          e \<leftarrow> f (pr_value p);
          State_Monad.return (p\<lparr>pr_stmts := ss, pr_value := e\<rparr>) }"

definition subprog_visit ::
  "'s hooks \<Rightarrow> (expression \<Rightarrow> ('s, expression) state) \<Rightarrow> (statement \<Rightarrow> ('s, statement) state) \<Rightarrow>
     subprog \<Rightarrow> ('s, subprog) state" where
  "subprog_visit h f g p =
     do { args \<leftarrow> State_Monad.traverse_list
            (\<lambda>a. do { v \<leftarrow> on_var h (fst a); te \<leftarrow> option_visit (typeof_visit h f) (snd a);
                    State_Monad.return (v, te) }) (sp_args p);
          r \<leftarrow> option_visit (typeof_visit h f) (sp_ret p);
          ss \<leftarrow> State_Monad.traverse_list g (sp_stmts p);
          e \<leftarrow> f (sp_value p);
          State_Monad.return (p\<lparr>sp_args := args, sp_ret := r, sp_stmts := ss, sp_value := e\<rparr>) }"

definition program_visit ::
  "'s hooks \<Rightarrow> (expression \<Rightarrow> ('s, expression) state) \<Rightarrow> (statement \<Rightarrow> ('s, statement) state) \<Rightarrow>
     subprog list \<times> probe_node list \<Rightarrow> ('s, subprog list \<times> probe_node list) state" where
  "program_visit h f g p =
     do { fs \<leftarrow> State_Monad.traverse_list (subprog_visit h f g) (fst p);
          ps \<leftarrow> State_Monad.traverse_list (probe_visit f g) (snd p);
          State_Monad.return (fs, ps) }"

text \<open>A visit without a state, and the nodes of a program in the order they are visited.\<close>

definition pure_visit :: "('a \<Rightarrow> 'b) \<Rightarrow> 'a \<Rightarrow> (unit, 'b) state" where
  "pure_visit f x = State_Monad.return (f x)"

definition function_nodes :: "subprog \<Rightarrow> node list" where
  "function_nodes f =
     concat (map (ot_children \<circ> snd) (sp_args f)) @ ot_children (sp_ret f) @ block_children (sp_stmts f) (sp_value f)"

definition probe_nodes :: "probe_node \<Rightarrow> node list" where
  "probe_nodes p = block_children (pr_stmts p) (pr_value p)"

definition program_nodes :: "subprog list \<times> probe_node list \<Rightarrow> node list" where
  "program_nodes p = concat (map function_nodes (fst p)) @ concat (map probe_nodes (snd p))"

section \<open>Congruence\<close>

text \<open>A visit of a node depends on the visits of its children only, which lets the passes recurse through it.\<close>

lemma state_bind_cong [fundef_cong]:
  "m = m' \<Longrightarrow> (\<And>x. f x = f' x) \<Longrightarrow> State_Monad.bind m f = State_Monad.bind m' f'"
  by (rule arg_cong2 [where f = State_Monad.bind]) auto

lemma traverse_list_cong [fundef_cong]:
  "xs = xs' \<Longrightarrow> (\<And>x. x \<in> set xs' \<Longrightarrow> f x = f' x) \<Longrightarrow> State_Monad.traverse_list f xs = State_Monad.traverse_list f' xs'"
  by (induction xs arbitrary: xs') auto

lemma record_visit_cong:
  "(\<And>x. NE x \<in> set (te_children te) \<Longrightarrow> f x = f' x) \<Longrightarrow> record_visit f te = record_visit f' te"
  by (cases te) auto

lemma typeof_visit_cong [fundef_cong]:
  "te = te' \<Longrightarrow> (\<And>x. NE x \<in> set (te_children te') \<Longrightarrow> f x = f' x) \<Longrightarrow> typeof_visit h f te = typeof_visit h f' te'"
  using record_visit_cong [of te f f'] by (auto simp: typeof_visit_def intro: state_bind_cong)

lemma option_visit_cong [fundef_cong]:
  "x = x' \<Longrightarrow> (\<And>y. x' = Some y \<Longrightarrow> f y = f' y) \<Longrightarrow> option_visit f x = option_visit f' x'"
  by (cases x) auto

lemma option_typeof_cong:
  "(\<And>x. NE x \<in> set (ot_children r) \<Longrightarrow> f x = f' x) \<Longrightarrow>
     option_visit (typeof_visit h f) r = option_visit (typeof_visit h f') r"
  using typeof_visit_cong [of _ _ f f' h] by (cases r) (auto simp: ot_children_def)

lemma iterable_visit_cong:
  "(\<And>x. NE x \<in> set (it_children it) \<Longrightarrow> f x = f' x) \<Longrightarrow> iterable_visit h f it = iterable_visit h f' it"
  by (cases it) auto

lemma expr_visit_cong [fundef_cong]:
  assumes "e = e'" "\<And>x. NE x \<in> set (expr_children e') \<Longrightarrow> f x = f' x"
    "\<And>s. NS s \<in> set (expr_children e') \<Longrightarrow> g s = g' s"
  shows "expr_visit h f g e = expr_visit h f' g' e'"
  using assms by (cases e') (auto simp: block_children_def cong: traverse_list_cong record_visit_cong typeof_visit_cong)

lemma stmt_visit_cong [fundef_cong]:
  assumes "s = s'" "\<And>x. NE x \<in> set (stmt_children s') \<Longrightarrow> f x = f' x"
    "\<And>x. NS x \<in> set (stmt_children s') \<Longrightarrow> g x = g' x"
  shows "stmt_visit h f g s = stmt_visit h f' g' s'"
proof (cases s')
  case (Jump j r)
  with assms show ?thesis by (cases r) auto
qed (use assms in \<open>auto simp: block_children_def cong: traverse_list_cong option_typeof_cong iterable_visit_cong\<close>)

section \<open>What a visit yields\<close>

text \<open>
  A result of \<open>m\<close> in a good state has \<open>Q\<close>, and the state was good before; the good states are those
  without a new diagnostic, say.
\<close>

definition yields :: "('s \<Rightarrow> bool) \<Rightarrow> ('a \<Rightarrow> bool) \<Rightarrow> ('s, 'a) state \<Rightarrow> bool" where
  "yields I Q m \<longleftrightarrow> (\<forall>s x s'. run_state m s = (x, s') \<longrightarrow> I s' \<longrightarrow> I s \<and> Q x)"

lemma yieldsD: "yields I Q m \<Longrightarrow> run_state m s = (x, s') \<Longrightarrow> I s' \<Longrightarrow> I s \<and> Q x"
  by (simp add: yields_def)

lemma yields_return [simp, intro]: "Q x \<Longrightarrow> yields I Q (State_Monad.return x)"
  by (simp add: yields_def)

lemma yields_mono: "yields I P m \<Longrightarrow> (\<And>x. P x \<Longrightarrow> Q x) \<Longrightarrow> yields I Q m"
  by (auto simp: yields_def)

abbreviation keeps :: "('s \<Rightarrow> bool) \<Rightarrow> ('s, 'a) state \<Rightarrow> bool" where
  "keeps I m \<equiv> yields I (\<lambda>_. True) m"

lemma yields_keeps: "yields I Q m \<Longrightarrow> keeps I m"
  by (rule yields_mono) auto

lemma yields_bind:
  assumes "yields I P m" "\<And>x. keeps I (f x)" "\<And>x. P x \<Longrightarrow> yields I Q (f x)"
  shows "yields I Q (State_Monad.bind m f)"
  using assms unfolding yields_def by (auto split: prod.splits) (metis surj_pair)+

lemma keeps_bind: "keeps I m \<Longrightarrow> (\<And>x. keeps I (f x)) \<Longrightarrow> keeps I (State_Monad.bind m f)"
  by (rule yields_bind) auto

lemma keeps_traverse: "(\<And>x. x \<in> set xs \<Longrightarrow> keeps I (f x)) \<Longrightarrow> keeps I (State_Monad.traverse_list f xs)"
  by (induction xs) (auto intro!: keeps_bind)

lemma yields_traverse:
  assumes "\<And>x. x \<in> set xs \<Longrightarrow> yields I Q (f x)"
  shows "yields I (\<lambda>ys. \<forall>y\<in>set ys. Q y) (State_Monad.traverse_list f xs)"
  using assms
proof (induction xs)
  case (Cons x xs)
  then have "yields I Q (f x)" "yields I (\<lambda>ys. \<forall>y\<in>set ys. Q y) (State_Monad.traverse_list f xs)" by simp_all
  then show ?case by (auto intro!: yields_bind keeps_bind intro: yields_keeps)
qed auto

lemma yields_traverse2:
  assumes "\<And>x. x \<in> set xs \<Longrightarrow> yields I (Q x) (f x)"
  shows "yields I (list_all2 Q xs) (State_Monad.traverse_list f xs)"
  using assms
proof (induction xs)
  case (Cons x xs)
  then have "yields I (Q x) (f x)" "yields I (list_all2 Q xs) (State_Monad.traverse_list f xs)" by simp_all
  then show ?case by (auto intro!: yields_bind keeps_bind intro: yields_keeps)
qed auto

text \<open>The maps and the variables that are fields of a node.\<close>

fun expr_maps :: "expression \<Rightarrow> map_node list" where
  "expr_maps (MapE m) = [m]"
| "expr_maps (MapAddr m) = [m]"
| "expr_maps (MapAccess m k) = [m]"
| "expr_maps e = []"

fun expr_vars :: "expression \<Rightarrow> variable list" where
  "expr_vars (VariableE v) = [v]"
| "expr_vars (VariableAddr v t) = [v]"
| "expr_vars e = []"

fun stmt_maps :: "statement \<Rightarrow> map_node list" where
  "stmt_maps (AssignScalarMapStatement m e) = [m]"
| "stmt_maps (AssignMapStatement m k e) = [m]"
| "stmt_maps (For v (It_map m) ss b t) = [m]"
| "stmt_maps s = []"

fun stmt_vars :: "statement \<Rightarrow> variable list" where
  "stmt_vars (VarDeclStatement v te) = [v]"
| "stmt_vars (AssignVarStatement decl v te e) = [v]"
| "stmt_vars (For v it ss b t) = [v]"
| "stmt_vars s = []"

abbreviation all_good ::
  "(node \<Rightarrow> bool) \<Rightarrow> (map_node \<Rightarrow> bool) \<Rightarrow> (variable \<Rightarrow> bool) \<Rightarrow> node list \<Rightarrow> map_node list \<Rightarrow> variable list \<Rightarrow> bool" where
  "all_good Q QM QV cs ms vs \<equiv> (\<forall>c\<in>set cs. Q c) \<and> (\<forall>m\<in>set ms. QM m) \<and> (\<forall>v\<in>set vs. QV v)"

text \<open>
  A property \<open>Q\<close> of the children, \<open>QM\<close> of the maps and \<open>QV\<close> of the variables of a visited node, for
  a pass that goes through every \<open>Typeof\<close> but those whose children have \<open>Q\<close> as they are.
\<close>

locale visit_yields =
  fixes I :: "'s \<Rightarrow> bool" and h :: "'s hooks"
    and Q :: "node \<Rightarrow> bool" and QM :: "map_node \<Rightarrow> bool" and QV :: "variable \<Rightarrow> bool"
  assumes through: "yields I (\<lambda>go. go \<or> (\<forall>c\<in>set (te_children te). Q c)) (on_typeof h te)"
begin

lemma yields_record:
  assumes "\<And>x. NE x \<in> set (te_children te) \<Longrightarrow> yields I (\<lambda>e. Q (NE e)) (f x)"
  shows "yields I (\<lambda>te. \<forall>c\<in>set (te_children te). Q c) (record_visit f te)"
  using assms by (cases te) (auto intro: yields_bind)

lemma yields_typeof:
  assumes "\<And>x. NE x \<in> set (te_children te) \<Longrightarrow> yields I (\<lambda>e. Q (NE e)) (f x)"
  shows "yields I (\<lambda>te. \<forall>c\<in>set (te_children te). Q c) (typeof_visit h f te)"
  unfolding typeof_visit_def
  by (rule yields_bind [OF through]) (auto intro!: yields_return yields_keeps [OF yields_record [OF assms]] yields_record [OF assms])

lemma yields_ot:
  assumes "\<And>x. NE x \<in> set (ot_children r) \<Longrightarrow> yields I (\<lambda>e. Q (NE e)) (f x)"
  shows "yields I (\<lambda>r. \<forall>c\<in>set (ot_children r). Q c) (option_visit (typeof_visit h f) r)"
  using assms yields_typeof [of _ f] by (cases r) (auto simp: ot_children_def intro: yields_bind)

lemma yields_iterable:
  assumes "\<And>x. NE x \<in> set (it_children it) \<Longrightarrow> yields I (\<lambda>e. Q (NE e)) (f x)"
    "\<And>m. it = It_map m \<Longrightarrow> yields I QM (on_map h m)"
  shows "yields I (\<lambda>it. (\<forall>c\<in>set (it_children it). Q c) \<and> (\<forall>m. it = It_map m \<longrightarrow> QM m)) (iterable_visit h f it)"
proof (cases it)
  case (It_map m)
  with assms show ?thesis by (auto intro: yields_bind)
next
  case (It_range a b)
  with assms have ab: "yields I (\<lambda>e. Q (NE e)) (f a)" "yields I (\<lambda>e. Q (NE e)) (f b)" by auto
  show ?thesis unfolding It_range iterable_visit.simps
    by (rule yields_bind [OF ab(1)] keeps_bind yields_keeps [OF ab(2)] yields_bind [OF ab(2)] yields_return | simp)+
qed

lemma yields_expr:
  assumes f: "\<And>x. NE x \<in> set (expr_children e) \<Longrightarrow> yields I (\<lambda>e. Q (NE e)) (f x)"
    and g: "\<And>s. NS s \<in> set (expr_children e) \<Longrightarrow> yields I (\<lambda>s. Q (NS s)) (g s)"
    and m: "\<And>m. m \<in> set (expr_maps e) \<Longrightarrow> yields I QM (on_map h m)"
    and v: "\<And>v. v \<in> set (expr_vars e) \<Longrightarrow> yields I QV (on_var h v)"
  shows "yields I (\<lambda>e'. all_good Q QM QV (expr_children e') (expr_maps e') (expr_vars e')) (expr_visit h f g e)"
proof -
  note rules = yields_bind [OF f] yields_bind [OF m] yields_bind [OF v] yields_bind [OF yields_record [OF f]]
    yields_bind [OF yields_typeof [OF f]] yields_bind [OF yields_traverse [where Q = "\<lambda>e. Q (NE e)", OF f]]
    yields_bind [OF yields_traverse [where Q = "\<lambda>e. Q (NS e)", OF g]] keeps_bind yields_keeps [OF f]
    yields_keeps [OF m] yields_keeps [OF v] yields_keeps [OF yields_record [OF f]]
    yields_keeps [OF yields_typeof [OF f]] yields_keeps [OF yields_traverse [where Q = "\<lambda>e. Q (NE e)", OF f]]
    yields_keeps [OF yields_traverse [where Q = "\<lambda>e. Q (NS e)", OF g]]
  show ?thesis
    by (cases e; simp only: expr_visit.simps; (rule rules yields_return | force simp: block_children_def)+)
qed

lemma yields_stmt:
  assumes f: "\<And>x. NE x \<in> set (stmt_children s) \<Longrightarrow> yields I (\<lambda>e. Q (NE e)) (f x)"
    and g: "\<And>x. NS x \<in> set (stmt_children s) \<Longrightarrow> yields I (\<lambda>s. Q (NS s)) (g x)"
    and m: "\<And>m. m \<in> set (stmt_maps s) \<Longrightarrow> yields I QM (on_map h m)"
    and v: "\<And>v. v \<in> set (stmt_vars s) \<Longrightarrow> yields I QV (on_var h v)"
  shows "yields I (\<lambda>s'. all_good Q QM QV (stmt_children s') (stmt_maps s') (stmt_vars s')) (stmt_visit h f g s)"
proof -
  note rules = yields_bind [OF f] yields_bind [OF m] yields_bind [OF v] yields_bind [OF yields_ot [OF f]]
    yields_bind [OF yields_iterable [OF f m]]
    yields_bind [OF yields_traverse [where Q = "\<lambda>e. Q (NS e)", OF g]] keeps_bind yields_keeps [OF f]
    yields_keeps [OF m] yields_keeps [OF v] yields_keeps [OF yields_ot [OF f]]
    yields_keeps [OF yields_iterable [OF f m]]
    yields_keeps [OF yields_traverse [where Q = "\<lambda>e. Q (NS e)", OF g]]
  show ?thesis
  proof (cases s)
    case (Jump j r)
    with f have "yields I (\<lambda>r. \<forall>e. r = Some e \<longrightarrow> Q (NE e)) (option_visit f r)"
      by (cases r) (auto intro!: yields_bind [OF f])
    then show ?thesis unfolding Jump stmt_visit.simps
      by (rule yields_bind) (auto intro!: yields_return split: option.splits)
  next
    case (For v' it ss b t)
    have it: "yields I (\<lambda>it. (\<forall>c\<in>set (it_children it). Q c) \<and> (\<forall>m. it = It_map m \<longrightarrow> QM m)) (iterable_visit h f it)"
      using f m For by (intro yields_iterable) auto
    have ss: "yields I (\<lambda>ss. \<forall>s\<in>set ss. Q (NS s)) (State_Monad.traverse_list g ss)"
      using g For by (intro yields_traverse) (auto simp: block_children_def)
    have b: "yields I (\<lambda>e. Q (NE e)) (f b)" using f For by (auto simp: block_children_def)
    have v: "yields I QV (on_var h v')" using v For by simp
    have G: "all_good Q QM QV (stmt_children (For v it ss b t)) (stmt_maps (For v it ss b t)) (stmt_vars (For v it ss b t))"
      if "QV v" "(\<forall>c\<in>set (it_children it). Q c) \<and> (\<forall>m. it = It_map m \<longrightarrow> QM m)" "\<forall>s\<in>set ss. Q (NS s)" "Q (NE b)"
      for v it ss b
      using that by (cases it) (auto simp: block_children_def)
    show ?thesis unfolding For stmt_visit.simps
      by (rule yields_bind [OF v] yields_bind [OF it] yields_bind [OF ss] yields_bind [OF b] yields_return G
          keeps_bind yields_keeps [OF it] yields_keeps [OF ss] yields_keeps [OF b] | assumption | rule TrueI)+
  next
    case (ExprStatement x)
    show ?thesis unfolding ExprStatement stmt_visit.simps
      by - ((rule rules yields_return | force simp: ExprStatement block_children_def)+)
  next
    case (VarDeclStatement x te)
    show ?thesis unfolding VarDeclStatement stmt_visit.simps
      by - ((rule rules yields_return | force simp: VarDeclStatement block_children_def)+)
  next
    case (AssignScalarMapStatement m' x)
    show ?thesis unfolding AssignScalarMapStatement stmt_visit.simps
      by - ((rule rules yields_return | force simp: AssignScalarMapStatement block_children_def)+)
  next
    case (AssignMapStatement m' k x)
    show ?thesis unfolding AssignMapStatement stmt_visit.simps
      by - ((rule rules yields_return | force simp: AssignMapStatement block_children_def)+)
  next
    case (AssignVarStatement d x te y)
    show ?thesis unfolding AssignVarStatement stmt_visit.simps
      by - ((rule rules yields_return | force simp: AssignVarStatement block_children_def)+)
  next
    case (Unroll x ss b)
    show ?thesis unfolding Unroll stmt_visit.simps
      by - ((rule rules yields_return | force simp: Unroll block_children_def)+)
  next
    case (While x ss b)
    show ?thesis unfolding While stmt_visit.simps
      by - ((rule rules yields_return | force simp: While block_children_def)+)
  qed
qed

end

text \<open>The probes and functions of a program.\<close>

lemma yields_probe:
  assumes "\<And>x. x \<in> set (pr_stmts p) \<Longrightarrow> yields I (\<lambda>s. Q (NS s)) (g x)" "yields I (\<lambda>e. Q (NE e)) (f (pr_value p))"
  shows "yields I (\<lambda>p'. \<forall>c\<in>set (block_children (pr_stmts p') (pr_value p')). Q c) (probe_visit f g p)"
  unfolding probe_visit_def
  by (rule yields_bind [OF yields_traverse [OF assms(1)]], assumption, rule keeps_bind [OF yields_keeps [OF assms(2)]], simp)
    (rule yields_bind [OF assms(2)], auto simp: block_children_def)

lemma keeps_subprog:
  assumes "\<And>x. keeps I (f x)" "\<And>x. keeps I (g x)" "\<And>v. keeps I (on_var h v)" "\<And>te. keeps I (on_typeof h te)"
  shows "keeps I (subprog_visit h f g p)"
proof -
  have "keeps I (record_visit f te)" for te using assms(1) by (cases te) (auto intro!: keeps_bind)
  with assms(4) have "keeps I (typeof_visit h f te)" for te by (auto simp: typeof_visit_def intro!: keeps_bind)
  then have "keeps I (option_visit (typeof_visit h f) r)" for r by (cases r) (auto intro!: keeps_bind)
  then show ?thesis using assms by (auto simp: subprog_visit_def intro!: keeps_bind keeps_traverse)
qed

lemma yields_program:
  assumes "\<And>x. keeps I (f x)" "\<And>x. keeps I (g x)" "\<And>v. keeps I (on_var h v)" "\<And>te. keeps I (on_typeof h te)"
    "\<And>p. p \<in> set (snd prog) \<Longrightarrow> yields I (P p) (probe_visit f g p)"
  shows "yields I (\<lambda>r. list_all2 P (snd prog) (snd r)) (program_visit h f g prog)"
  unfolding program_visit_def
  by (rule yields_bind [OF keeps_traverse], rule keeps_subprog [OF assms(1-4)],
      rule keeps_bind [OF yields_keeps [OF yields_traverse2 [OF assms(5)]]], assumption, simp)
    (rule yields_bind [OF yields_traverse2 [OF assms(5)]], auto)

text \<open>
  The same for a relation between each child and its visited form, for a pass that goes through every
  \<open>Typeof\<close>.
\<close>

locale visit_all =
  fixes I :: "'s \<Rightarrow> bool" and h :: "'s hooks" and Q :: "node \<Rightarrow> node \<Rightarrow> bool"
  assumes all_through: "on_typeof h te = State_Monad.return True"
    and map_kept: "keeps I (on_map h m)" and var_kept: "keeps I (on_var h v)"
begin

abbreviation related :: "node list \<Rightarrow> node list \<Rightarrow> bool" where
  "related \<equiv> list_all2 Q"

lemma related_record:
  assumes "\<And>x. NE x \<in> set (te_children te) \<Longrightarrow> yields I (\<lambda>y. Q (NE x) (NE y)) (f x)"
  shows "yields I (\<lambda>te'. related (te_children te) (te_children te')) (record_visit f te)"
  using assms by (cases te) (auto intro: yields_bind)

lemma related_typeof:
  assumes "\<And>x. NE x \<in> set (te_children te) \<Longrightarrow> yields I (\<lambda>y. Q (NE x) (NE y)) (f x)"
  shows "yields I (\<lambda>te'. related (te_children te) (te_children te')) (typeof_visit h f te)"
  using related_record [OF assms] by (simp add: typeof_visit_def all_through)

lemma related_ot:
  assumes "\<And>x. NE x \<in> set (ot_children r) \<Longrightarrow> yields I (\<lambda>y. Q (NE x) (NE y)) (f x)"
  shows "yields I (\<lambda>r'. related (ot_children r) (ot_children r')) (option_visit (typeof_visit h f) r)"
proof (cases r)
  case (Some te)
  with assms have "yields I (\<lambda>te'. related (te_children te) (te_children te')) (typeof_visit h f te)"
    by (intro related_typeof) (simp add: ot_children_def)
  then show ?thesis unfolding Some option_visit.simps by (rule yields_bind) (auto simp: ot_children_def)
qed (simp add: ot_children_def)

lemma related_oe:
  assumes "\<And>x. r = Some x \<Longrightarrow> yields I (\<lambda>y. Q (NE x) (NE y)) (f x)"
  shows "yields I (\<lambda>r'. related (stmt_children (Jump j r)) (stmt_children (Jump j r'))) (option_visit f r)"
  using assms by (cases r) (auto intro: yields_bind)

lemma related_iterable:
  assumes "\<And>x. NE x \<in> set (it_children it) \<Longrightarrow> yields I (\<lambda>y. Q (NE x) (NE y)) (f x)"
  shows "yields I (\<lambda>it'. related (it_children it) (it_children it')) (iterable_visit h f it)"
proof (cases it)
  case (It_map m)
  show ?thesis unfolding It_map iterable_visit.simps by (rule yields_bind [OF map_kept]) simp_all
next
  case (It_range a b)
  with assms have ab: "yields I (\<lambda>y. Q (NE a) (NE y)) (f a)" "yields I (\<lambda>y. Q (NE b) (NE y)) (f b)" by auto
  show ?thesis unfolding It_range iterable_visit.simps
    by (rule yields_bind [OF ab(1)] keeps_bind yields_keeps [OF ab(2)] yields_bind [OF ab(2)] yields_return | simp)+
qed

lemma related_es:
  assumes "\<And>x. x \<in> set xs \<Longrightarrow> yields I (\<lambda>y. Q (NE x) (NE y)) (f x)"
  shows "yields I (\<lambda>ys. related (map NE xs) (map NE ys)) (State_Monad.traverse_list f xs)"
  using yields_traverse2 [where Q = "\<lambda>x y. Q (NE x) (NE y)", OF assms] by (simp add: list_all2_map1 list_all2_map2)

lemma related_ss:
  assumes "\<And>x. x \<in> set xs \<Longrightarrow> yields I (\<lambda>y. Q (NS x) (NS y)) (g x)"
  shows "yields I (\<lambda>ys. related (map NS xs) (map NS ys)) (State_Monad.traverse_list g xs)"
  using yields_traverse2 [where Q = "\<lambda>x y. Q (NS x) (NS y)", OF assms] by (simp add: list_all2_map1 list_all2_map2)

lemma related_block:
  "related (map NS ss) (map NS ss') \<Longrightarrow> Q (NE e) (NE e') \<Longrightarrow> related (block_children ss e) (block_children ss' e')"
  by (simp add: block_children_def list_all2_appendI)

lemma related_expr:
  assumes f: "\<And>x. NE x \<in> set (expr_children e) \<Longrightarrow> yields I (\<lambda>y. Q (NE x) (NE y)) (f x)"
    and g: "\<And>s. NS s \<in> set (expr_children e) \<Longrightarrow> yields I (\<lambda>y. Q (NS s) (NS y)) (g s)"
  shows "yields I (\<lambda>e'. related (expr_children e) (expr_children e')) (expr_visit h f g e)"
proof -
  note rules = yields_bind [OF f] yields_bind [OF map_kept] yields_bind [OF var_kept] yields_bind [OF related_record [OF f]]
    yields_bind [OF related_typeof [OF f]] yields_bind [OF related_es [OF f]] yields_bind [OF related_ss [OF g]]
    keeps_bind yields_keeps [OF f] map_kept var_kept yields_keeps [OF related_record [OF f]]
    yields_keeps [OF related_typeof [OF f]] yields_keeps [OF related_es [OF f]] yields_keeps [OF related_ss [OF g]]
  show ?thesis
    by (cases e; simp only: expr_visit.simps;
      (rule rules yields_return | force simp: block_children_def intro: list_all2_appendI)+)
qed

lemma related_stmt:
  assumes f: "\<And>x. NE x \<in> set (stmt_children s) \<Longrightarrow> yields I (\<lambda>y. Q (NE x) (NE y)) (f x)"
    and g: "\<And>x. NS x \<in> set (stmt_children s) \<Longrightarrow> yields I (\<lambda>y. Q (NS x) (NS y)) (g x)"
  shows "yields I (\<lambda>s'. related (stmt_children s) (stmt_children s')) (stmt_visit h f g s)"
proof -
  note rules = yields_bind [OF f] yields_bind [OF map_kept] yields_bind [OF var_kept] yields_bind [OF related_ot [OF f]]
    yields_bind [OF related_oe [OF f]] yields_bind [OF related_iterable [OF f]] yields_bind [OF related_ss [OF g]]
    keeps_bind yields_keeps [OF f] map_kept var_kept yields_keeps [OF related_ot [OF f]] yields_keeps [OF related_oe [OF f]]
    yields_keeps [OF related_iterable [OF f]] yields_keeps [OF related_ss [OF g]]
  show ?thesis
    by (cases s; simp only: stmt_visit.simps;
      (rule rules yields_return | force simp: block_children_def intro: list_all2_appendI)+)
qed

lemma related_probe:
  assumes "\<And>x. yields I (\<lambda>y. Q (NE x) (NE y)) (f x)" "\<And>x. yields I (\<lambda>y. Q (NS x) (NS y)) (g x)"
  shows "yields I (\<lambda>p'. related (probe_nodes p) (probe_nodes p')) (probe_visit f g p)"
  unfolding probe_visit_def
  by (rule yields_bind [OF related_ss [OF assms(2)]], rule keeps_bind [OF yields_keeps [OF assms(1)]], simp)
    (rule yields_bind [OF assms(1)], auto simp: probe_nodes_def intro!: yields_return related_block)

lemma related_subprog:
  assumes "\<And>x. yields I (\<lambda>y. Q (NE x) (NE y)) (f x)" "\<And>x. yields I (\<lambda>y. Q (NS x) (NS y)) (g x)"
  shows "yields I (\<lambda>p'. related (function_nodes p) (function_nodes p')) (subprog_visit h f g p)"
proof -
  let ?arg = "\<lambda>a. do { v \<leftarrow> on_var h (fst a); te \<leftarrow> option_visit (typeof_visit h f) (snd a); State_Monad.return (v, te) }"
  have a: "yields I (\<lambda>b. related (ot_children (snd a)) (ot_children (snd b))) (?arg a)" for a
    by (rule yields_bind [OF var_kept], rule keeps_bind [OF yields_keeps [OF related_ot [OF assms(1)]]], simp)
      (rule yields_bind [OF related_ot [OF assms(1)]], simp_all)
  have args: "yields I (\<lambda>bs. related (concat (map (ot_children \<circ> snd) as)) (concat (map (ot_children \<circ> snd) bs)))
      (State_Monad.traverse_list ?arg as)" for as
    by (rule yields_mono [OF yields_traverse2 [OF a]])
      (rule concat_transfer [THEN rel_funD], simp add: list_all2_map1 list_all2_map2)
  show ?thesis unfolding subprog_visit_def
    by (rule yields_bind [OF args], (rule keeps_bind yields_keeps [OF related_ot [OF assms(1)]]
        yields_keeps [OF related_ss [OF assms(2)]] yields_keeps [OF assms(1)] yields_return TrueI)+,
        rule yields_bind [OF related_ot [OF assms(1)]], (rule keeps_bind
        yields_keeps [OF related_ss [OF assms(2)]] yields_keeps [OF assms(1)] yields_return TrueI)+,
        rule yields_bind [OF related_ss [OF assms(2)]], (rule keeps_bind yields_keeps [OF assms(1)] yields_return TrueI)+)
      (rule yields_bind [OF assms(1)], auto simp: function_nodes_def intro!: list_all2_appendI related_block)
qed

lemma related_program:
  assumes "\<And>x. yields I (\<lambda>y. Q (NE x) (NE y)) (f x)" "\<And>x. yields I (\<lambda>y. Q (NS x) (NS y)) (g x)"
  shows "yields I (\<lambda>r. related (program_nodes prog) (program_nodes r)) (program_visit h f g prog)"
proof -
  have fs: "yields I (\<lambda>fs'. related (concat (map function_nodes fs)) (concat (map function_nodes fs')))
      (State_Monad.traverse_list (subprog_visit h f g) fs)" for fs
    by (rule yields_mono [OF yields_traverse2 [OF related_subprog [OF assms]]])
      (rule concat_transfer [THEN rel_funD], simp add: list_all2_map1 list_all2_map2)
  have ps: "yields I (\<lambda>ps'. related (concat (map probe_nodes ps)) (concat (map probe_nodes ps')))
      (State_Monad.traverse_list (probe_visit f g) ps)" for ps
    by (rule yields_mono [OF yields_traverse2 [OF related_probe [OF assms]]])
      (rule concat_transfer [THEN rel_funD], simp add: list_all2_map1 list_all2_map2)
  show ?thesis unfolding program_visit_def
    by (rule yields_bind [OF fs], rule keeps_bind [OF yields_keeps [OF ps]], simp)
      (rule yields_bind [OF ps], auto simp: program_nodes_def intro!: yields_return list_all2_appendI)
qed

end

text \<open>A visited node stays a node of its kind.\<close>

lemma expr_visit_kind:
  "run_state (expr_visit h f g e) s = (e', s') \<Longrightarrow>
     as_identifier e' = as_identifier e \<and> map_option fst (as_call e') = map_option fst (as_call e) \<and>
     (as_map e' = None \<longleftrightarrow> as_map e = None) \<and> (as_variable e' = None \<longleftrightarrow> as_variable e = None)"
  by (cases e) (auto split: prod.splits)

end
