(* ===== verification/Fold_Arith.thy ===== *)
theory Fold_Arith
  imports AST "HOL-Library.Signed_Division"
begin

text \<open>
  The arithmetic of the literal folder, \<open>src/ast/passes/fold_literals.cpp\<close>: \<open>eval_binop\<close> on two unsigned
  and on two signed 64-bit operands, and \<open>make_boolean\<close>.
\<close>

section \<open>Results\<close>

text \<open>
  The folder returns a value, gives up (\<open>nullopt\<close>), reaches a \<open>LOG(BUG)\<close> that aborts, or runs into
  behaviour C++ leaves undefined (a signed overflow, or a division that traps).
\<close>

datatype 'a fold_result =
    Value 'a
  | Give_up
  | Bug
  | Undefined

text \<open>The variant of \<open>uint64_t\<close> and \<open>int64_t\<close>.\<close>

datatype fold_num = FU u64 | FS u64

fun num_value :: "fold_num \<Rightarrow> int" where
  "num_value (FU n) = uint n"
| "num_value (FS n) = sint n"

text \<open>\<open>clamp\<close> for signed operands: values from 0 on go to the unsigned alternative.\<close>

definition clamp_s :: "int \<Rightarrow> fold_num" where
  "clamp_s v = (if 0 \<le> v then FU (word_of_int v) else FS (word_of_int v))"

text \<open>A signed result that C++ computes only when it is in range.\<close>

definition signed_result :: "int \<Rightarrow> fold_num fold_result" where
  "signed_result v = (if in_i64 v then Value (clamp_s v) else Undefined)"

section \<open>Unsigned operands\<close>

definition eval_binop_u :: "u64 \<Rightarrow> u64 \<Rightarrow> operator \<Rightarrow> fold_num fold_result" where
  "eval_binop_u left right oper =
     (case oper of
        Op_PLUS \<Rightarrow>
          if left = 0 \<or> right = 0 then Value (FU (left + right))
          else let res = left + right
            in if left < res \<and> right < res then Value (FU res) else Give_up
      | Op_MINUS \<Rightarrow>
          if right \<le> left then Value (FU (left - right))
          else let delta = right - left - 1
            in if 0x7FFFFFFFFFFFFFFF < delta then Give_up else Value (FS (- delta - 1))
      | Op_MUL \<Rightarrow>
          if left = 0 \<or> right = 0 then Value (FU 0)
          else let result = left * right
            in if result div left \<noteq> right then Give_up else Value (FU result)
      | Op_DIV \<Rightarrow> if right = 0 then Give_up else Value (FU (left div right))
      | Op_MOD \<Rightarrow> if right = 0 then Give_up else Value (FU (left mod right))
      | Op_BAND \<Rightarrow> Value (FU (left AND right))
      | Op_BOR \<Rightarrow> Value (FU (left OR right))
      | Op_BXOR \<Rightarrow> Value (FU (left XOR right))
      | Op_LEFT \<Rightarrow> if 64 \<le> right then Give_up else Value (FU (push_bit (unat right) left))
      | Op_RIGHT \<Rightarrow> if 64 \<le> right then Give_up else Value (FU (drop_bit (unat right) left))
      | _ \<Rightarrow> Bug)"

section \<open>Signed operands\<close>

text \<open>
  \<open>neg_magnitude\<close> is \<open>static_cast<uint64_t>(-(v + 1)) + 1\<close>. The comparisons of \<open>Op_MINUS\<close> are evaluated
  from the left and stop at the first that is false; \<open>-right\<close> is undefined for the least integer.
\<close>

definition neg_magnitude :: "u64 \<Rightarrow> u64" where
  "neg_magnitude v = word_of_int (- (sint v + 1)) + 1"

definition eval_binop_s :: "u64 \<Rightarrow> u64 \<Rightarrow> operator \<Rightarrow> fold_num fold_result" where
  "eval_binop_s lw rw oper =
     (let left = sint lw; right = sint rw
      in case oper of
        Op_PLUS \<Rightarrow>
          if left = 0 \<or> right = 0 then signed_result (left + right)
          else if 0 < left \<and> 0 < right then
            (let res = lw + rw in if lw < res \<and> rw < res then Value (FU res) else Give_up)
          else if (0 < left \<and> right < 0) \<or> (left < 0 \<and> 0 < right) then signed_result (left + right)
          else if right < i64_min - left then Give_up
          else Value (FS (lw + rw))
      | Op_MINUS \<Rightarrow>
          if right = 0 then Value (clamp_s left)
          else if 0 < left \<and> right < 0 \<and> right = i64_min then Undefined
          else if 0 < left \<and> right < 0 \<and> i64_max - left < - right then Give_up
          else if left < 0 \<and> 0 < right \<and> - right < i64_min - left then Give_up
          else signed_result (left - right)
      | Op_MUL \<Rightarrow>
          if left = 0 \<or> right = 0 then Value (FU 0)
          else if left < 0 \<and> right < 0 then eval_binop_u (neg_magnitude lw) (neg_magnitude rw) Op_MUL
          else if \<not> in_i64 (left * right) then Undefined
          else if (left * right) sdiv left \<noteq> right then Give_up
          else signed_result (left * right)
      | Op_DIV \<Rightarrow> if right = 0 then Give_up else signed_result (left sdiv right)
      | Op_MOD \<Rightarrow>
          if right = 0 then Give_up
          else if \<not> in_i64 (left sdiv right) then Undefined
          else signed_result (left smod right)
      | Op_BAND \<Rightarrow> signed_result (left AND right)
      | Op_BOR \<Rightarrow> signed_result (left OR right)
      | Op_BXOR \<Rightarrow> signed_result (left XOR right)
      | Op_LEFT \<Rightarrow>
          if right < 0 \<or> 64 \<le> right then Give_up else Value (clamp_s (sint (push_bit (nat right) lw)))
      | Op_RIGHT \<Rightarrow>
          if right < 0 \<or> 64 \<le> right then Give_up else Value (clamp_s (left div 2 ^ nat right))
      | _ \<Rightarrow> Bug)"

section \<open>Booleans\<close>

text \<open>
  \<open>make_boolean\<close> for two booleans, which are promoted to \<open>int\<close>, and for two integers, where only the
  comparison operators are used. The error of a division by false is raised and the value returned all
  the same.
\<close>

definition make_boolean_b :: "bool \<Rightarrow> bool \<Rightarrow> operator \<Rightarrow> (bool \<times> bool) option" where
  "make_boolean_b l r oper =
     (case oper of
        Op_EQ \<Rightarrow> Some (l = r, False)
      | Op_NE \<Rightarrow> Some (l \<noteq> r, False)
      | Op_LE \<Rightarrow> Some (l \<le> r, False)
      | Op_GE \<Rightarrow> Some (r \<le> l, False)
      | Op_LT \<Rightarrow> Some (l < r, False)
      | Op_GT \<Rightarrow> Some (r < l, False)
      | Op_LAND \<Rightarrow> Some (l \<and> r, False)
      | Op_LOR \<Rightarrow> Some (l \<or> r, False)
      | Op_PLUS \<Rightarrow> Some (of_bool l + of_bool r \<noteq> (0::int), False)
      | Op_MINUS \<Rightarrow> Some (of_bool l - of_bool r \<noteq> (0::int), False)
      | Op_MUL \<Rightarrow> Some (l \<and> r, False)
      | Op_DIV \<Rightarrow> Some (l \<and> r, \<not> r)
      | Op_MOD \<Rightarrow> Some (False, \<not> r)
      | Op_BAND \<Rightarrow> Some (l \<and> r, False)
      | Op_BOR \<Rightarrow> Some (l \<or> r, False)
      | Op_BXOR \<Rightarrow> Some (l \<noteq> r, False)
      | Op_LEFT \<Rightarrow> Some (l < r, False)
      | Op_RIGHT \<Rightarrow> Some (r < l, False)
      | _ \<Rightarrow> None)"

definition make_boolean_i :: "int \<Rightarrow> int \<Rightarrow> operator \<Rightarrow> bool option" where
  "make_boolean_i l r oper =
     (case oper of
        Op_EQ \<Rightarrow> Some (l = r)
      | Op_NE \<Rightarrow> Some (l \<noteq> r)
      | Op_LE \<Rightarrow> Some (l \<le> r)
      | Op_GE \<Rightarrow> Some (r \<le> l)
      | Op_LT \<Rightarrow> Some (l < r)
      | Op_GT \<Rightarrow> Some (r < l)
      | Op_LAND \<Rightarrow> Some (l \<noteq> 0 \<and> r \<noteq> 0)
      | Op_LOR \<Rightarrow> Some (l \<noteq> 0 \<or> r \<noteq> 0)
      | _ \<Rightarrow> None)"

section \<open>The reference semantics\<close>

text \<open>The five arithmetic operators on integers without a width, with division truncated as in C.\<close>

fun exact_op :: "operator \<Rightarrow> int \<Rightarrow> int \<Rightarrow> int option" where
  "exact_op Op_PLUS l r = Some (l + r)"
| "exact_op Op_MINUS l r = Some (l - r)"
| "exact_op Op_MUL l r = Some (l * r)"
| "exact_op Op_DIV l r = (if r = 0 then None else Some (l sdiv r))"
| "exact_op Op_MOD l r = (if r = 0 then None else Some (l smod r))"
| "exact_op _ l r = None"

definition arith_op :: "operator \<Rightarrow> bool" where
  "arith_op oper \<longleftrightarrow> oper \<in> {Op_PLUS, Op_MINUS, Op_MUL, Op_DIV, Op_MOD}"

text \<open>What the two alternatives can hold: all of \<open>uint64_t\<close>, and the negative part of \<open>int64_t\<close>.\<close>

definition representable :: "int \<Rightarrow> bool" where
  "representable v \<longleftrightarrow> - (2 ^ 63) \<le> v \<and> v < 2 ^ 64"

fun normal_num :: "fold_num \<Rightarrow> bool" where
  "normal_num (FU n) = True"
| "normal_num (FS n) = (sint n < 0)"

text \<open>The answer of exact arithmetic: no value, or the value where the two alternatives can hold it.\<close>

definition exact_result :: "int option \<Rightarrow> fold_num fold_result" where
  "exact_result v =
     (case v of None \<Rightarrow> Give_up
      | Some n \<Rightarrow> if representable n then Value (clamp_s n) else Give_up)"

section \<open>Words as integers\<close>

lemma uint_of_int: "0 \<le> v \<Longrightarrow> v < 2 ^ 64 \<Longrightarrow> uint (word_of_int v :: u64) = v"
  by (simp add: unsigned_of_int take_bit_int_eq_self)

lemma sint_of_int: "in_i64 v \<Longrightarrow> sint (word_of_int v :: u64) = v"
  by (simp add: signed_of_int in_i64_def signed_take_bit_int_eq_self)

lemma in_i64_sint [simp]: "in_i64 (sint (w :: u64))"
  using sint_ge [of w] sint_lt [of w] by (simp add: in_i64_def)

lemma sint_bounds: "i64_min \<le> sint (w :: u64) \<and> sint w \<le> i64_max"
  using in_i64_sint [of w] by (simp add: in_i64_def)

lemma uint_bounds: "0 \<le> uint (w :: u64) \<and> uint w < 2 ^ 64"
  using uint_lt2p [of w] by simp

lemma clamp_s_value:
  assumes "in_i64 v"
  shows "num_value (clamp_s v) = v \<and> normal_num (clamp_s v)"
  using assms by (auto simp: clamp_s_def sint_of_int in_i64_def intro!: uint_of_int)

lemma signed_result_Value:
  "signed_result v = Value n \<Longrightarrow> num_value n = v \<and> normal_num n \<and> in_i64 v"
  using clamp_s_value [of v] by (auto simp: signed_result_def split: if_splits)

lemma signed_result_cases:
  "signed_result v \<noteq> Give_up" "signed_result v \<noteq> Bug" "signed_result v = Undefined \<longleftrightarrow> \<not> in_i64 v"
  by (auto simp: signed_result_def)

lemma uint_add: "uint (a + b :: u64) = (uint a + uint b) mod 2 ^ 64"
  by (simp add: uint_word_ariths)
lemma uint_mul: "uint (a * b :: u64) = (uint a * uint b) mod 2 ^ 64"
  by (simp add: uint_word_ariths)

lemma uint_sub: 
  assumes "b \<le> a"
  shows "uint (a - b :: u64) = uint a - uint b"
proof -
  have "0 \<le> uint a - uint b" "uint a - uint b < 2 ^ 64"
    using assms uint_bounds [of a] uint_bounds [of b] unfolding word_le_def by linarith+
  then have "(uint a - uint b) mod 2 ^ 64 = uint a - uint b" by (rule mod_pos_pos_trivial)
  then show ?thesis by (simp add: uint_word_ariths)
qed

lemma sint_add: "in_i64 (sint a + sint b) \<Longrightarrow> sint (a + b :: u64) = sint a + sint b"
  using sint_of_int [of "sint a + sint b"] by simp

text \<open>The sign of a word decides how its two readings differ.\<close>

lemma uint_sint: "uint (w :: u64) = (if sint w < 0 then sint w + 2 ^ 64 else sint w)"
proof -
  have u: "uint w = sint w mod 2 ^ 64"
    using uint_word_of_int [of "sint w", where 'a = 64] by simp
  have b: "- (2 ^ 63) \<le> sint w" "sint w < 2 ^ 63" using sint_ge [of w] sint_lt [of w] by simp_all
  show ?thesis
  proof (cases "sint w < 0")
    case True
    with b have "(sint w + 2 ^ 64) mod 2 ^ 64 = sint w + 2 ^ 64"
      by (intro mod_pos_pos_trivial) simp_all
    moreover have "(sint w + 2 ^ 64) mod 2 ^ 64 = sint w mod 2 ^ 64" by simp
    ultimately show ?thesis using u True by simp
  next
    case False
    with b have "sint w mod 2 ^ 64 = sint w" by (intro mod_pos_pos_trivial) simp_all
    with u False show ?thesis by simp
  qed
qed

lemma word_pos: "(w :: u64) \<noteq> 0 \<Longrightarrow> 0 < uint w"
  using uint_bounds [of w] by (metis linorder_not_less order_le_imp_less_or_eq uint_0_iff)

section \<open>Unsigned operands, exactly\<close>

lemma eval_u_plus:
  assumes "left \<noteq> 0" "right \<noteq> (0 :: u64)"
  shows "left < left + right \<and> right < left + right \<longleftrightarrow> uint left + uint right < 2 ^ 64"
proof -
  note p = word_pos [OF assms(1)] word_pos [OF assms(2)]
  note b = uint_bounds [of left] uint_bounds [of right]
  show ?thesis
  proof (cases "uint left + uint right < 2 ^ 64")
    case True
    then have "uint (left + right) = uint left + uint right" using p unfolding uint_add
      by (intro mod_pos_pos_trivial) linarith+
    with p True show ?thesis unfolding word_less_def by linarith
  next
    case False
    have "(uint left + uint right) mod 2 ^ 64 = (uint left + uint right - 2 ^ 64) mod 2 ^ 64" by simp
    also have "\<dots> = uint left + uint right - 2 ^ 64"
      using False b by (intro mod_pos_pos_trivial) linarith+
    finally show ?thesis using False b unfolding word_less_def uint_add by linarith
  qed
qed

lemma eval_u_mul:
  assumes "left \<noteq> 0" "right \<noteq> (0 :: u64)"
  shows "(left * right) div left = right \<longleftrightarrow> uint left * uint right < 2 ^ 64"
proof -
  note p = word_pos [OF assms(1)] word_pos [OF assms(2)]
  define m where "m = uint left * uint right mod 2 ^ 64"
  have m: "m < 2 ^ 64" by (simp add: m_def)
  have "(left * right) div left = right \<longleftrightarrow> m div uint left = uint right"
    by (simp add: word_uint_eq_iff uint_div_distrib uint_mul m_def)
  also have "\<dots> \<longleftrightarrow> uint left * uint right < 2 ^ 64"
  proof
    assume "uint left * uint right < 2 ^ 64"
    then have "m = uint left * uint right" unfolding m_def using p by (intro mod_pos_pos_trivial) simp_all
    then show "m div uint left = uint right" using p by simp
  next
    assume e: "m div uint left = uint right"
    have "uint left * (m div uint left) + m mod uint left = m" by (rule mult_div_mod_eq)
    moreover have "0 \<le> m mod uint left" using p by simp
    ultimately show "uint left * uint right < 2 ^ 64" using e m by simp
  qed
  finally show ?thesis .
qed

lemma clamp_uint [simp]: "clamp_s (uint w) = FU w"
  using uint_bounds [of w] by (simp add: clamp_s_def)

lemma exact_result_uint [simp]: "exact_result (Some (uint w)) = Value (FU (w :: u64))"
proof -
  have "representable (uint w)"
    using uint_bounds [of w] order_trans [of "- (2 ^ 63)" 0 "uint w"] by (simp add: representable_def)
  then show ?thesis by (simp add: exact_result_def)
qed

lemma exact_result_FU: "0 \<le> v \<Longrightarrow> exact_result (Some v) = (if v < 2 ^ 64 then Value (FU (word_of_int v)) else Give_up)"
  by (simp add: exact_result_def representable_def clamp_s_def)

lemma sdiv_nonneg: "0 \<le> l \<Longrightarrow> 0 < r \<Longrightarrow> l sdiv r = (l div r :: int)"
  by (cases "l = 0") (simp_all add: signed_divide_int_def)

lemma smod_nonneg: "0 \<le> l \<Longrightarrow> 0 < r \<Longrightarrow> l smod r = (l mod r :: int)"
  by (cases "l = 0") (simp_all add: signed_modulo_int_def)

lemma eval_u_PLUS: "eval_binop_u l r Op_PLUS = exact_result (Some (uint l + uint r))"
proof (cases "l = 0 \<or> r = 0")
  case True then show ?thesis by (auto simp: eval_binop_u_def)
next
  case False
  have "0 \<le> uint l + uint r" using uint_bounds [of l] uint_bounds [of r] by linarith
  with False eval_u_plus [of l r] show ?thesis
    by (simp add: eval_binop_u_def exact_result_FU Let_def)
qed

lemma eval_u_MUL: "eval_binop_u l r Op_MUL = exact_result (Some (uint l * uint r))"
proof (cases "l = 0 \<or> r = 0")
  case True then show ?thesis by (auto simp: eval_binop_u_def exact_result_FU)
next
  case False
  with eval_u_mul [of l r] show ?thesis
    by (simp add: eval_binop_u_def exact_result_FU Let_def)
qed

lemma eval_u_DIV: "eval_binop_u l r Op_DIV = exact_result (exact_op Op_DIV (uint l) (uint r))"
proof (cases "r = 0")
  case True then show ?thesis by (simp add: eval_binop_u_def exact_result_def)
next
  case False
  then have "uint l sdiv uint r = uint (l div r)"
    using word_pos [of r] uint_bounds [of l] by (simp add: sdiv_nonneg uint_div_distrib)
  with False word_pos [OF False] show ?thesis by (simp add: eval_binop_u_def)
qed

lemma eval_u_MOD: "eval_binop_u l r Op_MOD = exact_result (exact_op Op_MOD (uint l) (uint r))"
proof (cases "r = 0")
  case True then show ?thesis by (simp add: eval_binop_u_def exact_result_def)
next
  case False
  then have "uint l smod uint r = uint (l mod r)"
    using word_pos [of r] uint_bounds [of l] by (simp add: smod_nonneg uint_mod_distrib)
  with False word_pos [OF False] show ?thesis by (simp add: eval_binop_u_def)
qed

lemma eval_u_MINUS: "eval_binop_u l r Op_MINUS = exact_result (Some (uint l - uint r))"
proof (cases "r \<le> l")
  case True
  then show ?thesis by (simp add: eval_binop_u_def uint_sub [symmetric])
next
  case False
  then have lt: "uint l < uint r" by (simp add: word_le_def)
  then have d: "uint (r - l) = uint r - uint l" using uint_sub [of l r] by (simp add: word_le_def)
  have "(1 :: u64) \<le> r - l" using lt d by (simp add: word_le_def)
  then have "uint (r - l - 1) = uint (r - l) - 1" by (subst uint_sub) simp_all
  with d have d1: "uint (r - l - 1) = uint r - uint l - 1" by simp
  have g: "0x7FFFFFFFFFFFFFFF < r - l - 1 \<longleftrightarrow> \<not> representable (uint l - uint r)"
    using lt uint_bounds [of r] uint_bounds [of l]
    unfolding word_less_def d1 representable_def by (simp, linarith)
  have "- (r - l - 1) - 1 = (word_of_int (uint l - uint r) :: u64)" by simp
  with False lt g show ?thesis
    by (simp add: eval_binop_u_def exact_result_def Let_def clamp_s_def)
qed

text \<open>C7: On two unsigned literals the folder computes the five arithmetic operators exactly: it gives the
  value, in the signed or the unsigned alternative as its sign asks, whenever one of them can hold it,
  and gives up exactly when neither can or the divisor is zero. It never reaches an undefined operation.\<close>

theorem eval_u_exact:
  assumes "arith_op oper"
  shows "eval_binop_u l r oper = exact_result (exact_op oper (uint l) (uint r))"
  using assms eval_u_PLUS [of l r] eval_u_MINUS [of l r] eval_u_MUL [of l r] eval_u_DIV [of l r]
    eval_u_MOD [of l r]
  by (auto simp: arith_op_def)

lemma eval_u_exact_witness:
  "eval_binop_u 3 5 Op_MINUS = Value (FS (- 2)) \<and> eval_binop_u (2 ^ 63) 2 Op_MUL = Give_up
   \<and> eval_binop_u 7 0 Op_MOD = Give_up"
  using eval_u_exact [of Op_MINUS 3 5] eval_u_exact [of Op_MUL "2 ^ 63" 2] eval_u_exact [of Op_MOD 7 0]
  by (simp add: arith_op_def exact_result_def representable_def clamp_s_def)

section \<open>Signed operands, exactly\<close>

lemma s_PLUS_pos:
  assumes "0 < sint l" "0 < sint (r :: u64)"
  shows "l < l + r \<and> r < l + r \<and> uint (l + r) = sint l + sint r"
proof -
  have u: "uint l = sint l" "uint r = sint r" using assms uint_sint [of l] uint_sint [of r] by simp_all
  have lt: "uint l + uint r < 2 ^ 64" using u sint_bounds [of l] sint_bounds [of r] by simp
  moreover have "l \<noteq> 0" "r \<noteq> 0" using assms by auto
  ultimately have "l < l + r \<and> r < l + r" using eval_u_plus [of l r] by simp
  moreover have "uint (l + r) = uint l + uint r"
    unfolding uint_add using lt u assms by (intro mod_pos_pos_trivial) simp_all
  ultimately show ?thesis using u by simp
qed

lemma exact_in_i64: "in_i64 v \<Longrightarrow> exact_result (Some v) = Value (clamp_s v)"
  by (simp add: exact_result_def representable_def in_i64_def)

lemma exact_signed: "in_i64 v \<Longrightarrow> signed_result v = exact_result (Some v)"
  by (simp add: signed_result_def exact_in_i64)

lemma eval_s_PLUS: "eval_binop_s l r Op_PLUS = exact_result (Some (sint l + sint r))"
proof -
  note b = sint_bounds [of l] sint_bounds [of r]
  consider "sint l = 0 \<or> sint r = 0" | "0 < sint l" "0 < sint r"
    | "(0 < sint l \<and> sint r < 0) \<or> (sint l < 0 \<and> 0 < sint r)" | "sint l < 0" "sint r < 0" by linarith
  then show ?thesis
  proof cases
    case 1
    then have "in_i64 (sint l + sint r)" by auto
    with 1 show ?thesis by (simp add: eval_binop_s_def exact_signed Let_def)
  next
    case 2
    with s_PLUS_pos [OF 2] have "exact_result (Some (sint l + sint r)) = Value (FU (l + r))"
      by (metis exact_result_uint)
    with 2 s_PLUS_pos [OF 2] show ?thesis by (simp add: eval_binop_s_def Let_def)
  next
    case 3
    then have "in_i64 (sint l + sint r)" using b by (auto simp: in_i64_def)
    with 3 show ?thesis by (auto simp add: eval_binop_s_def exact_signed Let_def)
  next
    case 4
    then have "representable (sint l + sint r) \<longleftrightarrow> \<not> sint r < i64_min - sint l"
      by (auto simp: representable_def)
    with 4 show ?thesis by (simp add: eval_binop_s_def exact_result_def clamp_s_def Let_def)
  qed
qed

text \<open>What the signed folder does with a value that exact arithmetic has.\<close>

definition s_agrees :: "fold_num fold_result \<Rightarrow> int \<Rightarrow> bool" where
  "s_agrees res v \<longleftrightarrow> (if in_i64 v then res = exact_result (Some v)
     else res \<in> {exact_result (Some v), Give_up, Undefined})"

lemma s_agrees_signed: "s_agrees (signed_result v) v"
  by (simp add: s_agrees_def exact_in_i64 signed_result_def)

lemma s_agrees_exact: "s_agrees (exact_result (Some v)) v"
  by (simp add: s_agrees_def)

lemma eval_s_MINUS: "s_agrees (eval_binop_s l r Op_MINUS) (sint l - sint r)"
proof -
  note b = sint_bounds [of l] sint_bounds [of r]
  show ?thesis
  proof (cases "sint r = 0")
    case True
    then show ?thesis
      by (simp add: eval_binop_s_def s_agrees_def exact_in_i64)
  next
    case False
    have "\<not> in_i64 (sint l - sint r)" if "0 < sint l" "sint r = i64_min"
      using that by (simp add: in_i64_def)
    moreover have "\<not> in_i64 (sint l - sint r)" if "i64_max - sint l < - sint r"
      using that by (simp add: in_i64_def)
    moreover have "\<not> in_i64 (sint l - sint r)" if "- sint r < i64_min - sint l"
      using that by (simp add: in_i64_def)
    ultimately show ?thesis using False s_agrees_signed [of "sint l - sint r"]
      by (simp add: eval_binop_s_def Let_def s_agrees_def signed_result_cases)
  qed
qed

lemma neg_magnitude_value:
  assumes "sint v < 0"
  shows "uint (neg_magnitude v) = - sint v"
proof -
  have e: "neg_magnitude v = word_of_int (- sint v)" by (simp add: neg_magnitude_def)
  show ?thesis unfolding e using assms sint_bounds [of v] by (intro uint_of_int) simp_all
qed

lemma sdiv_mult_cancel:
  assumes "l \<noteq> (0 :: int)"
  shows "(l * r) sdiv l = r"
proof -
  have "\<bar>l * r\<bar> div \<bar>l\<bar> = \<bar>r\<bar>" using assms by (simp add: abs_mult)
  moreover have "sgn (l * r) * sgn l = sgn r"
  proof -
    have "sgn l * sgn l = 1" using assms by (simp add: sgn_if)
    then show ?thesis by (metis sgn_mult mult.commute mult.left_commute mult_1_right)
  qed
  ultimately show ?thesis by (simp add: signed_divide_int_def sgn_mult_abs)
qed

lemma eval_s_MUL: "s_agrees (eval_binop_s l r Op_MUL) (sint l * sint r)"
proof -
  consider "sint l = 0 \<or> sint r = 0" | "sint l < 0" "sint r < 0"
    | "sint l \<noteq> 0" "sint r \<noteq> 0" "\<not> (sint l < 0 \<and> sint r < 0)" by blast
  then show ?thesis
  proof cases
    case 1
    then have "sint l * sint r = 0" by auto
    moreover have "eval_binop_s l r Op_MUL = Value (FU 0)" using 1 by (simp add: eval_binop_s_def)
    moreover have "exact_result (Some 0) = Value (FU 0)"
      by (simp add: exact_result_def representable_def clamp_s_def)
    ultimately show ?thesis by (metis s_agrees_exact)
  next
    case 2
    then show ?thesis
      by (simp add: eval_binop_s_def eval_u_MUL neg_magnitude_value s_agrees_exact)
  next
    case 3
    then show ?thesis using s_agrees_signed [of "sint l * sint r"]
      by (auto simp: eval_binop_s_def Let_def sdiv_mult_cancel s_agrees_def)
  qed
qed

lemma eval_s_DIV: "sint r \<noteq> 0 \<Longrightarrow> s_agrees (eval_binop_s l r Op_DIV) (sint l sdiv sint r)"
  by (simp add: eval_binop_s_def s_agrees_signed)


lemma eval_s_MOD:
  assumes "sint r \<noteq> 0"
  shows "if in_i64 (sint l sdiv sint r) then s_agrees (eval_binop_s l r Op_MOD) (sint l smod sint r)
    else eval_binop_s l r Op_MOD = Undefined"
  using assms by (simp add: eval_binop_s_def s_agrees_signed)

lemma abs_sdiv: "\<bar>l sdiv r\<bar> = \<bar>l\<bar> div \<bar>r :: int\<bar>"
proof (cases "l = 0 \<or> r = 0")
  case True then show ?thesis by (auto simp: signed_divide_int_def)
next
  case False
  then have "\<bar>sgn l * sgn r\<bar> = 1" by (simp add: abs_mult)
  moreover have "0 \<le> \<bar>l\<bar> div \<bar>r\<bar>" using False by (simp add: pos_imp_zdiv_nonneg_iff)
  ultimately show ?thesis by (simp add: signed_divide_int_def abs_mult)
qed

lemma sdiv_in_range:
  assumes "r \<noteq> 0" "in_i64 l" "\<not> (l = i64_min \<and> r = - 1)"
  shows "in_i64 (l sdiv r)"
proof (cases "\<bar>r\<bar> = 1")
  case True
  then consider "r = 1" | "r = - 1" by linarith
  then show ?thesis
  proof cases
    case 1 then show ?thesis using assms sdiv_mult_cancel [of 1 l] by simp
  next
    case 2
    then have "l sdiv r = - l" using sdiv_mult_cancel [of r "- l"] by simp
    with assms 2 show ?thesis by (simp add: in_i64_def)
  qed
next
  case False
  with assms(1) have "2 \<le> \<bar>r\<bar>" by linarith
  then have "\<bar>l\<bar> div \<bar>r\<bar> \<le> \<bar>l\<bar> div 2" by (intro zdiv_mono2) simp_all
  moreover have "\<bar>l\<bar> \<le> 2 ^ 63" using assms(2) by (simp add: in_i64_def abs_le_iff)
  ultimately have "\<bar>l sdiv r\<bar> \<le> 2 ^ 62" unfolding abs_sdiv by simp
  then have "- (2 ^ 62) \<le> l sdiv r \<and> l sdiv r \<le> 2 ^ 62" by linarith
  then show ?thesis by (simp add: in_i64_def)
qed

text \<open>On two signed literals the folder agrees with exact arithmetic whenever the exact value fits
  \<open>int64_t\<close>, with the one exception of the remainder of the least integer by -1; outside that range it
  gives the exact value, gives up, or performs an overflowing signed operation, and never produces a
  value that is wrong.\<close>

theorem eval_s_exact:
  assumes "arith_op oper" "exact_op oper (sint l) (sint r) = Some v"
    "\<not> (oper = Op_MOD \<and> sint l = i64_min \<and> sint r = - 1)"
  shows "s_agrees (eval_binop_s l r oper) v"
proof -
  have "s_agrees (eval_binop_s l r Op_MOD) (sint l smod sint r)"
    if "sint r \<noteq> 0" "\<not> (sint l = i64_min \<and> sint r = - 1)"
    using that eval_s_MOD [of r l] sdiv_in_range [of "sint r" "sint l"] by simp
  with assms eval_s_PLUS [of l r] eval_s_MINUS [of l r] eval_s_MUL [of l r] eval_s_DIV [of r l]
  show ?thesis by (auto simp: arith_op_def s_agrees_exact split: if_splits)
qed

lemma eval_s_exact_witness:
  "s_agrees (eval_binop_s (- 7) 2 Op_DIV) (- 3) \<and> s_agrees (eval_binop_s (- 7) 2 Op_MUL) (- 14)"
proof -
  have v: "sint (- 7 :: u64) = - 7" "sint (2 :: u64) = 2" by simp_all
  have d: "(- 7) sdiv 2 = (- 3 :: int)" by (simp add: signed_divide_int_def)
  show ?thesis
    using eval_s_exact [of Op_DIV "- 7" 2 "- 3"] eval_s_exact [of Op_MUL "- 7" 2 "- 14"]
    by (simp add: arith_op_def v d)
qed

text \<open>Dividing the least integer by -1, and taking its remainder, is folded with the C++ operators
  and has no defined result.\<close>

theorem eval_s_traps:
  assumes "oper = Op_DIV \<or> oper = Op_MOD"
  shows "eval_binop_s (2 ^ 63) (- 1) oper = Undefined"
proof -
  have "sint (2 ^ 63 :: u64) = i64_min" "sint (- 1 :: u64) = - 1" by simp_all
  then show ?thesis using assms
    by (auto simp: eval_binop_s_def signed_result_def in_i64_def signed_divide_int_def)
qed

lemma eval_s_traps_witness: "eval_binop_s (2 ^ 63) (- 1) Op_MOD = Undefined"
  using eval_s_traps [of Op_MOD] by simp

text \<open>A left shift of a boolean is folded to the comparison \<open>left < right\<close>.\<close>

lemma bool_shift_is_compare:
  "make_boolean_b True False Op_LEFT = Some (False, False)"
  "make_boolean_b False True Op_LEFT = Some (True, False)"
  by (simp_all add: make_boolean_b_def)

end
