(* ===== verification/Fold_Literals.thy ===== *)
theory Fold_Literals
  imports Fold_Arith Attach_Parser AST_State
begin

text \<open>
  \<open>LiteralFolder\<close> of \<open>src/ast/passes/fold_literals.cpp\<close>, with the default traversal of
  \<open>src/ast/visitor.h\<close> for the nodes it does not handle. The visit of a node returns the node as it was
  changed in place together with the expression that replaces it, if any; only the visit of an
  \<open>Expression\<close> puts the replacement in. The diagnostics are the state.
\<close>

section \<open>State and results\<close>

datatype diag = Diag_error string | Diag_warning string

text \<open>
  A run stops at a \<open>LOG(BUG)\<close>, at an undefined operation of C++, at an exception, or when the model's
  fuel is used up.
\<close>

datatype stop = Stop_bug | Stop_undefined | Stop_throw | Stop_fuel

type_synonym 'a fold_m = "diag list \<Rightarrow> stop + 'a \<times> diag list"

definition ret :: "'a \<Rightarrow> 'a fold_m" where
  "ret x = (\<lambda>d. Inr (x, d))"

definition bind :: "'a fold_m \<Rightarrow> ('a \<Rightarrow> 'b fold_m) \<Rightarrow> 'b fold_m" where
  "bind m f = (\<lambda>d. case m d of Inl s \<Rightarrow> Inl s | Inr p \<Rightarrow> f (fst p) (snd p))"

definition halt :: "stop \<Rightarrow> 'a fold_m" where
  "halt s = (\<lambda>d. Inl s)"

definition emit :: "diag \<Rightarrow> 'a \<Rightarrow> 'a fold_m" where
  "emit e x = (\<lambda>d. Inr (x, d @ [e]))"

primrec each :: "('a \<Rightarrow> 'b fold_m) \<Rightarrow> 'a list \<Rightarrow> 'b list fold_m" where
  "each f [] = ret []"
| "each f (x # xs) = bind (f x) (\<lambda>y. bind (each f xs) (\<lambda>ys. ret (y # ys)))"

text \<open>The parameters of the program, when there is one, and the attach points of the probe around.\<close>

record fold_env =
  fe_params :: "string list option"
  fe_probe :: "attach_point list option"

type_synonym visited = "expression \<times> expression option"
type_synonym node_visitor = "bool \<Rightarrow> expression \<Rightarrow> visited fold_m"

definition flow_error :: diag where
  "flow_error = Diag_error ''unable to fold literals due to overflow or underflow''"

definition comptime_error :: diag where
  "comptime_error = Diag_error ''Unable to evaluate at compile time.''"

section \<open>Expressions and statements\<close>

definition outcome :: "visited \<Rightarrow> expression" where
  "outcome v = (case snd v of None \<Rightarrow> fst v | Some e \<Rightarrow> e)"

text \<open>\<open>visit(Expression &)\<close>.\<close>

definition visit_expr :: "node_visitor \<Rightarrow> bool \<Rightarrow> expression \<Rightarrow> expression fold_m" where
  "visit_expr V ct e = bind (V ct e) (\<lambda>v. ret (outcome v))"

text \<open>\<open>visit(Variable &)\<close> and \<open>visit(Map &)\<close>, which change nothing.\<close>

definition visit_name :: "bool \<Rightarrow> unit fold_m" where
  "visit_name ct = (if ct then emit comptime_error () else ret ())"

fun visit_te :: "node_visitor \<Rightarrow> bool \<Rightarrow> type_or_expr \<Rightarrow> type_or_expr fold_m" where
  "visit_te V ct (TE_expr e) = bind (visit_expr V ct e) (\<lambda>e. ret (TE_expr e))"
| "visit_te V ct (TE_type t) = ret (TE_type t)"

fun visit_opt :: "('a \<Rightarrow> 'a fold_m) \<Rightarrow> 'a option \<Rightarrow> 'a option fold_m" where
  "visit_opt f None = ret None"
| "visit_opt f (Some x) = bind (f x) (\<lambda>y. ret (Some y))"

fun visit_iterable :: "node_visitor \<Rightarrow> bool \<Rightarrow> iterable \<Rightarrow> iterable fold_m" where
  "visit_iterable V ct (It_map m) = bind (visit_name ct) (\<lambda>_. ret (It_map m))"
| "visit_iterable V ct (It_range a b) =
     bind (visit_expr V ct a) (\<lambda>a. bind (visit_expr V ct b) (\<lambda>b. ret (It_range a b)))"

text \<open>The default visits of the statements, in the order of \<open>visitor.h\<close>.\<close>

fun visit_stmt :: "node_visitor \<Rightarrow> bool \<Rightarrow> statement \<Rightarrow> statement fold_m"
  and visit_stmts :: "node_visitor \<Rightarrow> bool \<Rightarrow> statement list \<Rightarrow> statement list fold_m" where
  "visit_stmt V ct (ExprStatement e) = bind (visit_expr V ct e) (\<lambda>e. ret (ExprStatement e))"
| "visit_stmt V ct (VarDeclStatement v te) =
     bind (visit_name ct) (\<lambda>_. bind (visit_opt (visit_te V ct) te) (\<lambda>te. ret (VarDeclStatement v te)))"
| "visit_stmt V ct (AssignScalarMapStatement m e) =
     bind (visit_name ct) (\<lambda>_. bind (visit_expr V ct e) (\<lambda>e. ret (AssignScalarMapStatement m e)))"
| "visit_stmt V ct (AssignMapStatement m k e) =
     bind (visit_name ct) (\<lambda>_. bind (visit_expr V ct k) (\<lambda>k. bind (visit_expr V ct e) (\<lambda>e.
       ret (AssignMapStatement m k e))))"
| "visit_stmt V ct (AssignVarStatement decl v te e) =
     bind (visit_name ct) (\<lambda>_. bind (visit_opt (visit_te V ct) te) (\<lambda>te. bind (visit_expr V ct e) (\<lambda>e.
       ret (AssignVarStatement decl v te e))))"
| "visit_stmt V ct (Unroll e ss b) =
     bind (visit_expr V ct e) (\<lambda>e. bind (visit_stmts V ct ss) (\<lambda>ss. bind (visit_expr V ct b) (\<lambda>b.
       ret (Unroll e ss b))))"
| "visit_stmt V ct (Jump j r) = bind (visit_opt (visit_expr V ct) r) (\<lambda>r. ret (Jump j r))"
| "visit_stmt V ct (While c ss b) =
     bind (visit_expr V ct c) (\<lambda>c. bind (visit_stmts V ct ss) (\<lambda>ss. bind (visit_expr V ct b) (\<lambda>b.
       ret (While c ss b))))"
| "visit_stmt V ct (For v it ss b t) =
     bind (visit_name ct) (\<lambda>_. bind (visit_iterable V ct it) (\<lambda>it. bind (visit_stmts V ct ss) (\<lambda>ss.
       bind (visit_expr V ct b) (\<lambda>b. ret (For v it ss b t)))))"
| "visit_stmts V ct [] = ret []"
| "visit_stmts V ct (s # ss) = bind (visit_stmt V ct s) (\<lambda>s. bind (visit_stmts V ct ss) (\<lambda>ss. ret (s # ss)))"

section \<open>Literals\<close>

text \<open>\<open>eval_bool\<close>; \<open>None\<close> is its \<open>LOG(BUG)\<close>.\<close>

fun eval_bool :: "expression \<Rightarrow> bool option" where
  "eval_bool (Integer n t) = Some (n \<noteq> 0)"
| "eval_bool (NegativeInteger n t) = Some True"
| "eval_bool (StringE s t) = Some (s \<noteq> [])"
| "eval_bool (Boolean b) = Some b"
| "eval_bool _ = None"

definition literal_bool :: "expression \<Rightarrow> bool fold_m" where
  "literal_bool e = (case eval_bool e of None \<Rightarrow> halt Stop_bug | Some b \<Rightarrow> ret b)"

fun num_expr :: "fold_num \<Rightarrow> expression" where
  "num_expr (FU n) = new_integer n"
| "num_expr (FS n) = new_negative n"

section \<open>Unary operators\<close>

fun unop_value :: "operator \<Rightarrow> expression \<Rightarrow> expression option fold_m" where
  "unop_value oper (Integer n t) =
     (if oper = Op_BNOT then ret (Some (new_integer (NOT n)))
      else if oper = Op_LNOT then ret (Some (Boolean (n = 0)))
      else if oper = Op_MINUS then
        (if 0x7FFFFFFFFFFFFFFF + 1 < n then emit (Diag_error ''negative value will underflow'') None
         else if n = 0 then ret (Some (Integer n t))
         else if n \<le> 1 then ret (Some (new_negative (- n)))
         else ret (Some (new_negative (- 1 - (n - 1)))))
      else ret None)"
| "unop_value oper (NegativeInteger n t) =
     (if oper = Op_BNOT then ret (Some (new_integer (NOT n)))
      else if oper = Op_LNOT then ret (Some (Boolean (n = 0)))
      else if oper = Op_MINUS then
        (if sint n = i64_max then halt Stop_undefined
         else ret (Some (new_integer (- (n + 1) + 1))))
      else ret None)"
| "unop_value oper (Boolean b) = ret (if oper = Op_LNOT then Some (Boolean (\<not> b)) else None)"
| "unop_value oper _ = ret None"

definition fold_unop :: "node_visitor \<Rightarrow> bool \<Rightarrow> expression \<Rightarrow> operator \<Rightarrow> sized_type \<Rightarrow> visited fold_m" where
  "fold_unop V ct e oper t =
     bind (visit_expr V ct e) (\<lambda>e. bind (unop_value oper e) (\<lambda>r. ret (Unop e oper t, r)))"

section \<open>Binary operators\<close>

definition make_boolean :: "bool \<Rightarrow> bool \<Rightarrow> operator \<Rightarrow> expression option fold_m" where
  "make_boolean l r oper =
     (case make_boolean_b l r oper of
        None \<Rightarrow> halt Stop_bug
      | Some (v, err) \<Rightarrow> (if err then emit flow_error else ret) (Some (Boolean v)))"

text \<open>
  \<open>visit(Binop &)\<close> once a string was found on one side: \<open>str\<close> is it, the left one if both are, and
  \<open>other\<close> is the other side. \<open>rs->value.empty()\<close> of \<open>LAND\<close> and \<open>LOR\<close> stands as it is in the code.
\<close>

definition string_binop :: "string \<Rightarrow> operator \<Rightarrow> expression \<Rightarrow> expression option fold_m" where
  "string_binop str oper other =
     (case other of
        Integer n t \<Rightarrow>
          if oper = Op_PLUS then
            (if length str \<le> unat n
             then emit (Diag_warning ''literal string will always be empty'') (Some (new_string []))
             else ret (Some (new_string (drop (unat n) str))))
          else ret None
      | Boolean b \<Rightarrow>
          if oper = Op_LAND \<or> oper = Op_LOR then make_boolean (str \<noteq> []) b oper else ret None
      | StringE rs t \<Rightarrow>
          (case oper of
             Op_EQ \<Rightarrow> ret (Some (Boolean (str = rs)))
           | Op_NE \<Rightarrow> ret (Some (Boolean (str \<noteq> rs)))
           | Op_LE \<Rightarrow> ret (Some (Boolean (cmp_string str rs \<noteq> Greater)))
           | Op_GE \<Rightarrow> ret (Some (Boolean (cmp_string str rs \<noteq> Less)))
           | Op_LT \<Rightarrow> ret (Some (Boolean (cmp_string str rs = Less)))
           | Op_GT \<Rightarrow> ret (Some (Boolean (cmp_string str rs = Greater)))
           | Op_LAND \<Rightarrow> ret (Some (Boolean (str \<noteq> [] \<and> rs = [])))
           | Op_LOR \<Rightarrow> ret (Some (Boolean (str \<noteq> [] \<or> rs = [])))
           | Op_PLUS \<Rightarrow> ret (Some (new_string (str @ rs)))
           | _ \<Rightarrow> emit (Diag_error ''illegal literal operation with strings'') None)
      | _ \<Rightarrow> ret None)"

text \<open>
  The boolean cases: \<open>boolean\<close> is the left side, or the right one if the left is not a boolean. With
  \<open>None\<close> the code goes on to the next cases.
\<close>

definition boolean_binop :: "bool \<Rightarrow> operator \<Rightarrow> expression \<Rightarrow> expression option fold_m option" where
  "boolean_binop boolean oper other =
     (case other of
        Boolean b \<Rightarrow> Some (make_boolean boolean b oper)
      | Integer n t \<Rightarrow>
          if oper = Op_LAND \<or> oper = Op_LOR then Some (make_boolean boolean (n \<noteq> 0) oper) else None
      | NegativeInteger n t \<Rightarrow>
          if oper = Op_LAND \<or> oper = Op_LOR then Some (make_boolean boolean True oper) else None
      | _ \<Rightarrow> None)"

text \<open>
  The body of the loop of \<open>compare_tuples\<close> on two literals: whether they are the same, or, with
  \<open>None\<close>, that both are tuples.
\<close>

definition literals_same :: "expression \<Rightarrow> expression \<Rightarrow> bool option" where
  "literals_same l r =
     (case l of
        Integer a t \<Rightarrow> Some (case r of Integer b t' \<Rightarrow> a = b | _ \<Rightarrow> False)
      | NegativeInteger a t \<Rightarrow> Some (case r of NegativeInteger b t' \<Rightarrow> a = b | _ \<Rightarrow> False)
      | StringE a t \<Rightarrow> Some (case r of StringE b t' \<Rightarrow> a = b | _ \<Rightarrow> False)
      | Boolean a \<Rightarrow> Some (case r of Boolean b \<Rightarrow> a = b | _ \<Rightarrow> False)
      | Tuple es t \<Rightarrow> (case r of Tuple es' t' \<Rightarrow> None | _ \<Rightarrow> Some False)
      | _ \<Rightarrow> Some True)"

fun tuple_elems :: "expression \<Rightarrow> expression list" where
  "tuple_elems (Tuple es t) = es"
| "tuple_elems _ = []"

text \<open>
  \<open>compare_tuples\<close> visits its own copies of the elements, so a replacement is compared and not put in
  the tuple; what a visit changes in place stays. Two nested tuples end the loop with their own result.
  They are literals by then, so comparing them changes nothing. The first argument is the fuel for the
  nesting; \<open>compare_tuples\<close> with the sizes is \<open>compare_sized\<close>.
\<close>

fun compare_elems :: "nat \<Rightarrow> node_visitor \<Rightarrow> bool \<Rightarrow> expression list \<Rightarrow> expression list
    \<Rightarrow> (bool option \<times> expression list \<times> expression list) fold_m" where
  "compare_elems n V ct [] rs = ret (Some True, [], rs)"
| "compare_elems n V ct (l # ls) [] = ret (Some True, l # ls, [])"
| "compare_elems n V ct (l # ls) (r # rs) =
     bind (V ct l) (\<lambda>lv. bind (V ct r) (\<lambda>rv.
       if \<not> is_literal (outcome lv) \<or> \<not> is_literal (outcome rv) then
         ret (None, fst lv # ls, fst rv # rs)
       else case literals_same (outcome lv) (outcome rv) of
           Some True \<Rightarrow>
             bind (compare_elems n V ct ls rs) (\<lambda>(same, ls', rs').
               ret (same, fst lv # ls', fst rv # rs'))
         | Some False \<Rightarrow> ret (Some False, fst lv # ls, fst rv # rs)
         | None \<Rightarrow>
             (case n of
                0 \<Rightarrow> halt Stop_fuel
              | Suc m \<Rightarrow>
                  (let es = tuple_elems (outcome lv); es' = tuple_elems (outcome rv)
                   in if length es \<noteq> length es' then ret (Some False, fst lv # ls, fst rv # rs)
                      else bind (compare_elems m V ct es es') (\<lambda>(same, _, _).
                             ret (same, fst lv # ls, fst rv # rs))))))"

definition compare_tuples :: "nat \<Rightarrow> node_visitor \<Rightarrow> bool \<Rightarrow> expression list \<Rightarrow> expression list
    \<Rightarrow> (bool option \<times> expression list \<times> expression list) fold_m" where
  "compare_tuples n V ct ls rs =
     (if length ls \<noteq> length rs then ret (Some False, ls, rs) else compare_elems n V ct ls rs)"

text \<open>
  The integer cases: \<open>None\<close> if an operand is no integer, else the boolean of a comparison or the result
  of \<open>eval_binop\<close>. A positive operand above the range of \<open>int64_t\<close> beside a negative one has no result.
\<close>

definition int_pair :: "int \<Rightarrow> int \<Rightarrow> operator \<Rightarrow> fold_num fold_result \<Rightarrow> bool option + fold_num fold_result" where
  "int_pair l r oper arith = (if is_comparison_op oper then Inl (make_boolean_i l r oper) else Inr arith)"

definition int_operands :: "expression \<Rightarrow> operator \<Rightarrow> expression
    \<Rightarrow> (bool option + fold_num fold_result) option" where
  "int_operands l oper r =
     (case l of
        Integer a t \<Rightarrow>
          (case r of
             Integer b t' \<Rightarrow> Some (int_pair (uint a) (uint b) oper (eval_binop_u a b oper))
           | NegativeInteger b t' \<Rightarrow>
               Some (if a \<le> 0x7FFFFFFFFFFFFFFF
                 then int_pair (sint a) (sint b) oper (eval_binop_s a b oper) else Inr Give_up)
           | _ \<Rightarrow> None)
      | NegativeInteger a t \<Rightarrow>
          (case r of
             Integer b t' \<Rightarrow>
               Some (if b \<le> 0x7FFFFFFFFFFFFFFF
                 then int_pair (sint a) (sint b) oper (eval_binop_s a b oper) else Inr Give_up)
           | NegativeInteger b t' \<Rightarrow> Some (int_pair (sint a) (sint b) oper (eval_binop_s a b oper))
           | _ \<Rightarrow> None)
      | _ \<Rightarrow> None)"

fun int_binop :: "(bool option + fold_num fold_result) option \<Rightarrow> expression option fold_m" where
  "int_binop None = ret None"
| "int_binop (Some (Inl None)) = halt Stop_bug"
| "int_binop (Some (Inl (Some b))) = ret (Some (Boolean b))"
| "int_binop (Some (Inr (Value n))) = ret (Some (num_expr n))"
| "int_binop (Some (Inr Give_up)) = emit flow_error None"
| "int_binop (Some (Inr Bug)) = halt Stop_bug"
| "int_binop (Some (Inr Undefined)) = halt Stop_undefined"

text \<open>\<open>visit(Binop &)\<close> after its two sides were visited: the sides, and the replacement.\<close>

definition tuple_or_int :: "nat \<Rightarrow> node_visitor \<Rightarrow> bool \<Rightarrow> expression \<Rightarrow> operator \<Rightarrow> expression
    \<Rightarrow> (expression \<times> expression \<times> expression option) fold_m" where
  "tuple_or_int n V ct l oper r =
     (case (l, r) of
        (Tuple ls t, Tuple rs t') \<Rightarrow>
          if oper = Op_EQ \<or> oper = Op_NE then
            bind (compare_tuples n V ct ls rs) (\<lambda>(same, ls', rs').
              ret (Tuple ls' t, Tuple rs' t',
                   map_option (\<lambda>s. Boolean (if s then oper = Op_EQ else oper = Op_NE)) same))
          else ret (l, r, None)
      | _ \<Rightarrow> bind (int_binop (int_operands l oper r)) (\<lambda>res. ret (l, r, res)))"

fun as_string :: "expression \<Rightarrow> string option" where
  "as_string (StringE s t) = Some s" | "as_string _ = None"

fun as_integer :: "expression \<Rightarrow> u64 option" where
  "as_integer (Integer n t) = Some n" | "as_integer _ = None"

fun as_boolean :: "expression \<Rightarrow> bool option" where
  "as_boolean (Boolean b) = Some b" | "as_boolean _ = None"

definition binop_boolean :: "expression \<Rightarrow> operator \<Rightarrow> expression \<Rightarrow> expression option fold_m option" where
  "binop_boolean l oper r =
     (case as_boolean l of
        Some b \<Rightarrow> boolean_binop b oper r
      | None \<Rightarrow> (case as_boolean r of Some b \<Rightarrow> boolean_binop b oper l | None \<Rightarrow> None))"

definition binop_value :: "nat \<Rightarrow> node_visitor \<Rightarrow> bool \<Rightarrow> expression \<Rightarrow> operator \<Rightarrow> expression
    \<Rightarrow> (expression \<times> expression \<times> expression option) fold_m" where
  "binop_value n V ct l oper r =
     (case (as_string l, as_string r) of
        (Some s, _) \<Rightarrow> bind (string_binop s oper r) (\<lambda>res. ret (l, r, res))
      | (None, Some s) \<Rightarrow> bind (string_binop s oper l) (\<lambda>res. ret (l, r, res))
      | (None, None) \<Rightarrow>
          (case binop_boolean l oper r of
             Some m \<Rightarrow> bind m (\<lambda>res. ret (l, r, res))
           | None \<Rightarrow> tuple_or_int n V ct l oper r))"

definition fold_binop :: "nat \<Rightarrow> node_visitor \<Rightarrow> bool \<Rightarrow> expression \<Rightarrow> operator \<Rightarrow> expression \<Rightarrow> sized_type
    \<Rightarrow> visited fold_m" where
  "fold_binop n V ct l oper r t =
     bind (visit_expr V ct l) (\<lambda>l. bind (visit_expr V ct r) (\<lambda>r.
       bind (binop_value n V ct l oper r) (\<lambda>(l, r, res). ret (Binop l oper r t, res))))"

section \<open>The other handlers\<close>

definition fold_cast :: "node_visitor \<Rightarrow> bool \<Rightarrow> type_or_expr \<Rightarrow> expression \<Rightarrow> visited fold_m" where
  "fold_cast V ct te e =
     bind (visit_expr V ct e) (\<lambda>e.
       if ty (typeof_type te) = Ty_boolean \<and> is_literal e then
         bind (literal_bool e) (\<lambda>b. ret (Cast te e, Some (Boolean b)))
       else ret (Cast te e, None))"

fun as_comptime :: "expression \<Rightarrow> expression option" where
  "as_comptime (Comptime e) = Some e" | "as_comptime _ = None"

text \<open>\<open>visit(IfExpr &)\<close>, for a condition that is \<open>comptime\<close>, and for any other.\<close>

definition if_comptime :: "node_visitor \<Rightarrow> bool \<Rightarrow> expression \<Rightarrow> expression \<Rightarrow> expression \<Rightarrow> sized_type
    \<Rightarrow> visited fold_m" where
  "if_comptime V ct e l r t =
     bind (visit_expr V ct e) (\<lambda>e.
       if is_literal e then
         bind (literal_bool e) (\<lambda>b. ret (IfExpr (Comptime e) l r t, Some (if b then l else r)))
       else ret (IfExpr (Comptime e) l r t, None))"

definition if_plain :: "node_visitor \<Rightarrow> bool \<Rightarrow> expression \<Rightarrow> expression \<Rightarrow> expression \<Rightarrow> sized_type
    \<Rightarrow> visited fold_m" where
  "if_plain V ct c l r t =
     bind (visit_expr V ct c) (\<lambda>c.
       if is_literal c then
         bind (literal_bool c) (\<lambda>b.
           if is_literal l \<and> is_literal r
           then ret (IfExpr c l r t, Some (if b then l else r))
           else ret (IfExpr (Boolean b) l r t, None))
       else ret (IfExpr c l r t, None))"

definition fold_if :: "node_visitor \<Rightarrow> bool \<Rightarrow> expression \<Rightarrow> expression \<Rightarrow> expression \<Rightarrow> sized_type
    \<Rightarrow> visited fold_m" where
  "fold_if V ct c l r t =
     bind (visit_expr V ct l) (\<lambda>l. bind (visit_expr V ct r) (\<lambda>r.
       case as_comptime c of
         Some e \<Rightarrow> if_comptime V ct e l r t
       | None \<Rightarrow> if_plain V ct c l r t))"

definition param_count :: "fold_env \<Rightarrow> visited fold_m" where
  "param_count env =
     (case fe_params env of
        None \<Rightarrow> ret (PositionalParameterCount, None)
      | Some ps \<Rightarrow> ret (PositionalParameterCount, Some (new_integer (of_nat (length ps)))))"

text \<open>The index of a parameter is converted to \<open>size_t\<close>.\<close>

definition param_text :: "string list \<Rightarrow> int \<Rightarrow> string fold_m" where
  "param_text ps n = (case get_param ps (nat (n mod 2 ^ 64)) of None \<Rightarrow> halt Stop_throw | Some s \<Rightarrow> ret s)"

definition param_literal :: "string \<Rightarrow> expression fold_m" where
  "param_literal s =
     (if hd s = CHR ''-'' then
        (case to_int s 0 of
           None \<Rightarrow> halt Stop_undefined
         | Some (Inl err) \<Rightarrow> ret (new_string s)
         | Some (Inr v) \<Rightarrow> ret (new_negative (word_of_int v)))
      else
        (case to_uint s 0 of
           Inl err \<Rightarrow> ret (new_string s)
         | Inr v \<Rightarrow> ret (new_integer (of_nat v))))"

definition positional_parameter :: "fold_env \<Rightarrow> int \<Rightarrow> visited fold_m" where
  "positional_parameter env n =
     (case fe_params env of
        None \<Rightarrow> ret (PositionalParameter n, None)
      | Some ps \<Rightarrow>
          bind (param_text ps n) (\<lambda>s.
            if s = [] then
              emit (Diag_warning (''Positional parameter $'' @ show_int n @ '' is empty or not provided. ''))
                (PositionalParameter n, Some (new_integer 0))
            else bind (param_literal s) (\<lambda>e. ret (PositionalParameter n, Some e))))"

text \<open>
  In \<open>str\<close>, a positional parameter that is the first argument, or the left side of a sum that is, is
  taken as a string. \<open>None\<close>: the call can not be folded yet.
\<close>

definition str_argument :: "fold_env \<Rightarrow> expression \<Rightarrow> expression option fold_m" where
  "str_argument env arg =
     (case arg of
        PositionalParameter n \<Rightarrow>
          (case fe_params env of
             None \<Rightarrow> ret None
           | Some ps \<Rightarrow> bind (param_text ps n) (\<lambda>s. ret (Some (new_string s))))
      | Binop l oper r t \<Rightarrow>
          (case l of
             PositionalParameter n \<Rightarrow>
               if oper = Op_PLUS then
                 (case fe_params env of
                    None \<Rightarrow> ret None
                  | Some ps \<Rightarrow> bind (param_text ps n) (\<lambda>s. ret (Some (Binop (new_string s) oper r t))))
               else ret (Some arg)
           | _ \<Rightarrow> ret (Some arg))
      | _ \<Rightarrow> ret (Some arg))"

definition literal_text :: "expression \<Rightarrow> string option" where
  "literal_text e =
     (case e of
        Integer n t \<Rightarrow> Some (show_nat (unat n))
      | NegativeInteger n t \<Rightarrow> Some (show_int (sint n))
      | StringE s t \<Rightarrow> Some s
      | _ \<Rightarrow> None)"

fun str_value :: "expression list \<Rightarrow> string option" where
  "str_value [] = None"
| "str_value [e] = literal_text e"
| "str_value (e # e' # es) =
     (case literal_text e of
        None \<Rightarrow> None
      | Some s \<Rightarrow>
          (case e' of
             Integer n t \<Rightarrow> Some (if unat n \<le> length s then take (unat n) s else s)
           | _ \<Rightarrow> None))"

definition fold_call :: "node_visitor \<Rightarrow> fold_env \<Rightarrow> bool \<Rightarrow> string \<Rightarrow> expression list \<Rightarrow> sized_type \<Rightarrow> nat
    \<Rightarrow> bool \<Rightarrow> visited fold_m" where
  "fold_call V env ct f args t nj disc =
     (if f = ''str'' \<and> args \<noteq> [] then
        bind (str_argument env (hd args)) (\<lambda>first.
          case first of
            None \<Rightarrow> ret (Call f args t nj disc, None)
          | Some a \<Rightarrow>
              bind (each (visit_expr V ct) (a # tl args)) (\<lambda>args'.
                ret (Call f args' t nj disc, map_option new_string (str_value args'))))
      else if \<not> ct then
        bind (each (visit_expr V ct) args) (\<lambda>args'. ret (Call f args' t nj disc, None))
      else emit (Diag_error ''Unable to evaluate call at compilation time.'') (Call f args t nj disc, None))"

text \<open>The first attach point on which the builtin is not available decides.\<close>

fun usermode_value :: "attach_point list \<Rightarrow> expression option fold_m" where
  "usermode_value [] = ret None"
| "usermode_value (ap # aps) =
     (case check_available ap ''__builtin_usermode'' of
        None \<Rightarrow> halt Stop_bug
      | Some True \<Rightarrow> usermode_value aps
      | Some False \<Rightarrow> ret (Some (new_integer (if probetype (provider ap) = PT_special then 1 else 0))))"

definition fold_builtin :: "fold_env \<Rightarrow> string \<Rightarrow> int \<Rightarrow> sized_type \<Rightarrow> visited fold_m" where
  "fold_builtin env i p t =
     (case fe_probe env of
        Some aps \<Rightarrow>
          if i = ''__builtin_usermode'' then bind (usermode_value aps) (\<lambda>r. ret (Builtin i p t, r))
          else ret (Builtin i p t, None)
      | None \<Rightarrow> ret (Builtin i p t, None))"

fun is_tuple :: "expression \<Rightarrow> bool" where
  "is_tuple (Tuple es t) = True" | "is_tuple _ = False"

definition fold_block :: "node_visitor \<Rightarrow> bool \<Rightarrow> statement list \<Rightarrow> expression \<Rightarrow> visited fold_m" where
  "fold_block V ct ss e =
     bind (visit_stmts V ct ss) (\<lambda>ss. bind (visit_expr V ct e) (\<lambda>e.
       ret (BlockExpr ss e, if ss = [] \<and> (is_literal e \<or> is_tuple e) then Some e else None)))"

text \<open>A \<open>char\<close> of the string is signed; at the length of the string there is the final null.\<close>

definition char_value :: "string \<Rightarrow> nat \<Rightarrow> u64" where
  "char_value s i = (if i < length s then scast (word_of_nat (char_code (s ! i)) :: 8 word) else 0)"

definition array_value :: "bool \<Rightarrow> expression \<Rightarrow> expression \<Rightarrow> expression option fold_m" where
  "array_value ct e i =
     (case as_string e of
        Some s \<Rightarrow>
          (case as_integer i of
             Some n \<Rightarrow>
               ret (if length s < unat n then None else Some (new_integer (char_value s (unat n))))
           | None \<Rightarrow> ret None)
      | None \<Rightarrow>
          if ty (expr_type e) = Ty_tuple then
            (case as_integer i of
               Some n \<Rightarrow> ret (Some (TupleAccess e (unat n) create_none))
             | None \<Rightarrow> emit (Diag_error ''Array-style access for tuples only valid for integer literals'') None)
          else if ct then emit comptime_error None
          else ret None)"

definition fold_array_access :: "node_visitor \<Rightarrow> bool \<Rightarrow> expression \<Rightarrow> expression \<Rightarrow> sized_type
    \<Rightarrow> visited fold_m" where
  "fold_array_access V ct e i t =
     bind (visit_expr V ct e) (\<lambda>e. bind (visit_expr V ct i) (\<lambda>i.
       bind (array_value ct e i) (\<lambda>r. ret (ArrayAccess e i t, r))))"

definition fold_tuple_access :: "node_visitor \<Rightarrow> bool \<Rightarrow> expression \<Rightarrow> nat \<Rightarrow> sized_type \<Rightarrow> visited fold_m" where
  "fold_tuple_access V ct e i t =
     bind (visit_expr V ct e) (\<lambda>e.
       ret (TupleAccess e i t,
            if is_tuple e \<and> (ct \<or> is_literal e) \<and> i < length (tuple_elems e) then Some (tuple_elems e ! i)
            else None))"

definition fold_comptime :: "node_visitor \<Rightarrow> expression \<Rightarrow> visited fold_m" where
  "fold_comptime V e =
     bind (visit_expr V True e) (\<lambda>e.
       ret (Comptime e,
            if is_literal e then Some e else as_comptime e))"

section \<open>The visitor\<close>

text \<open>One node, given the visitor of its children and the fuel left for comparing tuples.\<close>

fun visit_node :: "nat \<Rightarrow> node_visitor \<Rightarrow> fold_env \<Rightarrow> bool \<Rightarrow> expression \<Rightarrow> visited fold_m" where
  "visit_node n V env ct (Cast te e) = fold_cast V ct te e"
| "visit_node n V env ct (Unop e oper t) = fold_unop V ct e oper t"
| "visit_node n V env ct (Binop l oper r t) = fold_binop n V ct l oper r t"
| "visit_node n V env ct (IfExpr c l r t) = fold_if V ct c l r t"
| "visit_node n V env ct PositionalParameterCount = param_count env"
| "visit_node n V env ct (PositionalParameter i) = positional_parameter env i"
| "visit_node n V env ct (Call f args t nj disc) = fold_call V env ct f args t nj disc"
| "visit_node n V env ct (Builtin i p t) = fold_builtin env i p t"
| "visit_node n V env ct (BlockExpr ss e) = fold_block V ct ss e"
| "visit_node n V env ct (ArrayAccess e i t) = fold_array_access V ct e i t"
| "visit_node n V env ct (TupleAccess e i t) = fold_tuple_access V ct e i t"
| "visit_node n V env ct (Comptime e) = fold_comptime V e"
| "visit_node n V env ct (VariableE v) = bind (visit_name ct) (\<lambda>_. ret (VariableE v, None))"
| "visit_node n V env ct (MapE m) = bind (visit_name ct) (\<lambda>_. ret (MapE m, None))"
| "visit_node n V env ct (VariableAddr v t) = bind (visit_name ct) (\<lambda>_. ret (VariableAddr v t, None))"
| "visit_node n V env ct (MapAddr m) = bind (visit_name ct) (\<lambda>_. ret (MapAddr m, None))"
| "visit_node n V env ct (Sizeof te) = bind (visit_te V ct te) (\<lambda>te. ret (Sizeof te, None))"
| "visit_node n V env ct (Offsetof te fs) = bind (visit_te V ct te) (\<lambda>te. ret (Offsetof te fs, None))"
| "visit_node n V env ct (Typeinfo te) = bind (visit_te V ct te) (\<lambda>te. ret (Typeinfo te, None))"
| "visit_node n V env ct (FieldAccess e fd t) = bind (visit_expr V ct e) (\<lambda>e. ret (FieldAccess e fd t, None))"
| "visit_node n V env ct (MapAccess m k) =
     bind (visit_name ct) (\<lambda>_. bind (visit_expr V ct k) (\<lambda>k. ret (MapAccess m k, None)))"
| "visit_node n V env ct (Tuple es t) = bind (each (visit_expr V ct) es) (\<lambda>es. ret (Tuple es t, None))"
| "visit_node n V env ct e = ret (e, None)"

primrec visit_fuel :: "nat \<Rightarrow> fold_env \<Rightarrow> node_visitor" where
  "visit_fuel 0 env = (\<lambda>ct e. halt Stop_fuel)"
| "visit_fuel (Suc n) env = (\<lambda>ct e. visit_node n (visit_fuel n env) env ct e)"

text \<open>\<open>fold(ast, expr)\<close>, and the visit of an expression in the pass; the fuel is the depth of the tree.\<close>

definition fold_expr :: "fold_env \<Rightarrow> expression \<Rightarrow> stop + expression \<times> diag list" where
  "fold_expr env e = visit_expr (visit_fuel (depth e) env) False e []"

definition fold_literals :: "expression \<Rightarrow> stop + expression \<times> diag list" where
  "fold_literals e = fold_expr \<lparr>fe_params = None, fe_probe = None\<rparr> e"

section \<open>Programs\<close>

text \<open>
  \<open>CreateFoldLiteralsPass\<close>: the functions are visited before the probes, so no probe is around them.
\<close>

definition block_depth :: "statement list \<Rightarrow> expression \<Rightarrow> nat" where
  "block_depth ss e = Suc (max (depth_ss ss) (depth e))"

definition fold_body :: "fold_env \<Rightarrow> nat \<Rightarrow> statement list \<Rightarrow> expression
    \<Rightarrow> (statement list \<times> expression) fold_m" where
  "fold_body env n ss e =
     bind (fold_block (visit_fuel n env) False ss e) (\<lambda>v.
       ret (case fst v of BlockExpr ss' e' \<Rightarrow> (ss', e') | _ \<Rightarrow> (ss, e)))"

definition fold_probe :: "string list \<Rightarrow> probe_node \<Rightarrow> probe_node fold_m" where
  "fold_probe ps p =
     bind (fold_body \<lparr>fe_params = Some ps, fe_probe = Some (pr_attach_points p)\<rparr>
             (block_depth (pr_stmts p) (pr_value p)) (pr_stmts p) (pr_value p)) (\<lambda>(ss, e).
       ret (p\<lparr>pr_stmts := ss, pr_value := e\<rparr>))"

definition fold_arg :: "fold_env \<Rightarrow> variable \<times> type_or_expr option \<Rightarrow> (variable \<times> type_or_expr option) fold_m" where
  "fold_arg env a =
     bind (visit_opt (\<lambda>te. visit_te (visit_fuel (depth_te te) env) False te) (snd a)) (\<lambda>te. ret (fst a, te))"

definition fold_subprog :: "string list \<Rightarrow> subprog \<Rightarrow> subprog fold_m" where
  "fold_subprog ps s =
     (let env = \<lparr>fe_params = Some ps, fe_probe = None\<rparr>
      in bind (each (fold_arg env) (sp_args s)) (\<lambda>args.
           bind (visit_opt (\<lambda>te. visit_te (visit_fuel (depth_te te) env) False te) (sp_ret s)) (\<lambda>r.
             bind (fold_body env (block_depth (sp_stmts s) (sp_value s)) (sp_stmts s) (sp_value s)) (\<lambda>(ss, e).
               ret (s\<lparr>sp_args := args, sp_ret := r, sp_stmts := ss, sp_value := e\<rparr>)))))"

definition fold_program :: "string list \<Rightarrow> subprog list \<Rightarrow> probe_node list
    \<Rightarrow> (subprog list \<times> probe_node list) fold_m" where
  "fold_program ps fs prs =
     bind (each (fold_subprog ps) fs) (\<lambda>fs. bind (each (fold_probe ps) prs) (\<lambda>prs. ret (fs, prs)))"

end
