(* ===== verification/Fold_Runs.thy ===== *)
theory Fold_Runs
  imports Fold_Literals
begin

text \<open>
  The literal folder terminates: a small logic for the monad of \<open>Fold_Literals\<close>, with one rule per
  combinator and one lemma per handler, shows that no visit runs out of the fuel that the depth of the
  tree gives, and that no visit makes the tree deeper.
\<close>

section \<open>Runs\<close>

text \<open>\<open>runs m P\<close>: the run is never out of fuel, and what it returns satisfies \<open>P\<close>.\<close>

definition runs :: "'a fold_m \<Rightarrow> ('a \<Rightarrow> bool) \<Rightarrow> bool" where
  "runs m P \<longleftrightarrow> (\<forall>d. case m d of Inl s \<Rightarrow> s \<noteq> Stop_fuel | Inr p \<Rightarrow> P (fst p))"

named_theorems run_rules

lemma runs_ret [run_rules]: "P x \<Longrightarrow> runs (ret x) P"
  by (simp add: runs_def ret_def)

lemma runs_halt [run_rules]: "s \<noteq> Stop_fuel \<Longrightarrow> runs (halt s) P"
  by (simp add: runs_def halt_def)

lemma runs_emit [run_rules]: "P x \<Longrightarrow> runs (emit e x) P"
  by (simp add: runs_def emit_def)

lemma runs_bind:
  assumes "runs m Q" "\<And>x. Q x \<Longrightarrow> runs (f x) P"
  shows "runs (bind m f) P"
  using assms by (fastforce simp: runs_def bind_def split: sum.splits)

lemma runs_mono: "runs m Q \<Longrightarrow> (\<And>x. Q x \<Longrightarrow> P x) \<Longrightarrow> runs m P"
  by (auto simp: runs_def split: sum.splits)

text \<open>A visitor that is right on trees up to a depth.\<close>

definition within :: "nat \<Rightarrow> visited \<Rightarrow> bool" where
  "within k v \<longleftrightarrow> depth (fst v) \<le> k \<and> depth (outcome v) \<le> k"

definition vok :: "nat \<Rightarrow> node_visitor \<Rightarrow> bool" where
  "vok n V \<longleftrightarrow> (\<forall>ct e. depth e \<le> n \<longrightarrow> runs (V ct e) (within (depth e)))"

lemma vok_node: "vok n V \<Longrightarrow> depth e \<le> n \<Longrightarrow> runs (V ct e) (within (depth e))"
  by (simp add: vok_def)

lemma vok_expr: "vok n V \<Longrightarrow> depth e \<le> n \<Longrightarrow> runs (visit_expr V ct e) (\<lambda>e'. depth e' \<le> depth e)"
  unfolding visit_expr_def
  by (rule runs_bind [OF vok_node]) (auto intro!: run_rules simp: within_def)

lemma runs_name [run_rules]: "P () \<Longrightarrow> runs (visit_name ct) P"
  by (simp add: visit_name_def runs_ret runs_emit)

lemma depth_pos [simp]: "0 < depth e"
  by (cases e) simp_all

lemma depth_neq_0 [simp]: "depth e \<noteq> 0"
  using depth_pos [of e] by linarith

lemma depth_ge_1 [simp]: "Suc 0 \<le> depth e"
  using depth_pos [of e] by linarith

lemma within_None [simp]: "within k (e, None) \<longleftrightarrow> depth e \<le> k"
  by (simp add: within_def outcome_def)

lemma within_Some [simp]: "within k (e, Some e') \<longleftrightarrow> depth e \<le> k \<and> depth e' \<le> k"
  by (simp add: within_def outcome_def)

lemma depth_new [simp]:
  "depth (new_integer n) = 1" "depth (new_negative n) = 1" "depth (new_string s) = 1" "depth (num_expr m) = 1"
  by (simp_all add: new_integer_def new_negative_def new_string_def) (cases m; simp add: new_integer_def new_negative_def)

lemma runs_te: "vok n V \<Longrightarrow> depth_te te \<le> n \<Longrightarrow> runs (visit_te V ct te) (\<lambda>te'. depth_te te' \<le> depth_te te)"
  by (cases te) (auto intro!: runs_bind [OF vok_expr] run_rules)

lemma runs_each:
  assumes "\<And>x. x \<in> set xs \<Longrightarrow> runs (f x) (\<lambda>y. m y \<le> m x)"
  shows "runs (each f xs) (\<lambda>ys. list_all2 (\<lambda>y x. m y \<le> (m x :: nat)) ys xs)"
  using assms
proof (induction xs)
  case Nil then show ?case by (simp add: runs_ret)
next
  case (Cons x xs)
  then show ?case
    by (auto intro!: runs_bind [OF Cons.prems(1)] runs_bind [OF Cons.IH] run_rules)
qed

lemma depth_es_mono: "list_all2 (\<lambda>y x. depth y \<le> depth x) ys xs \<Longrightarrow> depth_es ys \<le> depth_es xs"
  by (induction rule: list_all2_induct) auto

lemma depth_es_member: "e \<in> set es \<Longrightarrow> depth e \<le> depth_es es"
  by (induction es) auto

lemma runs_es:
  assumes "vok n V" "depth_es es \<le> n"
  shows "runs (each (visit_expr V ct) es) (\<lambda>es'. depth_es es' \<le> depth_es es)"
proof (rule runs_mono [OF runs_each [where m = depth]])
  fix e assume "e \<in> set es"
  with assms show "runs (visit_expr V ct e) (\<lambda>y. depth y \<le> depth e)"
    using depth_es_member [of e es] by (intro vok_expr [OF assms(1)]) auto
qed (rule depth_es_mono)

lemma runs_ot:
  "vok n V \<Longrightarrow> depth_ot o' \<le> n \<Longrightarrow> runs (visit_opt (visit_te V ct) o') (\<lambda>r. depth_ot r \<le> depth_ot o')"
  by (cases o') (auto intro!: runs_bind [OF runs_te] run_rules)

lemma runs_oe:
  "vok n V \<Longrightarrow> depth_oe o' \<le> n \<Longrightarrow> runs (visit_opt (visit_expr V ct) o') (\<lambda>r. depth_oe r \<le> depth_oe o')"
  by (cases o') (auto intro!: runs_bind [OF vok_expr] run_rules)

lemma runs_it:
  "vok n V \<Longrightarrow> depth_it it \<le> n \<Longrightarrow> runs (visit_iterable V ct it) (\<lambda>r. depth_it r \<le> depth_it it)"
  by (cases it) (auto intro!: runs_bind [OF vok_expr] run_rules runs_bind [OF runs_name [where P = "\<lambda>_. True"]])

lemma runs_body:
  assumes "vok n V" "depth b \<le> n" "runs (visit_stmts V ct ss) (\<lambda>ss'. depth_ss ss' \<le> depth_ss ss)"
    "\<And>ss' b'. depth_ss ss' \<le> depth_ss ss \<Longrightarrow> depth b' \<le> depth b \<Longrightarrow> runs (f ss' b') P"
  shows "runs (bind (visit_stmts V ct ss) (\<lambda>ss. bind (visit_expr V ct b) (f ss))) P"
  by (rule runs_bind [OF assms(3)], rule runs_bind [OF vok_expr [OF assms(1,2)]]) (rule assms(4))

lemma runs_then_name:
  "runs m P \<Longrightarrow> runs (bind (visit_name ct) (\<lambda>_. m)) P"
  by (rule runs_bind [OF runs_name [where P = "\<lambda>_. True"]]) simp_all

lemma runs_stmt:
  assumes "vok n V"
  shows "depth_st s \<le> n \<Longrightarrow> runs (visit_stmt V ct s) (\<lambda>s'. depth_st s' \<le> depth_st s)"
    and "depth_ss ss \<le> n \<Longrightarrow> runs (visit_stmts V ct ss) (\<lambda>ss'. depth_ss ss' \<le> depth_ss ss)"
  using assms
proof (induction V ct s and V ct ss rule: visit_stmt_visit_stmts.induct)
  case (6 V ct e ss b)
  then show ?case by (auto intro!: runs_bind [OF vok_expr] runs_body run_rules)
next
  case (8 V ct c ss b)
  then show ?case by (auto intro!: runs_bind [OF vok_expr] runs_body run_rules)
next
  case (9 V ct v it ss b t)
  then show ?case by (auto intro!: runs_then_name runs_bind [OF runs_it] runs_body run_rules)
next
  case (11 V ct s ss)
  then show ?case
    by (auto intro!: runs_bind [OF 11(1)] runs_bind [OF 11(2)] run_rules)
qed (auto intro!: runs_then_name runs_bind [OF vok_expr] runs_bind [OF runs_ot] runs_bind [OF runs_oe] run_rules)

section \<open>Handlers\<close>

definition flat :: "expression option \<Rightarrow> bool" where
  "flat r \<longleftrightarrow> (\<forall>x. r = Some x \<longrightarrow> depth x = 1)"

lemma flat_simps [simp]: "flat None" "flat (Some x) \<longleftrightarrow> depth x = 1"
  by (simp_all add: flat_def)

lemma flat_within: "flat r \<Longrightarrow> depth e \<le> k \<Longrightarrow> within k (e, r)"
  by (cases r) (auto intro: order_trans [OF depth_ge_1])

lemma flat_Boolean [simp]: "flat (map_option (\<lambda>x. Boolean (f x)) r)"
  by (cases r) simp_all

lemma runs_unop_value: "runs (unop_value oper e) flat"
  by (cases e) (auto intro!: run_rules)

lemma runs_make_boolean: "runs (make_boolean l r oper) flat"
  by (auto simp: make_boolean_def intro!: run_rules split: option.splits prod.splits)

lemma runs_string_binop: "runs (string_binop s oper e) flat"
  unfolding string_binop_def
  by (cases e; simp; (cases oper)?) (auto intro!: run_rules runs_make_boolean)

lemma runs_binop_boolean:
  "binop_boolean l oper r = Some m \<Longrightarrow> runs m flat"
  by (auto simp: binop_boolean_def boolean_binop_def intro!: runs_make_boolean
      split: option.splits expression.splits if_splits)

lemma runs_int_binop: "runs (int_binop v) flat"
  by (cases v rule: int_binop.cases) (auto intro!: run_rules)

lemma outcome_depth: "within k v \<Longrightarrow> depth (outcome v) \<le> k"
  by (simp add: within_def)

lemma tuple_elems_depth: "\<forall>e'\<in>set (tuple_elems e). depth e' < depth e"
  by (cases e) (auto dest: depth_es_member)

lemma literals_same_None: "literals_same l r = None \<Longrightarrow> is_tuple l \<and> is_tuple r"
  by (auto simp: literals_same_def split: expression.splits)

lemma depth_es_iff: "depth_es es \<le> k \<longleftrightarrow> (\<forall>e\<in>set es. depth e \<le> k)"
  by (induction es) auto

lemma tuple_elems_es: "depth e \<le> Suc k \<Longrightarrow> depth_es (tuple_elems e) \<le> k"
  by (cases e) auto

definition no_deeper :: "expression list \<Rightarrow> expression list \<Rightarrow> bool option \<times> expression list \<times> expression list \<Rightarrow> bool" where
  "no_deeper ls rs p \<longleftrightarrow> depth_es (fst (snd p)) \<le> depth_es ls \<and> depth_es (snd (snd p)) \<le> depth_es rs"

lemma runs_compare:
  assumes "vok n V" "m \<le> n" "depth_es ls \<le> m" "depth_es rs \<le> m"
  shows "runs (compare_elems m V ct ls rs) (no_deeper ls rs)"
  using assms(2-4)
proof (induction m arbitrary: ls rs rule: less_induct)
  case (less m)
  note outer = less.IH
  show ?case using less.prems
  proof (induction ls rs rule: list_induct2')
    case (4 l ls r rs)
    have l: "depth l \<le> m" and r: "depth r \<le> m" and m: "m \<le> n" using 4 by simp_all
    have rest: "runs (compare_elems m V ct ls rs) (no_deeper ls rs)" using 4 by simp
    show ?case unfolding compare_elems.simps
    proof (rule runs_bind [OF vok_node [OF assms(1)]], use l m in simp,
        rule runs_bind [OF vok_node [OF assms(1)]], use r m in simp)
      fix lv rv assume "within (depth l) lv" "within (depth r) rv"
      then have d: "depth (fst lv) \<le> depth l" "depth (fst rv) \<le> depth r"
        "depth (outcome lv) \<le> m" "depth (outcome rv) \<le> m"
        using l r by (simp_all add: within_def)
      have nested: "runs (compare_elems k V ct (tuple_elems (outcome lv)) (tuple_elems (outcome rv)))
          (\<lambda>_. True)" if "m = Suc k" for k
        using that d m by (intro runs_mono [OF outer [of k]] tuple_elems_es) simp_all
      obtain k where k: "m = Suc k" using l depth_pos [of l] by (cases m) auto
      show "runs (if \<not> is_literal (outcome lv) \<or> \<not> is_literal (outcome rv) then
           ret (None, fst lv # ls, fst rv # rs)
         else case literals_same (outcome lv) (outcome rv) of
             None \<Rightarrow>
             (case m of
                0 \<Rightarrow> halt Stop_fuel
              | Suc m \<Rightarrow>
                  (let es = tuple_elems (outcome lv); es' = tuple_elems (outcome rv)
                   in if length es \<noteq> length es' then ret (Some False, fst lv # ls, fst rv # rs)
                      else bind (compare_elems m V ct es es') (\<lambda>(same, _, _).
                             ret (same, fst lv # ls, fst rv # rs))))
           | Some True \<Rightarrow>
             bind (compare_elems m V ct ls rs) (\<lambda>(same, ls', rs').
               ret (same, fst lv # ls', fst rv # rs'))
         | Some False \<Rightarrow> ret (Some False, fst lv # ls, fst rv # rs)) (no_deeper (l # ls) (r # rs))"
        using d(1,2) unfolding k
        by (auto simp: no_deeper_def Let_def intro!: run_rules runs_bind [OF rest [unfolded k]]
            runs_bind [OF nested [OF k]] split: option.splits bool.splits)
    qed
  qed (simp_all add: no_deeper_def runs_ret)
qed

lemma tuple_or_int_other:
  assumes "\<not> (is_tuple l \<and> is_tuple r)"
  shows "tuple_or_int n V ct l oper r = bind (int_binop (int_operands l oper r)) (\<lambda>res. ret (l, r, res))"
proof (cases "is_tuple l")
  case True
  with assms show ?thesis by (cases l; cases r) (simp_all add: tuple_or_int_def)
next
  case False
  then show ?thesis by (cases l) (simp_all add: tuple_or_int_def)
qed

definition sides_ok :: "expression \<Rightarrow> expression \<Rightarrow> expression \<times> expression \<times> expression option \<Rightarrow> bool" where
  "sides_ok l r p \<longleftrightarrow> depth (fst p) \<le> depth l \<and> depth (fst (snd p)) \<le> depth r \<and> flat (snd (snd p))"

lemma sides_ok_simp [simp]:
  "sides_ok l r (l', r', res) \<longleftrightarrow> depth l' \<le> depth l \<and> depth r' \<le> depth r \<and> flat res"
  by (simp add: sides_ok_def)

lemma runs_tuple_or_int:
  assumes "vok n V" "depth l \<le> n" "depth r \<le> n"
  shows "runs (tuple_or_int n V ct l oper r) (sides_ok l r)"
proof (cases "is_tuple l \<and> is_tuple r")
  case True
  then obtain ls t rs t' where e: "l = Tuple ls t" "r = Tuple rs t'" by (metis is_tuple.elims(2))
  with assms have "runs (compare_tuples n V ct ls rs) (no_deeper ls rs)"
    by (auto simp: compare_tuples_def no_deeper_def [where ls = ls] intro!: run_rules runs_compare)
  then show ?thesis
    by (auto simp: e tuple_or_int_def no_deeper_def intro!: run_rules elim!: runs_bind split: option.splits)
next
  case False
  then show ?thesis
    by (auto simp: tuple_or_int_other intro!: run_rules runs_bind [OF runs_int_binop])
qed

lemma runs_binop_value:
  assumes "vok n V" "depth l \<le> n" "depth r \<le> n"
  shows "runs (binop_value n V ct l oper r) (sides_ok l r)"
  unfolding binop_value_def
  by (auto intro!: run_rules runs_bind [OF runs_string_binop] runs_bind [OF runs_binop_boolean]
      runs_tuple_or_int [OF assms] split: option.splits)

lemma runs_literal_bool: "runs (literal_bool e) (\<lambda>_. True)"
  by (auto simp: literal_bool_def intro!: run_rules split: option.splits)

lemma as_comptime_depth: "as_comptime c = Some e \<Longrightarrow> depth c = Suc (depth e)"
  by (cases c) simp_all

lemma runs_if_comptime:
  assumes "vok n V" "depth e \<le> n" "depth e < k" "depth l < k" "depth r < k" "Suc (depth e) < k"
  shows "runs (if_comptime V ct e l r t) (within k)"
  unfolding if_comptime_def using assms(3-6)
  by (auto intro!: run_rules runs_bind [OF vok_expr [OF assms(1,2)]] runs_bind [OF runs_literal_bool])

lemma runs_if_plain:
  assumes "vok n V" "depth c \<le> n" "depth c < k" "depth l < k" "depth r < k"
  shows "runs (if_plain V ct c l r t) (within k)"
  unfolding if_plain_def using assms(3-5) le_less_trans [OF depth_ge_1 assms(4)]
  by (auto simp: Suc_le_eq intro!: run_rules runs_bind [OF vok_expr [OF assms(1,2)]] runs_bind [OF runs_literal_bool])

lemma runs_if:
  assumes "vok n V" "depth c \<le> n" "depth l \<le> n" "depth r \<le> n"
  shows "runs (fold_if V ct c l r t) (within (depth (IfExpr c l r t)))"
  unfolding fold_if_def
proof (rule runs_bind [OF vok_expr [OF assms(1,3)]], rule runs_bind [OF vok_expr [OF assms(1,4)]])
  fix l' r' assume "depth l' \<le> depth l" "depth r' \<le> depth r"
  with assms(2) show "runs (case as_comptime c of None \<Rightarrow> if_plain V ct c l' r' t
      | Some e \<Rightarrow> if_comptime V ct e l' r' t) (within (depth (IfExpr c l r t)))"
    by (auto intro!: runs_if_plain [OF assms(1)] runs_if_comptime [OF assms(1)]
        dest: as_comptime_depth split: option.split)
qed

lemma runs_param_text: "runs (param_text ps i) (\<lambda>_. True)"
  by (auto simp: param_text_def intro!: run_rules split: option.splits)

lemma runs_param_literal: "runs (param_literal s) (\<lambda>e. depth e = 1)"
  by (auto simp: param_literal_def intro!: run_rules split: option.splits sum.splits)

lemma runs_str_argument:
  "runs (str_argument env a) (\<lambda>r. \<forall>x. r = Some x \<longrightarrow> depth x \<le> depth a)"
  unfolding str_argument_def
  by (auto intro!: run_rules runs_bind [OF runs_param_text] split: expression.split option.splits)

lemma runs_call:
  assumes "vok n V" "depth_es args \<le> n"
  shows "runs (fold_call V env ct f args t nj disc) (within (Suc (depth_es args)))"
proof (cases "f = ''str'' \<and> args \<noteq> []")
  case True
  then obtain a as where a: "args = a # as" by (cases args) auto
  have args: "runs (each (visit_expr V ct) (x # as)) (\<lambda>es. depth_es es \<le> depth_es args)" if "depth x \<le> depth a" for x
    by (rule runs_mono [OF runs_es [OF assms(1)]]) (use that assms(2) a in auto)
  have step: "runs (bind (each (visit_expr V ct) (x # as)) (\<lambda>es.
      ret (Call f es t nj disc, map_option new_string (str_value es)))) (within (Suc (depth_es args)))"
    if "depth x \<le> depth a" for x
    by (rule runs_bind [OF args [OF that]])
      (auto intro!: run_rules simp: within_def outcome_def split: option.splits)
  have "fold_call V env ct f args t nj disc = bind (str_argument env a) (\<lambda>first.
      case first of None \<Rightarrow> ret (Call f args t nj disc, None)
      | Some x \<Rightarrow> bind (each (visit_expr V ct) (x # as)) (\<lambda>es.
          ret (Call f es t nj disc, map_option new_string (str_value es))))"
    using True a by (simp add: fold_call_def del: each.simps cong: option.case_cong)
  then show ?thesis
    by (auto simp del: each.simps intro!: run_rules runs_bind [OF runs_str_argument] step split: option.splits)
next
  case False
  have "runs (bind (each (visit_expr V ct) args) (\<lambda>es. ret (Call f es t nj disc, None)))
      (within (Suc (depth_es args)))"
    by (rule runs_bind [OF runs_es [OF assms]]) (simp add: runs_ret)
  then show ?thesis
    unfolding fold_call_def if_not_P [OF False] by (cases ct) (simp_all add: runs_emit del: each.simps)
qed

lemma runs_usermode: "runs (usermode_value aps) flat"
  by (induction aps) (auto intro!: run_rules split: option.splits bool.splits)

lemma runs_array_value:
  assumes "depth e \<le> k"
  shows "runs (array_value ct e i) (\<lambda>r. \<forall>x. r = Some x \<longrightarrow> depth x \<le> Suc k)"
  using assms by (auto simp: array_value_def intro!: run_rules split: option.splits)

lemma visit_node_ok:
  assumes "vok n V" "depth e \<le> Suc n"
  shows "runs (visit_node n V env ct e) (within (depth e))"
proof -
  note v = vok_expr [OF assms(1)]
  note te = runs_te [OF assms(1)]
  show ?thesis using assms(2)
  proof (cases e)
    case (Binop l oper r t)
    then show ?thesis using assms(2)
      by (auto simp: fold_binop_def sides_ok_def split_def intro!: run_rules flat_within runs_bind [OF v]
          runs_bind [OF runs_binop_value [OF assms(1)]]) 
  next
    case (IfExpr c l r t)
    then show ?thesis using assms runs_if [of n V c l r ct t] by simp
  next
    case (Unop e oper t)
    then show ?thesis using assms(2)
      by (auto simp: fold_unop_def intro!: run_rules flat_within runs_bind [OF v] runs_bind [OF runs_unop_value])
  next
    case (Call f args t nj disc)
    then show ?thesis using assms runs_call [of n V args env ct f t nj disc] by simp
  next
    case (Cast te e)
    then show ?thesis using assms(2)
      by (auto simp: fold_cast_def intro!: run_rules runs_bind [OF v] runs_bind [OF runs_literal_bool])
  next
    case (PositionalParameter i)
    then show ?thesis
      by (auto simp: positional_parameter_def intro!: run_rules runs_bind [OF runs_param_text]
          runs_bind [OF runs_param_literal] split: option.splits)
  next
    case PositionalParameterCount
    then show ?thesis by (auto simp: param_count_def intro!: run_rules split: option.splits)
  next
    case (Builtin i p t)
    then show ?thesis
      by (auto simp: fold_builtin_def intro!: run_rules flat_within runs_bind [OF runs_usermode] split: option.splits)
  next
    case (BlockExpr ss e)
    then show ?thesis using assms(2)
      by (auto simp: fold_block_def intro!: run_rules runs_body [OF assms(1)] runs_stmt(2) [OF assms(1)])
  next
    case (ArrayAccess e i t)
    show ?thesis unfolding ArrayAccess visit_node.simps fold_array_access_def
    proof (rule runs_bind [OF v], use assms(2) ArrayAccess in simp, rule runs_bind [OF v],
        use assms(2) ArrayAccess in simp)
      fix e' i' assume "depth e' \<le> depth e" "depth i' \<le> depth i"
      then show "runs (bind (array_value ct e' i') (\<lambda>r. ret (ArrayAccess e' i' t, r)))
          (within (depth (ArrayAccess e i t)))"
        by (intro runs_bind [OF runs_array_value [where k = "depth e"]] run_rules)
          (auto simp: within_def outcome_def split: option.splits)
    qed
  next
    case (TupleAccess e i t)
    then show ?thesis using assms(2)
      by (auto simp: fold_tuple_access_def intro!: run_rules runs_bind [OF v]
          dest!: bspec [OF tuple_elems_depth nth_mem])
  next
    case (Comptime e)
    show ?thesis using assms(2) unfolding Comptime
      by (auto simp: fold_comptime_def within_def outcome_def intro!: run_rules runs_bind [OF v]
          split: option.split dest!: as_comptime_depth)
  next
    case (Tuple es t)
    then show ?thesis using assms by (auto intro!: run_rules runs_bind [OF runs_es [OF assms(1)]])
  qed (use assms(2) in \<open>auto intro!: run_rules runs_then_name runs_bind [OF v] runs_bind [OF te]\<close>)
qed

lemma vok_visit_fuel: "vok n (visit_fuel n env)"
proof (induction n)
  case 0
  then show ?case by (simp add: vok_def)
next
  case (Suc n)
  then show ?case by (simp add: vok_def visit_node_ok)
qed

end
