(* ===== verification/Fold_Correct.thy ===== *)
theory Fold_Correct
  imports Fold_Runs
begin

text \<open>
  What the literal folder computes: arithmetic over integer literals against exact arithmetic, literals
  as fixed points, and positional parameters; then the places where the code does not do what it means.
\<close>

section \<open>Integer trees\<close>

fun int_num :: "expression \<Rightarrow> fold_num option" where
  "int_num (Integer n t) = Some (FU n)"
| "int_num (NegativeInteger n t) = Some (FS n)"
| "int_num _ = None"

text \<open>Trees of the arithmetic operators and negation over integer literals, negative ones below zero.\<close>

fun int_tree :: "expression \<Rightarrow> bool" where
  "int_tree (Integer n t) = True"
| "int_tree (NegativeInteger n t) = (sint n < 0)"
| "int_tree (Binop l oper r t) = (arith_op oper \<and> int_tree l \<and> int_tree r)"
| "int_tree (Unop e oper t) = (oper = Op_MINUS \<and> int_tree e)"
| "int_tree _ = False"

text \<open>Their value in integers without a width.\<close>

fun exact_value :: "expression \<Rightarrow> int option" where
  "exact_value (Integer n t) = Some (uint n)"
| "exact_value (NegativeInteger n t) = Some (sint n)"
| "exact_value (Binop l oper r t) =
     (case (exact_value l, exact_value r) of
        (Some a, Some b) \<Rightarrow> exact_op oper a b
      | _ \<Rightarrow> None)"
| "exact_value (Unop e oper t) = map_option uminus (exact_value e)"
| "exact_value _ = None"

definition int_value :: "expression \<Rightarrow> int option" where
  "int_value e = map_option num_value (int_num e)"

fun num_binop :: "fold_num \<Rightarrow> operator \<Rightarrow> fold_num \<Rightarrow> fold_num fold_result" where
  "num_binop (FU a) oper (FU b) = eval_binop_u a b oper"
| "num_binop (FU a) oper (FS b) = (if a \<le> 0x7FFFFFFFFFFFFFFF then eval_binop_s a b oper else Give_up)"
| "num_binop (FS a) oper (FU b) = (if b \<le> 0x7FFFFFFFFFFFFFFF then eval_binop_s a b oper else Give_up)"
| "num_binop (FS a) oper (FS b) = eval_binop_s a b oper"

lemma arith_not_comparison: "arith_op oper \<Longrightarrow> \<not> is_comparison_op oper"
  by (auto simp: arith_op_def is_comparison_op_def)

lemma int_num_cases: "int_num e = Some n \<Longrightarrow> (\<exists>w t. e = Integer w t \<and> n = FU w) \<or> (\<exists>w t. e = NegativeInteger w t \<and> n = FS w)"
  by (cases e) auto

lemma binop_value_num:
  assumes "int_num l = Some a" "int_num r = Some b" "arith_op oper"
  shows "binop_value n V ct l oper r = bind (int_binop (Some (Inr (num_binop a oper b)))) (\<lambda>res. ret (l, r, res))"
  using int_num_cases [OF assms(1)] int_num_cases [OF assms(2)] arith_not_comparison [OF assms(3)]
  by (auto simp: binop_value_def binop_boolean_def tuple_or_int_def int_operands_def int_pair_def)

section \<open>One operation\<close>






lemma small_uint: "a \<le> 0x7FFFFFFFFFFFFFFF \<Longrightarrow> sint (a :: u64) = uint a"
  using uint_sint [of a] sint_bounds [of a] by (auto simp: word_le_def split: if_splits)


lemma exact_result_i64: "in_i64 v \<Longrightarrow> exact_result (Some v) = Value (clamp_s v)"
  by (rule exact_in_i64)

lemma s_agrees_complete: "s_agrees res v \<Longrightarrow> in_i64 v \<Longrightarrow> res = Value (clamp_s v)"
  by (simp add: s_agrees_def exact_in_i64)

lemma eval_s_complete:
  assumes "arith_op oper" "exact_op oper (sint l) (sint r) = Some v" "in_i64 v"
    "\<not> (oper = Op_MOD \<and> sint l = i64_min \<and> sint r = - 1)"
  shows "eval_binop_s l r oper = Value (clamp_s v)"
proof -
  consider "oper = Op_PLUS" | "oper = Op_MINUS" | "oper = Op_MUL" | "oper = Op_DIV" | "oper = Op_MOD"
    using assms(1) by (auto simp: arith_op_def)
  then show ?thesis
  proof cases
    case 1 with assms eval_s_PLUS [of l r] show ?thesis by (simp add: exact_in_i64)
  next
    case 2 with assms s_agrees_complete [OF eval_s_MINUS] show ?thesis by auto
  next
    case 3 with assms s_agrees_complete [OF eval_s_MUL] show ?thesis by auto
  next
    case 4 with assms s_agrees_complete [OF eval_s_DIV] show ?thesis by (auto split: if_splits)
  next
    case 5
    with assms have r: "sint r \<noteq> 0" "sint l smod sint r = v" by (auto split: if_splits)
    have "in_i64 (sint l sdiv sint r)" using sdiv_in_range [of "sint r" "sint l"] r assms(4) 5 by simp
    with eval_s_MOD [OF r(1), of l] r(2) 5 assms(3) s_agrees_complete show ?thesis by auto
  qed
qed

lemma eval_u_complete:
  assumes "arith_op oper" "exact_op oper (uint l) (uint r) = Some v" "in_i64 v"
  shows "eval_binop_u l r oper = Value (clamp_s v)"
  using assms exact_in_i64 [OF assms(3)]
    eval_u_PLUS [of l r] eval_u_MINUS [of l r] eval_u_MUL [of l r] eval_u_DIV [of l r] eval_u_MOD [of l r]
  by (auto simp: arith_op_def)

lemma in_i64_uint: "in_i64 (uint (a :: u64)) \<Longrightarrow> a \<le> 0x7FFFFFFFFFFFFFFF"
  by (simp add: in_i64_def word_le_def)

lemma num_binop_complete:
  assumes "arith_op oper" "exact_op oper (num_value a) (num_value b) = Some v" "in_i64 v"
    "in_i64 (num_value a)" "in_i64 (num_value b)"
    "\<not> (oper = Op_MOD \<and> num_value a = i64_min \<and> num_value b = - 1)"
  shows "num_binop a oper b = Value (clamp_s v)"
proof (cases a; cases b)
  fix x y assume e: "a = FU x" "b = FU y"
  with assms eval_u_complete show ?thesis by simp
next
  fix x y assume e: "a = FU x" "b = FS y"
  with assms in_i64_uint [of x] small_uint [of x] eval_s_complete [OF assms(1), of x y v] show ?thesis by simp
next
  fix x y assume e: "a = FS x" "b = FU y"
  with assms in_i64_uint [of y] small_uint [of y] eval_s_complete [OF assms(1), of x y v] show ?thesis by simp
next
  fix x y assume e: "a = FS x" "b = FS y"
  with assms eval_s_complete [OF assms(1), of x y v] show ?thesis by simp
qed

section \<open>Negation\<close>

lemma unop_minus_num:
  assumes "int_num e = Some a" "normal_num a"
  shows "(\<exists>x c. unop_value Op_MINUS e = ret (Some x) \<and> int_num x = Some c \<and> normal_num c \<and> num_value c = - num_value a)
    \<or> (unop_value Op_MINUS e = emit (Diag_error ''negative value will underflow'') None \<and> \<not> in_i64 (- num_value a))"
  using int_num_cases [OF assms(1)]
proof
  assume "\<exists>w t. e = Integer w t \<and> a = FU w"
  then obtain w t where e: "e = Integer w t" "a = FU w" by blast
  consider "0x7FFFFFFFFFFFFFFF + 1 < w" | "w = 0" | "0 < uint w" "uint w \<le> 2 ^ 63"
    using word_pos [of w] by (fastforce simp: word_less_def)
  then show ?thesis
  proof cases
    case 1
    then have "\<not> in_i64 (- uint w)" by (simp add: in_i64_def word_less_def)
    with 1 e show ?thesis by simp
  next
    case 2 with e show ?thesis by (auto simp: ret_def)
  next
    case 3
    then have w: "\<not> 0x7FFFFFFFFFFFFFFF + 1 < w" "w \<noteq> 0" by (auto simp: word_less_def)
    have "sint (- w) = - uint w"
      using sint_of_int [of "- uint w"] 3 by (simp add: in_i64_def)
    with w 3 e show ?thesis by (auto simp: new_negative_def)
  qed
next
  assume "\<exists>w t. e = NegativeInteger w t \<and> a = FS w"
  then obtain w t where e: "e = NegativeInteger w t" "a = FS w" by blast
  with assms(2) have w: "sint w < 0" by simp
  have "uint (- w) = - sint w"
    using uint_of_int [of "- sint w"] w sint_bounds [of w] by simp
  with e w show ?thesis by (auto simp: new_integer_def)
qed

section \<open>Trees\<close>

lemma bind_Inr: "bind m f d = Inr p \<longleftrightarrow> (\<exists>x d'. m d = Inr (x, d') \<and> f x d' = Inr p)"
  by (auto simp: bind_def split: sum.splits)

lemma ret_Inr [simp]: "ret x d = Inr p \<longleftrightarrow> p = (x, d)"
  by (auto simp: ret_def)

lemma emit_Inr [simp]: "emit e x d = Inr p \<longleftrightarrow> p = (x, d @ [e])"
  by (auto simp: emit_def)

lemma halt_Inr [simp]: "halt s d \<noteq> Inr p"
  by (simp add: halt_def)









lemma visit_expr_fuel:
  "visit_expr (visit_fuel (Suc n) env) ct e d = Inr (e', d')
   \<longleftrightarrow> (\<exists>v. visit_node n (visit_fuel n env) env ct e d = Inr (v, d') \<and> e' = outcome v)"
  by (auto simp: visit_expr_def bind_Inr)

declare visit_fuel.simps(2) [simp del]


section \<open>Trees in range\<close>

text \<open>Every operand and every result fits \<open>int64_t\<close>, and no remainder of the least integer by -1 is taken.\<close>

fun in_range :: "expression \<Rightarrow> bool" where
  "in_range (Binop l oper r t) =
     (in_range l \<and> in_range r \<and>
      (case (exact_value l, exact_value r, exact_value (Binop l oper r t)) of
         (Some a, Some b, Some v) \<Rightarrow>
           in_i64 a \<and> in_i64 b \<and> in_i64 v \<and> \<not> (oper = Op_MOD \<and> a = i64_min \<and> b = - 1)
       | _ \<Rightarrow> False))"
| "in_range (Unop e oper t) =
     (in_range e \<and> (case exact_value e of Some a \<Rightarrow> in_i64 (- a) | None \<Rightarrow> False))"
| "in_range _ = True"

lemma fold_in_range:
  assumes "int_tree e" "in_range e" "depth e \<le> n"
  shows "\<exists>e' c. visit_expr (visit_fuel n env) ct e d = Inr (e', d) \<and> int_num e' = Some c \<and> normal_num c
    \<and> exact_value e = Some (num_value c)"
  using assms
proof (induction e arbitrary: n rule: int_tree.induct)
  case (1 w t)
  then show ?case by (cases n) (auto simp: visit_expr_fuel outcome_def)
next
  case (2 w t)
  then show ?case by (cases n) (auto simp: visit_expr_fuel outcome_def)
next
  case (3 l oper r t)
  then obtain m where m: "n = Suc m" "depth l \<le> m" "depth r \<le> m" by (cases n) auto
  from 3 m obtain l' a where l: "visit_expr (visit_fuel m env) ct l d = Inr (l', d)" "int_num l' = Some a"
    "exact_value l = Some (num_value a)" by fastforce
  from 3 m obtain r' b where r: "visit_expr (visit_fuel m env) ct r d = Inr (r', d)" "int_num r' = Some b"
    "exact_value r = Some (num_value b)" by fastforce
  from 3 l r obtain v where v: "exact_op oper (num_value a) (num_value b) = Some v" "in_i64 v"
    "num_binop a oper b = Value (clamp_s v)"
    by (auto split: option.splits intro: num_binop_complete)
  let ?c = "clamp_s v"
  have "binop_value m (visit_fuel m env) ct l' oper r' d = Inr ((l', r', Some (num_expr ?c)), d)"
    using 3(3) by (simp add: binop_value_num [OF l(2) r(2)] v(3) bind_Inr)
  with l r m have "visit_expr (visit_fuel n env) ct (Binop l oper r t) d = Inr (num_expr ?c, d)"
    by (auto simp: visit_expr_fuel fold_binop_def bind_Inr outcome_def)
  moreover have "int_num (num_expr ?c) = Some ?c" by (cases ?c) (simp_all add: new_integer_def new_negative_def)
  ultimately show ?case using l r v clamp_s_value [OF v(2)] by auto
next
  case (4 e oper t)
  then obtain m where m: "n = Suc m" "depth e \<le> m" by (cases n) auto
  from 4 m obtain e1 a where e: "visit_expr (visit_fuel m env) ct e d = Inr (e1, d)" "int_num e1 = Some a"
    "normal_num a" "exact_value e = Some (num_value a)" by fastforce
  with 4 unop_minus_num [OF e(2,3)] obtain x c where
    x: "unop_value Op_MINUS e1 = ret (Some x)" "int_num x = Some c" "normal_num c" "num_value c = - num_value a"
    by auto
  have "visit_expr (visit_fuel n env) ct (Unop e oper t) d = Inr (x, d)"
    using 4(2) e x m
    by (auto simp: visit_expr_fuel fold_unop_def bind_Inr outcome_def)
  with x e show ?case by auto
qed simp_all

section \<open>Literals and parameters\<close>

lemma each_fixed: "(\<And>x. x \<in> set xs \<Longrightarrow> f x d = Inr (x, d)) \<Longrightarrow> each f xs d = Inr (xs, d)"
  by (induction xs) (auto simp: bind_Inr)

lemma literal_fixed:
  "is_literal e \<Longrightarrow> depth e \<le> n \<Longrightarrow> visit_expr (visit_fuel n env) ct e d = Inr (e, d)"
proof (induction e arbitrary: n rule: is_literal.induct)
  case (5 es t)
  then obtain m where m: "n = Suc m" "depth_es es \<le> m" by (cases n) auto
  have "visit_expr (visit_fuel m env) ct x d = Inr (x, d)" if "x \<in> set es" for x
    using 5 that m depth_es_member [of x es] by (auto simp: list_all_iff)
  then have "each (visit_expr (visit_fuel m env) ct) es d = Inr (es, d)" by (rule each_fixed)
  with m show ?case by (auto simp: visit_expr_fuel bind_Inr outcome_def)
qed (auto simp: visit_expr_fuel outcome_def gr0_conv_Suc Suc_le_eq)

definition env_of :: "string list \<Rightarrow> fold_env" where
  "env_of ps = \<lparr>fe_params = Some ps, fe_probe = None\<rparr>"

lemma param_text_nth:
  assumes "0 < i" "i \<le> length ps" "length ps < 2 ^ 64"
  shows "param_text ps (int i) = ret (ps ! (i - 1))"
  using assms by (simp add: param_text_def get_param_def nat_mod_distrib)

section \<open>Properties\<close>

text \<open>C23: Folding an expression never runs out of the fuel its depth gives it, whatever the parameters and
  the probe, and never makes the tree deeper: the pass terminates.\<close>

theorem fold_total:
  "case fold_expr env e of Inl s \<Rightarrow> s \<noteq> Stop_fuel | Inr (e', d) \<Rightarrow> depth e' \<le> depth e"
proof -
  have "runs (visit_expr (visit_fuel (depth e) env) False e) (\<lambda>e'. depth e' \<le> depth e)"
    by (rule vok_expr [OF vok_visit_fuel]) simp
  then show ?thesis
    unfolding runs_def fold_expr_def by (auto split: sum.splits dest: spec [of _ "[]"])
qed


text \<open>An arithmetic expression whose operands and results all fit \<open>int64_t\<close> does fold, without a
  diagnostic, to the literal of its value.\<close>

theorem fold_arith_complete:
  assumes "int_tree e" "in_range e"
  shows "\<exists>e'. fold_expr env e = Inr (e', []) \<and> int_value e' = exact_value e"
  using fold_in_range [OF assms order_refl, of env False "[]"] by (auto simp: fold_expr_def int_value_def)

text \<open>A literal, tuples of literals included, is left as it is.\<close>

theorem fold_literal_fixed:
  assumes "is_literal e"
  shows "fold_expr env e = Inr (e, [])"
  using literal_fixed [OF assms order_refl] by (simp add: fold_expr_def)

text \<open>C24: \<open>str($i)\<close> is the text of the parameter, whatever the text is.\<close>

theorem fold_str_param:
  assumes "0 < i" "i \<le> length ps" "length ps < 2 ^ 64"
  shows "fold_expr (env_of ps) (Call ''str'' [PositionalParameter (int i)] t nj disc)
      = Inr (new_string (ps ! (i - 1)), [])"
  using assms
  by (simp add: fold_expr_def visit_expr_fuel fold_call_def str_argument_def env_of_def param_text_nth
      bind_Inr outcome_def literal_fixed new_string_def literal_text_def numeral_2_eq_2)

text \<open>A parameter that is the decimal text of a number below \<open>2 ^ 64\<close> is folded to that number.\<close>

theorem fold_param_number:
  assumes "0 < i" "i \<le> length ps" "length ps < 2 ^ 64" "ps ! (i - 1) = show_nat n" "n < 2 ^ 64"
  shows "fold_expr (env_of ps) (PositionalParameter (int i)) = Inr (new_integer (of_nat n), [])"
proof -
  obtain c cs where c: "show_nat n = c # cs" "is_digit c" using show_nat_Cons [of n] by blast
  then have "c \<noteq> CHR ''-''" by (auto simp: is_digit_def char_code_def)
  with c to_uint_print [of n] assms(5) have "param_literal (show_nat n) = ret (new_integer (of_nat n))"
    by (simp add: param_literal_def)
  with assms c show ?thesis
    by (simp add: fold_expr_def visit_expr_fuel positional_parameter_def env_of_def param_text_nth
      bind_Inr outcome_def)
qed

section \<open>Witnesses\<close>

definition tree_ex :: expression where
  "tree_ex = Binop (Unop (new_integer 7) Op_MINUS create_none) Op_MUL
     (Binop (new_integer 2) Op_PLUS (new_integer 3) create_none) create_none"

lemmas tree_ex_eval = tree_ex_def new_integer_def


lemma fold_arith_complete_witness:
  "\<exists>e'. fold_expr (env_of []) tree_ex = Inr (e', []) \<and> int_value e' = Some (- 35)"
  using fold_arith_complete [of tree_ex "env_of []"] by (simp add: tree_ex_eval arith_op_def in_i64_def)

lemma fold_literal_fixed_witness:
  "fold_expr (env_of []) (Tuple [Boolean True, StringE ''a'' create_none] create_none)
   = Inr (Tuple [Boolean True, StringE ''a'' create_none] create_none, [])"
  by (rule fold_literal_fixed) simp

lemma fold_str_param_witness:
  "fold_expr (env_of [''-x'']) (Call ''str'' [PositionalParameter 1] create_none 0 False)
   = Inr (new_string ''-x'', [])"
  using fold_str_param [of 1 "[''-x'']" create_none 0 False] by simp

lemma fold_param_number_witness:
  "fold_expr (env_of [show_nat 42]) (PositionalParameter 1) = Inr (new_integer 42, [])"
  using fold_param_number [of 1 "[show_nat 42]" 42] by simp

section \<open>Deviations\<close>

lemmas fold_eval = fold_literals_def fold_expr_def visit_expr_def visit_fuel.simps bind_def ret_def emit_def
  Let_def halt_def outcome_def fold_binop_def binop_value_def binop_boolean_def tuple_or_int_def compare_tuples_def
  literals_same_def string_binop_def fold_if_def if_plain_def literal_bool_def fold_comptime_def
  new_integer_def new_string_def new_negative_def

text \<open>
  \<open>("a", 1) == ("a", 1)\<close> compares all elements; a nested tuple ends the comparison, so that the
  elements after it are ignored.
\<close>

lemma nested_tuple_ends_comparison:
  "fold_literals (Binop
      (Tuple [Tuple [new_integer 1] create_none, new_integer 3] create_none) Op_EQ
      (Tuple [Tuple [new_integer 1] create_none, new_integer 4] create_none) create_none)
   = Inr (Boolean True, [])"
  by (simp add: fold_eval)

text \<open>\<open>&&\<close> of two strings that are not empty is folded to false.\<close>

lemma string_and_not_empty:
  "fold_literals (Binop (new_string ''a'') Op_LAND (new_string ''b'') create_none) = Inr (Boolean False, [])"
  by (simp add: fold_eval)

text \<open>A tuple as a condition is a literal, and reaches the \<open>LOG(BUG)\<close> of \<open>eval_bool\<close>.\<close>

lemma tuple_condition_aborts:
  "fold_literals (IfExpr (Tuple [new_integer 1] create_none) (new_integer 1) (new_integer 2) create_none)
   = Inl Stop_bug"
  by (simp add: fold_eval)

text \<open>The parameter \<open>-0\<close> is a negative literal, and so counts as true.\<close>

lemma minus_zero_is_true:
  "fold_expr (env_of [''-0'']) (IfExpr (PositionalParameter 1) (new_integer 1) (new_integer 2) create_none)
   = Inr (new_integer 1, [])"
proof -
  have "param_literal ''-0'' = ret (new_negative 0)"
    by (simp add: param_literal_def to_int_def to_uint_eval cast_i64_def in_i64_def)
  then show ?thesis by (simp add: fold_eval positional_parameter_def env_of_def param_text_def get_param_def)
qed

text \<open>Of two nested \<open>comptime\<close>, both are dropped.\<close>

lemma nested_comptime_dropped:
  "fold_literals (Comptime (Comptime (Identifier ''x'' create_none))) = Inr (Identifier ''x'' create_none, [])"
  by (simp add: fold_eval)

end
