(* ===== verification/Control_Flow.thy ===== *)
theory Control_Flow
  imports AST_Visit
begin

text \<open>
  \<open>src/ast/passes/control_flow_analyser.cpp\<close>: the check where jumps are allowed, the analysis of which
  blocks always end in a jump, with its rewriting of dead code, and the injection of the missing jumps.
\<close>

section \<open>Disallowed jumps\<close>

text \<open>
  \<open>JumpDisallowed<name, Ts...>\<close>. Of a loop only the block is visited, and of a jump nothing. \<open>quoted\<close>
  is the text of the error.
\<close>

definition jump_error :: "string \<Rightarrow> jump_type \<Rightarrow> string" where
  "jump_error name j = [CHR 0x27] @ opstr_jump j @ [CHR 0x27] @ '' statement is not allowed in a '' @ name"

function (sequential) jump_disallowed :: "string \<Rightarrow> jump_type list \<Rightarrow> node \<Rightarrow> string list" where
  "jump_disallowed name Ts (NS (For v it ss b t)) =
     concat (map (jump_disallowed ''for-loop'' [RETURN]) (block_children ss b))"
| "jump_disallowed name Ts (NS (While c ss b)) =
     concat (map (jump_disallowed ''while-loop'' (if RETURN \<in> set Ts then [RETURN] else []))
       (block_children ss b))"
| "jump_disallowed name Ts (NS (Jump j r)) = (if j \<in> set Ts then [jump_error name j] else [])"
| "jump_disallowed name Ts n = concat (map (jump_disallowed name Ts) (children n))"
  by pat_completeness auto
termination
proof (relation "measure (\<lambda>(name, Ts, n). node_depth n)", goal_cases)
  case (2 name Ts v it ss b t x)
  then show ?case using block_depth_child [of x ss b] by auto
next
  case (3 name Ts c ss b x)
  then show ?case using block_depth_child [of x ss b] by auto
next
  case (4 name Ts e x)
  then show ?case using depth_children [of x "NE e"] by simp
qed (auto dest: ot_depth block_depth_child)

text \<open>\<open>JumpDisallowed\<close> on a probe, a function and a macro, whose blocks are all it visits.\<close>

definition probe_jumps :: "statement list \<Rightarrow> expression \<Rightarrow> string list" where
  "probe_jumps ss e = concat (map (jump_disallowed ''probe'' [BREAK, CONTINUE]) (block_children ss e))"

definition subprog_jumps :: "statement list \<Rightarrow> expression \<Rightarrow> string list" where
  "subprog_jumps ss e = concat (map (jump_disallowed ''function'' [BREAK, CONTINUE]) (block_children ss e))"

definition macro_jumps :: "statement list \<Rightarrow> expression \<Rightarrow> string list" where
  "macro_jumps ss e = concat (map (jump_disallowed ''macro'' [BREAK, CONTINUE, RETURN]) (block_children ss e))"

section \<open>Analysis\<close>

text \<open>
  The result of \<open>ControlFlowAnalyser<Ts...>\<close> on a node: whether the node ends in one of the jumps, the
  node as it was rewritten, and the warnings.
\<close>

type_synonym 'a analysed = "bool \<times> 'a \<times> string list"

text \<open>One child; two children of which the second is visited only if the first is false; two in any case.\<close>

definition one :: "('a \<Rightarrow> 'b) \<Rightarrow> 'a analysed \<Rightarrow> 'b analysed" where
  "one C a = (case a of (b, x, w) \<Rightarrow> (b, C x, w))"

definition either :: "('a \<Rightarrow> 'b \<Rightarrow> 'c) \<Rightarrow> 'a analysed \<Rightarrow> 'b \<Rightarrow> 'b analysed \<Rightarrow> 'c analysed" where
  "either C a y b =
     (case a of (b1, x', w1) \<Rightarrow>
       if b1 then (True, C x' y, w1)
       else (case b of (b2, y', w2) \<Rightarrow> (b2, C x' y', w1 @ w2)))"

definition after :: "('a \<Rightarrow> 'b \<Rightarrow> 'c) \<Rightarrow> 'a analysed \<Rightarrow> 'b analysed \<Rightarrow> 'c analysed" where
  "after C a b = (case a of (b1, x', w1) \<Rightarrow> (case b of (b2, y', w2) \<Rightarrow> (b2, C x' y', w1 @ w2)))"

text \<open>\<open>visit(if.left) && visit(if.right)\<close>, once the condition was visited and is false.\<close>

definition both :: "('a \<Rightarrow> 'b \<Rightarrow> 'c) \<Rightarrow> 'a analysed \<Rightarrow> 'b \<Rightarrow> 'b analysed \<Rightarrow> 'c analysed" where
  "both C a y b =
     (case a of (b1, x', w1) \<Rightarrow>
       if b1 then (case b of (b2, y', w2) \<Rightarrow> (b2, C x' y', w1 @ w2))
       else (False, C x' y, w1))"

definition never :: "'a analysed \<Rightarrow> 'a analysed" where
  "never a = (case a of (b, x, w) \<Rightarrow> (False, x, w))"

text \<open>
  Dead code: the warnings, the statements, and the statement that replaces the jump and what follows
  it, \<open>if (true) { jump } else { dead code }\<close>.
\<close>

definition dead_warnings :: "statement list \<Rightarrow> expression \<Rightarrow> string list" where
  "dead_warnings ss e =
     (if ss \<noteq> [] then [''Unreachable statement.''] else []) @
     (if e \<noteq> NoneE then [''Unreachable expression; block type is implicitly none.''] else [])"

definition dead_code :: "statement list \<Rightarrow> expression \<Rightarrow> statement list" where
  "dead_code ss e = ss @ (if e \<noteq> NoneE then [ExprStatement e] else [])"

definition dead_if :: "statement \<Rightarrow> expression \<Rightarrow> statement" where
  "dead_if s dead = ExprStatement (IfExpr (Boolean True) (BlockExpr [s] NoneE) dead create_none)"

text \<open>
  The weight of a tree. Each statement or value that follows another in its block counts 20 more, so that
  moving dead code into a block of its own makes no tree heavier.
\<close>

fun weight :: "expression \<Rightarrow> nat"
  and weight_te :: "type_or_expr \<Rightarrow> nat"
  and weight_st :: "statement \<Rightarrow> nat"
  and weight_it :: "iterable \<Rightarrow> nat"
  and weight_es :: "expression list \<Rightarrow> nat"
  and weight_ss :: "statement list \<Rightarrow> nat"
  and weight_ot :: "type_or_expr option \<Rightarrow> nat"
  and weight_oe :: "expression option \<Rightarrow> nat" where
  "weight (Call f args t nj d) = Suc (weight_es args)"
| "weight (Sizeof r) = Suc (weight_te r)"
| "weight (Offsetof r fs) = Suc (weight_te r)"
| "weight (Binop l oper r t) = Suc (weight l + weight r)"
| "weight (Unop e oper t) = Suc (weight e)"
| "weight (FieldAccess e f t) = Suc (weight e)"
| "weight (ArrayAccess e i t) = Suc (weight e + weight i)"
| "weight (TupleAccess e i t) = Suc (weight e)"
| "weight (MapAccess m k) = Suc (weight k)"
| "weight (Cast te e) = Suc (weight_te te + weight e)"
| "weight (Tuple es t) = Suc (weight_es es)"
| "weight (IfExpr c l r t) = Suc (weight c + weight l + weight r)"
| "weight (BlockExpr ss e) = Suc (weight_ss ss + weight e + 20 * (length ss + of_bool (e \<noteq> NoneE) - 1))"
| "weight (Typeinfo te) = Suc (weight_te te)"
| "weight (Comptime e) = Suc (weight e)"
| "weight _ = 1"
| "weight_te (TE_expr e) = weight e"
| "weight_te (TE_type t) = 0"
| "weight_st (ExprStatement e) = Suc (weight e)"
| "weight_st (VarDeclStatement v te) = Suc (weight_ot te)"
| "weight_st (AssignScalarMapStatement m e) = Suc (weight e)"
| "weight_st (AssignMapStatement m k e) = Suc (weight k + weight e)"
| "weight_st (AssignVarStatement d v te e) = Suc (weight_ot te + weight e)"
| "weight_st (Unroll e ss b) = Suc (weight e + weight (BlockExpr ss b))"
| "weight_st (Jump j r) = Suc (weight_oe r)"
| "weight_st (While c ss b) = Suc (weight c + weight (BlockExpr ss b))"
| "weight_st (For v it ss b t) = Suc (weight_it it + weight (BlockExpr ss b))"
| "weight_it (It_map m) = 0"
| "weight_it (It_range a b) = Suc (weight a + weight b)"
| "weight_es [] = 0"
| "weight_es (e # es) = weight e + weight_es es"
| "weight_ss [] = 0"
| "weight_ss (s # ss) = weight_st s + weight_ss ss"
| "weight_ot None = 0"
| "weight_ot (Some t) = weight_te t"
| "weight_oe None = 0"
| "weight_oe (Some e) = weight e"

lemma weight_pos [simp]: "0 < weight e" "0 < weight_st s"
  by (cases e; simp) (cases s; simp)

lemma weight_ss_append [simp]: "weight_ss (xs @ ys) = weight_ss xs + weight_ss ys"
  by (induction xs) simp_all

lemma weight_dead:
  assumes "dead_code ss e \<noteq> []"
  shows "weight (BlockExpr (dead_code ss e) NoneE) + 17
    \<le> weight_ss ss + weight e + 20 * (length ss + of_bool (e \<noteq> NoneE))"
proof (cases "e = NoneE")
  case True
  with assms show ?thesis by (cases ss) (simp_all add: dead_code_def)
next
  case False
  then show ?thesis by (simp add: dead_code_def)
qed

lemma weight_rest [simp]: "60 * (n - Suc 0) < 3 * weight_st s + 60 * n"
  using weight_pos(2) [of s] by linarith

text \<open>
  \<open>ControlFlowAnalyser<Ts...>\<close>. \<open>cfa_block\<close> is the visit of a block. After rewriting dead code, the code
  visits the \<open>if\<close> it has built: its condition is false, the block of the jump that was just visited is
  true again and unchanged (\<open>cfa_again\<close> below), so the result is that of the block of dead code.
\<close>

function (sequential) cfa :: "jump_type list \<Rightarrow> expression \<Rightarrow> expression analysed"
  and cfa_te :: "jump_type list \<Rightarrow> type_or_expr \<Rightarrow> type_or_expr analysed"
  and cfa_st :: "jump_type list \<Rightarrow> statement \<Rightarrow> statement analysed"
  and cfa_es :: "jump_type list \<Rightarrow> expression list \<Rightarrow> expression list analysed"
  and cfa_block :: "jump_type list \<Rightarrow> statement list \<Rightarrow> expression \<Rightarrow> (statement list \<times> expression) analysed"
where
  "cfa Ts (Call f args t nj d) = one (\<lambda>args. Call f args t nj d) (cfa_es Ts args)"
| "cfa Ts (Sizeof te) = one Sizeof (cfa_te Ts te)"
| "cfa Ts (Offsetof te fs) = one (\<lambda>te. Offsetof te fs) (cfa_te Ts te)"
| "cfa Ts (Binop l oper r t) = either (\<lambda>l r. Binop l oper r t) (cfa Ts l) r (cfa Ts r)"
| "cfa Ts (Unop e oper t) = one (\<lambda>e. Unop e oper t) (cfa Ts e)"
| "cfa Ts (FieldAccess e f t) = one (\<lambda>e. FieldAccess e f t) (cfa Ts e)"
| "cfa Ts (ArrayAccess e i t) = either (\<lambda>e i. ArrayAccess e i t) (cfa Ts e) i (cfa Ts i)"
| "cfa Ts (TupleAccess e i t) = one (\<lambda>e. TupleAccess e i t) (cfa Ts e)"
| "cfa Ts (MapAccess m k) = one (MapAccess m) (cfa Ts k)"
| "cfa Ts (Cast te e) = after Cast (cfa_te Ts te) (cfa Ts e)"
| "cfa Ts (Tuple es t) = one (\<lambda>es. Tuple es t) (cfa_es Ts es)"
| "cfa Ts (IfExpr c l r t) =
     either (\<lambda>c (l, r). IfExpr c l r t) (cfa Ts c) (l, r) (both Pair (cfa Ts l) r (cfa Ts r))"
| "cfa Ts (BlockExpr ss e) = one (\<lambda>(ss, e). BlockExpr ss e) (cfa_block Ts ss e)"
| "cfa Ts (Typeinfo te) = one Typeinfo (cfa_te Ts te)"
| "cfa Ts (Comptime e) = one Comptime (cfa Ts e)"
| "cfa Ts e = (False, e, [])"
| "cfa_te Ts (TE_expr e) = one TE_expr (cfa Ts e)"
| "cfa_te Ts (TE_type t) = (False, TE_type t, [])"
| "cfa_st Ts (ExprStatement e) = one ExprStatement (cfa Ts e)"
| "cfa_st Ts (VarDeclStatement v te) =
     (case te of
        None \<Rightarrow> (False, VarDeclStatement v None, [])
      | Some te \<Rightarrow> never (one (\<lambda>te. VarDeclStatement v (Some te)) (cfa_te Ts te)))"
| "cfa_st Ts (AssignScalarMapStatement m e) = one (AssignScalarMapStatement m) (cfa Ts e)"
| "cfa_st Ts (AssignMapStatement m k e) =
     either (\<lambda>k e. AssignMapStatement m k e) (cfa Ts k) e (cfa Ts e)"
| "cfa_st Ts (AssignVarStatement decl v te e) =
     (case te of
        None \<Rightarrow> one (AssignVarStatement decl v None) (cfa Ts e)
      | Some te \<Rightarrow> after (\<lambda>te e. AssignVarStatement decl v (Some te) e) (cfa_te Ts te) (cfa Ts e))"
| "cfa_st Ts (Unroll e ss b) =
     either (\<lambda>e (ss, b). Unroll e ss b) (cfa Ts e) (ss, b) (cfa_block Ts ss b)"
| "cfa_st Ts (Jump j r) = (j \<in> set Ts, Jump j r, [])"
| "cfa_st Ts (While c ss b) =
     (if RETURN \<in> set Ts
      then either (\<lambda>c (ss, b). While c ss b) (cfa Ts c) (ss, b) (cfa_block [RETURN] ss b)
      else one (\<lambda>c. While c ss b) (cfa Ts c))"
| "cfa_st Ts (For v it ss b t) =
     (case it of
        It_map m \<Rightarrow> (False, For v it ss b t, [])
      | It_range from to \<Rightarrow>
          never (after (\<lambda>from to. For v (It_range from to) ss b t) (cfa Ts from) (cfa Ts to)))"
| "cfa_es Ts [] = (False, [], [])"
| "cfa_es Ts (e # es) = never (after (#) (cfa Ts e) (cfa_es Ts es))"
| "cfa_block Ts [] e = one (Pair []) (cfa Ts e)"
| "cfa_block Ts (s # ss) e =
     (case cfa_st Ts s of (b, s', w) \<Rightarrow>
       if \<not> b then
         (case cfa_block Ts ss e of (b2, (ss', e'), w2) \<Rightarrow> (b2, (s' # ss', e'), w @ w2))
       else if dead_code ss e = [] then (True, ([s'], e), w)
       else
         (case cfa_block Ts (dead_code ss e) NoneE of (b2, (ds, de), w2) \<Rightarrow>
           (b2, ([dead_if s' (BlockExpr ds de)], NoneE), w @ dead_warnings ss e @ w2)))"
  by pat_completeness auto

termination
  by (relation "measure (\<lambda>p. case p of
      Inl (Inl (Ts, e)) \<Rightarrow> 3 * weight e
    | Inl (Inr (Ts, te)) \<Rightarrow> 3 * weight_te te + 1
    | Inr (Inl (Ts, s)) \<Rightarrow> 3 * weight_st s
    | Inr (Inr (Inl (Ts, es))) \<Rightarrow> 3 * weight_es es + 1
    | Inr (Inr (Inr (Ts, ss, e))) \<Rightarrow> 3 * weight (BlockExpr ss e) - 1)")
    (auto dest!: weight_dead)

section \<open>The analysis and weights\<close>

text \<open>Projections of a result: the flag and the tree.\<close>

abbreviation tree :: "'a analysed \<Rightarrow> 'a" where
  "tree a \<equiv> fst (snd a)"

abbreviation warned :: "'a analysed \<Rightarrow> string list" where
  "warned a \<equiv> snd (snd a)"

lemmas combine_defs = one_def either_def after_def both_def never_def

lemma cfa_not_None: "tree (cfa Ts e) = NoneE \<longleftrightarrow> e = NoneE"
  by (cases e) (auto simp: combine_defs split: prod.splits if_splits)

lemma cfa_block_length:
  "tree (cfa_block Ts ss e) = (ss', e') \<Longrightarrow>
     length ss' + of_bool (e' \<noteq> NoneE) \<le> length ss + of_bool (e \<noteq> NoneE)"
proof (induction ss arbitrary: ss' e')
  case Nil
  then show ?case using cfa_not_None [of Ts e] by (auto simp: one_def split: prod.splits)
next
  case (Cons s ss)
  then show ?case by (fastforce split: prod.splits if_splits simp: dead_code_def)
qed

lemma weight_block:
  "weight (BlockExpr ss e) = Suc (weight_ss ss + weight e + 20 * (length ss + of_bool (e \<noteq> NoneE) - 1))"
  by simp

declare weight.simps(13) [simp del]

definition block_of :: "statement list \<times> expression \<Rightarrow> expression" where
  "block_of p = BlockExpr (fst p) (snd p)"

lemma weight_block_cons:
  assumes "weight_st s' \<le> weight_st s" "weight (BlockExpr ss' e') \<le> weight (BlockExpr ss e)"
    "length ss' + of_bool (e' \<noteq> NoneE) \<le> length ss + of_bool (e \<noteq> NoneE)"
  shows "weight (BlockExpr (s' # ss') e') \<le> weight (BlockExpr (s # ss) e)"
  using assms unfolding weight_block by (cases "length ss + of_bool (e \<noteq> NoneE)") auto

lemma weight_dead_if:
  assumes "weight_st s' \<le> weight_st s" "weight (BlockExpr ds de) \<le> weight (BlockExpr (dead_code ss e) NoneE)"
    "dead_code ss e \<noteq> []"
  shows "weight (BlockExpr [dead_if s' (BlockExpr ds de)] NoneE) \<le> weight (BlockExpr (s # ss) e)"
  using assms(1,2) weight_dead [OF assms(3)]
  by (simp add: weight_block [of "[_]"] weight_block [of "_ # _"] dead_if_def)

lemma cfa_block_not_last:
  assumes "cfa_st Ts s = (False, s', w)" "cfa_block Ts ss e = (b, (ss', e'), w2)"
  shows "cfa_block Ts (s # ss) e = (b, (s' # ss', e'), w @ w2)"
  using assms by simp

lemma cfa_block_last:
  assumes "cfa_st Ts s = (True, s', w)"
  shows "cfa_block Ts [s] NoneE = (True, ([s'], NoneE), w)"
  using assms by (simp add: dead_code_def)

lemma dead_code_Nil: "dead_code ss e = [] \<longleftrightarrow> ss = [] \<and> e = NoneE"
  by (simp add: dead_code_def)

lemma cfa_block_dead:
  assumes "cfa_st Ts s = (True, s', w)" "dead_code ss e \<noteq> []"
    "cfa_block Ts (dead_code ss e) NoneE = (b, (ds, de), w2)"
  shows "cfa_block Ts (s # ss) e = (b, ([dead_if s' (BlockExpr ds de)], NoneE), w @ dead_warnings ss e @ w2)"
  using assms by simp

text \<open>The three ways the visit of a block goes on after its first statement.\<close>

lemma cfa_block_cases:
  obtains
    (opn) s' w b2 ss' e' w2 where "cfa_st Ts s = (False, s', w)" "cfa_block Ts ss e = (b2, (ss', e'), w2)"
      "cfa_block Ts (s # ss) e = (b2, (s' # ss', e'), w @ w2)"
  | (lst) s' w where "cfa_st Ts s = (True, s', w)" "ss = []" "e = NoneE"
      "cfa_block Ts (s # ss) e = (True, ([s'], NoneE), w)"
  | (dead) s' w b2 ds de w2 where "cfa_st Ts s = (True, s', w)" "dead_code ss e \<noteq> []"
      "cfa_block Ts (dead_code ss e) NoneE = (b2, (ds, de), w2)"
      "cfa_block Ts (s # ss) e = (b2, ([dead_if s' (BlockExpr ds de)], NoneE), w @ dead_warnings ss e @ w2)"
proof -
  obtain b s' w where s: "cfa_st Ts s = (b, s', w)" by (cases "cfa_st Ts s")
  obtain b2 ss' e' w2 where r: "cfa_block Ts ss e = (b2, (ss', e'), w2)" by (metis prod_cases3 surj_pair)
  obtain b3 ds de w3 where d: "cfa_block Ts (dead_code ss e) NoneE = (b3, (ds, de), w3)"
    by (metis prod_cases3 surj_pair)
  show thesis
  proof (cases b)
    case False
    with s r show thesis by (intro opn) simp_all
  next
    case True
    show thesis
    proof (cases "dead_code ss e = []")
      case True with s \<open>b\<close> show thesis by (intro lst) (simp_all add: dead_code_Nil)
    next
      case False with s d \<open>b\<close> show thesis by (intro dead) simp_all
    qed
  qed
qed

lemma cfa_weight:
  "weight (tree (cfa Ts e)) \<le> weight e"
  "weight_te (tree (cfa_te Ts te)) \<le> weight_te te"
  "weight_st (tree (cfa_st Ts s)) \<le> weight_st s"
  "weight_es (tree (cfa_es Ts es)) \<le> weight_es es"
  "weight (block_of (tree (cfa_block Ts ss b))) \<le> weight (BlockExpr ss b)"
proof (induction Ts e and Ts te and Ts s and Ts es and Ts ss b rule: cfa_cfa_te_cfa_st_cfa_es_cfa_block.induct)
  case (31 Ts s ss e)
  show ?case
  proof (cases rule: cfa_block_cases [of Ts s ss e])
    case (opn s' w b2 ss' e' w2)
    with 31(1) 31(2) [OF opn(1) [symmetric] refl] show ?thesis
      using weight_block_cons [of s' s ss' e' ss e] cfa_block_length [of Ts ss e ss' e']
      by (simp add: block_of_def)
  next
    case (lst s' w)
    with 31(1) show ?thesis by (simp add: block_of_def weight_block)
  next
    case (dead s' w b2 ds de w2)
    with 31(1) 31(3) [OF dead(1) [symmetric] refl _ dead(2)] show ?thesis
      using weight_dead_if [of s' s ds de ss e] by (simp add: block_of_def del: cfa_block.simps)
  qed
next
  case (26 Ts c ss b)
  then show ?case by (cases "RETURN \<in> set Ts") (auto simp: combine_defs block_of_def split: prod.splits)
qed (auto simp: combine_defs block_of_def weight_block [of "[]"] split: prod.splits if_splits option.splits iterable.splits)

section \<open>Analysing twice\<close>

lemma cfa_st_dead_if:
  assumes "cfa_st Ts s = (True, s', w)" "cfa_block Ts ds de = (b, (ds', de'), w2)"
  shows "cfa_st Ts (dead_if s (BlockExpr ds de)) = (b, dead_if s' (BlockExpr ds' de'), w @ w2)"
  using assms by (simp add: dead_if_def combine_defs dead_code_def)

text \<open>The analysis of a tree it has rewritten gives the same answer, rewrites nothing and warns of nothing.\<close>

definition settled :: "'a analysed \<Rightarrow> 'a analysed \<Rightarrow> bool" where
  "settled a again \<longleftrightarrow> again = (fst a, tree a, [])"

lemma cfa_again:
  "settled (cfa Ts e) (cfa Ts (tree (cfa Ts e)))"
  "settled (cfa_te Ts te) (cfa_te Ts (tree (cfa_te Ts te)))"
  "settled (cfa_st Ts s) (cfa_st Ts (tree (cfa_st Ts s)))"
  "settled (cfa_es Ts es) (cfa_es Ts (tree (cfa_es Ts es)))"
  "settled (cfa_block Ts ss b) (cfa_block Ts (fst (tree (cfa_block Ts ss b))) (snd (tree (cfa_block Ts ss b))))"
proof (induction Ts e and Ts te and Ts s and Ts es and Ts ss b rule: cfa_cfa_te_cfa_st_cfa_es_cfa_block.induct)
  case (31 Ts s ss e)
  show ?case
  proof (cases rule: cfa_block_cases [of Ts s ss e])
    case (opn s' w b2 ss' e' w2)
    with 31(1) 31(2) [OF opn(1) [symmetric] refl] show ?thesis by (simp add: settled_def)
  next
    case (lst s' w)
    with 31(1) show ?thesis by (simp add: settled_def dead_code_Nil)
  next
    case (dead s' w b2 ds de w2)
    with 31(1) 31(3) [OF dead(1) [symmetric] refl _ dead(2)] have "cfa_block Ts ds de = (b2, (ds, de), [])" "cfa_st Ts s' = (True, s', [])"
      by (simp_all add: settled_def del: cfa_block.simps)
    then have "cfa_st Ts (dead_if s' (BlockExpr ds de)) = (b2, dead_if s' (BlockExpr ds de), [])"
      using cfa_st_dead_if by fastforce
    then have "cfa_block Ts [dead_if s' (BlockExpr ds de)] NoneE = (b2, ([dead_if s' (BlockExpr ds de)], NoneE), [])"
      by (cases b2) (simp_all add: dead_code_Nil combine_defs)
    with dead(4) show ?thesis by (simp add: settled_def del: cfa_block.simps)
  qed
next
  case (26 Ts c ss b)
  then show ?case by (cases "RETURN \<in> set Ts") (auto simp: settled_def combine_defs split: prod.splits if_splits)
qed (auto simp: settled_def combine_defs split: prod.splits if_splits option.splits iterable.splits)

section \<open>Injection of jumps\<close>

lemma weight_last: "ss \<noteq> [] \<Longrightarrow> weight_st (last ss) \<le> weight_ss ss"
  by (induction ss) auto

text \<open>
  \<open>inject_jump<T, Ts...>\<close> on an expression and on a block; the first of the jumps is the one injected.
  The analysis of the branches of an \<open>if\<close> may rewrite them and warn.
\<close>

function (sequential) inject :: "jump_type list \<Rightarrow> expression \<Rightarrow> expression \<times> string list"
  and inject_block :: "jump_type list \<Rightarrow> statement list \<Rightarrow> expression \<Rightarrow> (statement list \<times> expression) \<times> string list"
where
  "inject Ts (BlockExpr ss e) = (case inject_block Ts ss e of ((ss', e'), w) \<Rightarrow> (BlockExpr ss' e', w))"
| "inject Ts (IfExpr c l r t) =
     (let lw = (if fst (cfa Ts l) then (tree (cfa Ts l), []) else inject Ts (tree (cfa Ts l)));
          rw = (if fst (cfa Ts r) then (tree (cfa Ts r), []) else inject Ts (tree (cfa Ts r)))
      in (IfExpr c (fst lw) (fst rw) t, warned (cfa Ts l) @ snd lw @ warned (cfa Ts r) @ snd rw))"
| "inject Ts e = (BlockExpr [ExprStatement e, Jump (hd Ts) None] NoneE, [])"
| "inject_block Ts ss e =
     (if e = NoneE then
        (if ss \<noteq> [] then
           (case last ss of
              ExprStatement x \<Rightarrow> (case inject Ts x of (x', w) \<Rightarrow> ((butlast ss @ [ExprStatement x'], e), w))
            | _ \<Rightarrow> ((ss @ [Jump (hd Ts) None], e), []))
         else ((ss @ [Jump (hd Ts) None], e), []))
      else (case inject Ts e of (e', w) \<Rightarrow> ((ss, e'), w)))"
  by pat_completeness auto

termination
proof (relation "measure (\<lambda>p. case p of Inl (Ts, e) \<Rightarrow> 2 * weight e | Inr (Ts, ss, e) \<Rightarrow> 2 * weight (BlockExpr ss e) - 1)",
    goal_cases)
  case 1 then show ?case by simp
next
  case (2 Ts ss e)
  then show ?case by (simp add: weight_block)
next
  case (3 Ts c l r t)
  then show ?case using cfa_weight(1) [of Ts l] by simp
next
  case (4 Ts c l r t x)
  then show ?case using cfa_weight(1) [of Ts r] by simp
next
  case (5 Ts ss e x)
  then show ?case using weight_last [of ss] by (simp add: weight_block)
next
  case (6 Ts ss e)
  then show ?case by (simp add: weight_block)
qed

section \<open>Injection makes a block end in a jump\<close>









section \<open>Exit and the passes over programs\<close>

text \<open>\<open>ExitReturn\<close>: a call of \<open>exit\<close> is followed by a return.\<close>

definition exit_step :: "expression \<Rightarrow> expression" where
  "exit_step e =
     (case e of
        Call f args t nj disc \<Rightarrow> if f = ''exit'' \<and> length args \<le> 1 then fst (inject [RETURN] e) else e
      | _ \<Rightarrow> e)"

definition exit_return :: "expression \<Rightarrow> expression" where
  "exit_return = rewrite_expr exit_step"

text \<open>The number of loops in a tree, which neither the analysis nor the injection changes.\<close>

fun is_loop :: "statement \<Rightarrow> bool" where
  "is_loop (While c ss b) = True"
| "is_loop (For v it ss b t) = True"
| "is_loop s = False"

function (sequential) loops :: "node \<Rightarrow> nat" where
  "loops (NE e) = sum_list (map loops (expr_children e))"
| "loops (NS s) = of_bool (is_loop s) + sum_list (map loops (stmt_children s))"
  by pat_completeness auto
termination
  by (relation "measure node_depth")
    (auto dest: depth_children [of _ "NE _", simplified] depth_children [of _ "NS _", simplified])

definition loops_in :: "node list \<Rightarrow> nat" where
  "loops_in ns = sum_list (map loops ns)"

lemma loops_in_simps [simp]:
  "loops_in [] = 0" "loops_in (n # ns) = loops n + loops_in ns" "loops_in (ns @ ms) = loops_in ns + loops_in ms"
  by (simp_all add: loops_in_def)

lemma loops_nodes [simp]:
  "loops (NE e) = loops_in (expr_children e)"
  "loops (NS s) = of_bool (is_loop s) + loops_in (stmt_children s)"
  by (simp_all add: loops_in_def)

declare loops.simps [simp del]

lemma loops_in_block [simp]: "loops_in (block_children ss e) = loops_in (map NS ss) + loops (NE e)"
  by (simp add: block_children_def)

lemma loops_member: "c \<in> set ns \<Longrightarrow> loops c \<le> loops_in ns"
  by (induction ns) auto

lemma loops_dead_code [simp]: "loops_in (map NS (dead_code ss e)) = loops_in (map NS ss) + loops (NE e)"
  by (simp add: dead_code_def)

lemma loops_cfa:
  "loops (NE (tree (cfa Ts e))) = loops (NE e)"
  "loops_in (te_children (tree (cfa_te Ts te))) = loops_in (te_children te)"
  "loops (NS (tree (cfa_st Ts s))) = loops (NS s)"
  "loops_in (map NE (tree (cfa_es Ts es))) = loops_in (map NE es)"
  "loops_in (block_children (fst (tree (cfa_block Ts ss b))) (snd (tree (cfa_block Ts ss b)))) = loops_in (block_children ss b)"
proof (induction Ts e and Ts te and Ts s and Ts es and Ts ss b rule: cfa_cfa_te_cfa_st_cfa_es_cfa_block.induct)
  case (26 Ts c ss b)
  then show ?case by (cases "RETURN \<in> set Ts") (auto simp: combine_defs split: prod.splits)
next
  case (31 Ts s ss e)
  show ?case
  proof (cases rule: cfa_block_cases [of Ts s ss e])
    case (opn s' w b2 ss' e' w2)
    with 31(1) 31(2) [OF opn(1) [symmetric] refl] show ?thesis by (auto simp: dead_code_Nil)
  next
    case (lst s' w)
    with 31(1) show ?thesis by simp
  next
    case (dead s' w b2 ds de w2)
    with 31(1) 31(3) [OF dead(1) [symmetric] refl _ dead(2)] show ?thesis by (simp add: dead_if_def del: cfa_block.simps)
  qed
qed (auto simp: combine_defs ot_children_def split: prod.splits if_splits option.splits iterable.splits)

lemma loops_butlast:
  "ss \<noteq> [] \<Longrightarrow> loops_in (map NS ss) = loops_in (map NS (butlast ss)) + loops (NS (last ss))"
  by (induction ss) auto

lemma loops_inject:
  "loops (NE (fst (inject Ts e))) = loops (NE e)"
  "loops_in (block_children (fst (fst (inject_block Ts ss b))) (snd (fst (inject_block Ts ss b)))) = loops_in (block_children ss b)"
proof (induction Ts e and Ts ss b rule: inject_inject_block.induct)
  case (2 Ts c l r t)
  then show ?case using loops_cfa(1) [of Ts l] loops_cfa(1) [of Ts r] by (simp add: Let_def)
next
  case (4 Ts ss e)
  then show ?case using loops_butlast [of ss] by (auto split: prod.splits statement.splits)
qed (auto split: prod.splits)

text \<open>
  \<open>ControlFlowInjector\<close>: a loop's block is analysed, completed with a \<open>continue\<close> where it does not end
  in a jump, and only then visited.
\<close>

definition complete_block :: "jump_type list \<Rightarrow> statement list \<Rightarrow> expression
    \<Rightarrow> (statement list \<times> expression) \<times> string list" where
  "complete_block Ts ss b =
     (let a = cfa_block Ts ss b
      in if fst a then (tree a, warned a)
         else let i = inject_block Ts (fst (tree a)) (snd (tree a)) in (fst i, warned a @ snd i))"

lemma loops_complete:
  "loops_in (block_children (fst (fst (complete_block Ts ss b))) (snd (fst (complete_block Ts ss b)))) = loops_in (block_children ss b)"
  by (simp only: complete_block_def Let_def loops_cfa(5) loops_inject(2) fst_conv split: if_splits) simp

definition for_jumps :: "jump_type list" where
  "for_jumps = [CONTINUE, BREAK]"

definition while_jumps :: "jump_type list" where
  "while_jumps = [CONTINUE, BREAK, RETURN]"

lemma loops_child: "c \<in> set (children n) \<Longrightarrow> loops c \<le> loops n"
  using loops_member [of c "children n"] by (cases n) auto

lemma complete_child_loops:
  assumes "c \<in> set (block_children (fst (fst (complete_block Ts ss b))) (snd (fst (complete_block Ts ss b))))"
  shows "loops c < Suc (loops_in (block_children ss b))"
  using loops_member [OF assms] loops_complete [of Ts ss b] by simp

lemma loops_expr_child:
  "c \<in> set (expr_children e) \<Longrightarrow> loops c \<le> loops (NE e) \<and> node_depth c < depth e"
  using loops_child [of c "NE e"] depth_children [of c "NE e"] by simp

lemma loops_stmt_child:
  "c \<in> set (stmt_children s) \<Longrightarrow> loops c \<le> loops (NS s) \<and> node_depth c < depth_st s"
  using loops_child [of c "NS s"] depth_children [of c "NS s"] by simp

lemma mem_block: "s \<in> set ss \<Longrightarrow> NS s \<in> set (block_children ss b)" "NE b \<in> set (block_children ss b)"
  by (simp_all add: block_children_def)

function (sequential) complete_loops :: "expression \<Rightarrow> expression"
  and complete_loops_st :: "statement \<Rightarrow> statement" where
  "complete_loops e = expr_map complete_loops complete_loops_st e"
| "complete_loops_st (For v it ss b t) =
     (let p = fst (complete_block for_jumps ss b)
      in For v it (map complete_loops_st (fst p)) (complete_loops (snd p)) t)"
| "complete_loops_st (While c ss b) =
     (let p = fst (complete_block while_jumps ss b)
      in While c (map complete_loops_st (fst p)) (complete_loops (snd p)))"
| "complete_loops_st s = stmt_map complete_loops complete_loops_st s"
  by pat_completeness auto

termination
proof (relation "(\<lambda>p. case p of Inl e \<Rightarrow> loops (NE e) | Inr s \<Rightarrow> loops (NS s)) <*mlex*>
    measure (\<lambda>p. case p of Inl e \<Rightarrow> depth e | Inr s \<Rightarrow> depth_st s)", goal_cases)
  case 1 then show ?case by (simp add: wf_mlex)
next
  case (2 e x)
  then show ?case using loops_expr_child [of "NE x" e] by (auto simp: mlex_iff)
next
  case (3 e x)
  then show ?case using loops_expr_child [of "NS x" e] by (auto simp: mlex_iff)
next
  case (4 v it ss b t p x)
  then show ?case using complete_child_loops [of "NS x" for_jumps ss b] by (auto simp: mlex_iff mem_block)
next
  case (5 v it ss b t p)
  then show ?case
    using complete_child_loops [of "NE (snd p)" for_jumps ss b] by (auto simp: mlex_iff mem_block)
next
  case (6 c ss b p x)
  then show ?case using complete_child_loops [of "NS x" while_jumps ss b] by (auto simp: mlex_iff mem_block)
next
  case (7 c ss b p)
  then show ?case
    using complete_child_loops [of "NE (snd p)" while_jumps ss b] by (auto simp: mlex_iff mem_block)
qed (auto simp: mlex_iff simp del: loops_nodes stmt_children.simps dest!: loops_stmt_child)

lemma loops_node_child: "c \<in> set (children n) \<Longrightarrow> loops c \<le> loops n \<and> node_depth c < node_depth n"
  by (simp add: loops_child depth_children)

text \<open>The warnings of the injector, in the order of its visits.\<close>

function (sequential) loop_warnings :: "node \<Rightarrow> string list" where
  "loop_warnings (NS (For v it ss b t)) =
     (let c = complete_block for_jumps ss b
      in snd c @ concat (map loop_warnings (block_children (fst (fst c)) (snd (fst c)))))"
| "loop_warnings (NS (While e ss b)) =
     (let c = complete_block while_jumps ss b
      in snd c @ concat (map loop_warnings (block_children (fst (fst c)) (snd (fst c)))))"
| "loop_warnings n = concat (map loop_warnings (children n))"
  by pat_completeness auto

termination
proof (relation "loops <*mlex*> measure node_depth", goal_cases)
  case 1 then show ?case by (simp add: wf_mlex)
next
  case (2 v it ss b t c x)
  then show ?case using complete_child_loops [of x for_jumps ss b] by (simp add: mlex_iff)
next
  case (3 e ss b c x)
  then show ?case using complete_child_loops [of x while_jumps ss b] by (simp add: mlex_iff)
qed (auto simp: mlex_iff simp del: loops_nodes children.simps dest!: loops_node_child)

text \<open>
  The pass on a probe and on a function: the blocks after it, its errors and its warnings. The check of
  the jumps comes after \<open>exit\<close> is completed and before anything else is injected.
\<close>

definition control_flow_block :: "(statement list \<times> expression) \<Rightarrow> statement list \<times> expression" where
  "control_flow_block p = (map complete_loops_st (fst p), complete_loops (snd p))"

definition exit_block :: "statement list \<Rightarrow> expression \<Rightarrow> statement list \<times> expression" where
  "exit_block ss e = (map (rewrite_stmt exit_step) ss, rewrite_expr exit_step e)"

definition probe_control_flow :: "statement list \<Rightarrow> expression
    \<Rightarrow> (statement list \<times> expression) \<times> string list \<times> string list" where
  "probe_control_flow ss e =
     (let p = exit_block ss e;
          c = complete_block [RETURN] (fst p) (snd p)
      in (control_flow_block (fst c), probe_jumps (fst p) (snd p),
          snd c @ concat (map loop_warnings (block_children (fst (fst c)) (snd (fst c))))))"

definition subprog_control_flow :: "sized_type \<Rightarrow> statement list \<Rightarrow> expression
    \<Rightarrow> (statement list \<times> expression) \<times> string list \<times> string list" where
  "subprog_control_flow ret ss e =
     (let p = exit_block ss e;
          jumps = subprog_jumps (fst p) (snd p);
          a = cfa_block [RETURN] (fst p) (snd p);
          warns = (\<lambda>q. concat (map loop_warnings (block_children (fst q) (snd q))))
      in if fst a then (control_flow_block (tree a), jumps, warned a @ warns (tree a))
         else if ty ret = Ty_voidtype then
           (let i = inject_block [RETURN] (fst (tree a)) (snd (tree a))
            in (control_flow_block (fst i), jumps, warned a @ snd i @ warns (fst i)))
         else (control_flow_block (tree a), jumps @ [''Not all code paths returned a value''],
               warned a @ warns (tree a)))"

section \<open>What may complete\<close>

text \<open>
  An over-approximation of running: a node completes if control may reach what comes after it. A
  condition may go either way, the block of a \<open>while\<close> may run no time at all, the right side of
  \<open>&&\<close> and \<open>||\<close> may be skipped, and what \<open>sizeof\<close>, \<open>offsetof\<close>, \<open>typeinfo\<close> and the type of a cast
  name is not run.
\<close>

function (sequential) completes :: "node \<Rightarrow> bool" where
  "completes (NS (Jump j r)) = False"
| "completes (NS (While c ss b)) = completes (NE c)"
| "completes (NS (VarDeclStatement v te)) = True"
| "completes (NS (AssignVarStatement decl v te e)) = completes (NE e)"
| "completes (NE (IfExpr c l r t)) = (completes (NE c) \<and> (completes (NE l) \<or> completes (NE r)))"
| "completes (NE (Binop l oper r t)) =
     (completes (NE l) \<and> (oper = Op_LAND \<or> oper = Op_LOR \<or> completes (NE r)))"
| "completes (NE (Sizeof te)) = True"
| "completes (NE (Offsetof te fs)) = True"
| "completes (NE (Typeinfo te)) = True"
| "completes (NE (Cast te e)) = completes (NE e)"
| "completes n = list_all completes (children n)"
  by pat_completeness auto
termination
  by (relation "measure node_depth")
    (auto simp: less_Suc_eq_le le_max_iff_disj dest!: es_depth it_depth block_depth_child)





lemma list_all_block [simp]: "list_all P (block_children ss e) \<longleftrightarrow> list_all P (map NS ss) \<and> P (NE e)"
  by (simp add: block_children_def)


section \<open>The check of the jumps is kept\<close>

definition jumps_in :: "string \<Rightarrow> jump_type list \<Rightarrow> node list \<Rightarrow> string list" where
  "jumps_in name D ns = concat (map (jump_disallowed name D) ns)"

lemma jumps_in_simps [simp]:
  "jumps_in name D [] = []"
  "jumps_in name D (n # ns) = jump_disallowed name D n @ jumps_in name D ns"
  "jumps_in name D (ns @ ms) = jumps_in name D ns @ jumps_in name D ms"
  by (simp_all add: jumps_in_def)

lemma jumps_nodes [simp]:
  "jump_disallowed name D (NE e) = jumps_in name D (expr_children e)"
  "\<not> is_loop s \<Longrightarrow> \<nexists>j r. s = Jump j r \<Longrightarrow> jump_disallowed name D (NS s) = jumps_in name D (stmt_children s)"
  "jump_disallowed name D (NS (For v it ss b t)) = jumps_in ''for-loop'' [RETURN] (block_children ss b)"
  "jump_disallowed name D (NS (While c ss b)) =
     jumps_in ''while-loop'' (if RETURN \<in> set D then [RETURN] else []) (block_children ss b)"
  by (cases s; simp add: jumps_in_def)+

declare jump_disallowed.simps(4-) [simp del]
declare jump_disallowed.simps(1,2) [simp del]

lemma jumps_in_block [simp]:
  "jumps_in name D (block_children ss e) = jumps_in name D (map NS ss) @ jump_disallowed name D (NE e)"
  by (simp add: block_children_def)

lemma jumps_dead_code [simp]:
  "jumps_in name D (map NS (dead_code ss e)) = jumps_in name D (map NS ss) @ jump_disallowed name D (NE e)"
  by (simp add: dead_code_def)

lemma jumps_cfa:
  "jump_disallowed name D (NE (tree (cfa Ts e))) = jump_disallowed name D (NE e)"
  "jumps_in name D (te_children (tree (cfa_te Ts te))) = jumps_in name D (te_children te)"
  "jump_disallowed name D (NS (tree (cfa_st Ts s))) = jump_disallowed name D (NS s)"
  "jumps_in name D (map NE (tree (cfa_es Ts es))) = jumps_in name D (map NE es)"
  "jumps_in name D (block_children (fst (tree (cfa_block Ts ss b))) (snd (tree (cfa_block Ts ss b))))
     = jumps_in name D (block_children ss b)"
proof (induction Ts e and Ts te and Ts s and Ts es and Ts ss b arbitrary: name D and name D and name D and name D and name D
    rule: cfa_cfa_te_cfa_st_cfa_es_cfa_block.induct)
  case (26 Ts c ss b)
  then show ?case by (cases "RETURN \<in> set Ts") (auto simp: combine_defs split: prod.splits)
next
  case (31 Ts s ss e)
  show ?case
  proof (cases rule: cfa_block_cases [of Ts s ss e])
    case (opn s' w b2 ss' e' w2)
    with 31(1) [of name D] 31(2) [OF opn(1) [symmetric] refl] show ?thesis by simp
  next
    case (lst s' w)
    with 31(1) [of name D] show ?thesis by simp
  next
    case (dead s' w b2 ds de w2)
    with 31(1) [of name D] 31(3) [OF dead(1) [symmetric] refl _ dead(2)] show ?thesis
      by (simp add: dead_if_def del: cfa_block.simps)
  qed
next
  case (20 Ts v te)
  then show ?case by (cases te) (fastforce simp: combine_defs ot_children_def split: prod.splits)+
next
  case (23 Ts decl v te e)
  then show ?case by (cases te) (fastforce simp: combine_defs ot_children_def split: prod.splits)+
qed (auto simp: combine_defs ot_children_def split: prod.splits if_splits option.splits iterable.splits)

lemma jumps_butlast:
  "ss \<noteq> [] \<Longrightarrow> jumps_in name D (map NS ss) = jumps_in name D (map NS (butlast ss)) @ jump_disallowed name D (NS (last ss))"
  by (induction ss) auto

lemma jumps_inject:
  assumes "hd Ts \<notin> set D"
  shows "jump_disallowed name D (NE (fst (inject Ts e))) = jump_disallowed name D (NE e)"
    and "jumps_in name D (block_children (fst (fst (inject_block Ts ss b))) (snd (fst (inject_block Ts ss b))))
      = jumps_in name D (block_children ss b)"
  using assms
proof (induction Ts e and Ts ss b rule: inject_inject_block.induct)
  case (2 Ts c l r t)
  then show ?case using jumps_cfa(1) [of name D Ts l] jumps_cfa(1) [of name D Ts r] by (simp add: Let_def)
next
  case (4 Ts ss e)
  then show ?case using jumps_butlast [of ss name D] by (auto split: prod.splits statement.splits)
qed (auto split: prod.splits)

lemma jumps_complete:
  assumes "hd Ts \<notin> set D"
  shows "jumps_in name D (block_children (fst (fst (complete_block Ts ss b))) (snd (fst (complete_block Ts ss b))))
    = jumps_in name D (block_children ss b)"
  by (simp only: complete_block_def Let_def jumps_cfa(5) jumps_inject(2) [OF assms] fst_conv split: if_splits) simp

lemma jumps_in_map:
  "(\<And>n. n \<in> set ns \<Longrightarrow> jump_disallowed name D (h n) = jump_disallowed name D n)
    \<Longrightarrow> jumps_in name D (map h ns) = jumps_in name D ns"
  by (induction ns) auto

lemma jumps_node_map:
  assumes "\<And>x. NE x \<in> set ns \<Longrightarrow> jump_disallowed name D (NE (f x)) = jump_disallowed name D (NE x)"
    "\<And>x. NS x \<in> set ns \<Longrightarrow> jump_disallowed name D (NS (g x)) = jump_disallowed name D (NS x)"
  shows "jumps_in name D (map (node_map f g) ns) = jumps_in name D ns"
proof (rule jumps_in_map)
  fix n assume "n \<in> set ns"
  with assms show "jump_disallowed name D (node_map f g n) = jump_disallowed name D n"
    by (cases n) (simp_all del: jumps_nodes)
qed

lemma jumps_stmt_map:
  assumes "\<not> is_loop s" "\<nexists>j r. s = Jump j r"
    "\<And>x. NE x \<in> set (stmt_children s) \<Longrightarrow> jump_disallowed name D (NE (f x)) = jump_disallowed name D (NE x)"
    "\<And>x. NS x \<in> set (stmt_children s) \<Longrightarrow> jump_disallowed name D (NS (g x)) = jump_disallowed name D (NS x)"
  shows "jump_disallowed name D (NS (stmt_map f g s)) = jump_disallowed name D (NS s)"
proof -
  have "\<not> is_loop (stmt_map f g s)" "\<nexists>j r. stmt_map f g s = Jump j r" using assms(1,2) by (cases s; simp)+
  then have "jump_disallowed name D (NS (stmt_map f g s)) = jumps_in name D (map (node_map f g) (stmt_children s))"
    by (simp only: jumps_nodes(2) stmt_children_map not_False_eq_True)
  also have "\<dots> = jumps_in name D (stmt_children s)" by (rule jumps_node_map [OF assms(3,4)])
  finally show ?thesis using assms(1,2) by simp
qed

lemma jumps_completed_loop:
  assumes "hd Ts \<notin> set D"
    "\<And>x. x \<in> set (fst (fst (complete_block Ts ss b))) \<Longrightarrow> jump_disallowed name D (NS (complete_loops_st x)) = jump_disallowed name D (NS x)"
    "jump_disallowed name D (NE (complete_loops (snd (fst (complete_block Ts ss b)))))
      = jump_disallowed name D (NE (snd (fst (complete_block Ts ss b))))"
  shows "jumps_in name D (block_children (map complete_loops_st (fst (fst (complete_block Ts ss b))))
      (complete_loops (snd (fst (complete_block Ts ss b))))) = jumps_in name D (block_children ss b)"
proof -
  have "jumps_in name D (block_children (map complete_loops_st (fst (fst (complete_block Ts ss b))))
      (complete_loops (snd (fst (complete_block Ts ss b)))))
    = jumps_in name D (block_children (fst (fst (complete_block Ts ss b))) (snd (fst (complete_block Ts ss b))))"
    unfolding block_children_map using assms(2,3)
    by (intro jumps_node_map) (auto simp: block_children_def simp del: jumps_nodes)
  with jumps_complete [OF assms(1)] show ?thesis by simp
qed

lemma jumps_complete_loops:
  "jump_disallowed name D (NE (complete_loops e)) = jump_disallowed name D (NE e)"
  "jump_disallowed name D (NS (complete_loops_st s)) = jump_disallowed name D (NS s)"
  supply complete_loops.simps [simp del]
proof (induction e and s arbitrary: name D and name D rule: complete_loops_complete_loops_st.induct)
  case (1 e)
  then show ?case
    by (subst complete_loops.simps)
      (simp only: jumps_nodes(1) [of _ _ "expr_map f g e" for f g e] jumps_nodes(1) [of _ _ e] expr_children_map jumps_node_map)
next
  case (2 v it ss b t)
  then show ?case
    by (simp only: complete_loops_st.simps Let_def jumps_nodes(3))
      (intro jumps_completed_loop, simp_all add: for_jumps_def del: jumps_nodes)
next
  case (3 c ss b)
  then show ?case
    by (simp only: complete_loops_st.simps Let_def jumps_nodes(4))
      (intro jumps_completed_loop, simp_all add: while_jumps_def del: jumps_nodes)
qed ((simp only: complete_loops_st.simps, rule jumps_stmt_map; (simp del: jumps_nodes; fail)) | simp)+

section \<open>Properties\<close>

text \<open>Where dead code is rewritten, the result is that of visiting the \<open>if\<close> the code builds, as the
  source has it: \<open>cfa_block\<close> satisfies the recursive equation of \<open>visit(BlockExpr &)\<close>.\<close>

theorem cfa_block_source:
  assumes "cfa_st Ts s = (True, s', w)" "dead_code ss e \<noteq> []"
  shows "cfa_block Ts (s # ss) e =
    (case cfa_st Ts (dead_if s' (BlockExpr (dead_code ss e) NoneE)) of
       (b, if_stmt, w2) \<Rightarrow> (b, ([if_stmt], NoneE), w @ dead_warnings ss e @ w2))"
proof -
  obtain b ds de w2 where d: "cfa_block Ts (dead_code ss e) NoneE = (b, (ds, de), w2)"
    by (metis prod_cases3 surj_pair)
  have "cfa_st Ts s' = (True, s', [])" using cfa_again(3) [of Ts s] assms(1) by (simp add: settled_def)
  from cfa_st_dead_if [OF this d] cfa_block_dead [OF assms d] show ?thesis by simp
qed

lemma cfa_block_source_witness:
  "cfa_block [RETURN] [Jump RETURN None, ExprStatement NoneE] NoneE =
    (case cfa_st [RETURN] (dead_if (Jump RETURN None) (BlockExpr [ExprStatement NoneE] NoneE)) of
       (b, if_stmt, w2) \<Rightarrow> (b, ([if_stmt], NoneE), [''Unreachable statement.''] @ w2))"
  using cfa_block_source [of "[RETURN]" "Jump RETURN None" "Jump RETURN None" "[]" "[ExprStatement NoneE]" NoneE]
  by (simp add: dead_code_def dead_warnings_def)

text \<open>Analysing a tree again after the analysis rewrote it gives the same answer, changes nothing and
  repeats no warning.\<close>

theorem cfa_idempotent:
  "cfa Ts (tree (cfa Ts e)) = (fst (cfa Ts e), tree (cfa Ts e), [])"
  using cfa_again(1) [of Ts e] by (simp add: settled_def)





text \<open>C25: The pass injects only jumps that are allowed where it puts them: the errors of the check of the
  jumps on a probe's block are the same before and after the injections and rewritings, loops included.\<close>

theorem injection_keeps_check:
  "(case control_flow_block (fst (complete_block [RETURN] ss e)) of (ss', e') \<Rightarrow> probe_jumps ss' e')
   = probe_jumps ss e"
proof -
  let ?D = "[BREAK, CONTINUE]"
  obtain ss1 e1 w where c: "complete_block [RETURN] ss e = ((ss1, e1), w)" by (metis surj_pair)
  have "jumps_in ''probe'' ?D (block_children (map complete_loops_st ss1) (complete_loops e1))
      = jumps_in ''probe'' ?D (block_children ss1 e1)"
    unfolding block_children_map by (intro jumps_node_map jumps_complete_loops)
  also have "\<dots> = jumps_in ''probe'' ?D (block_children ss e)"
    using jumps_complete [of "[RETURN]" ?D "''probe''" ss e] c by simp
  finally show ?thesis
    by (simp add: c control_flow_block_def probe_jumps_def jumps_in_def)
qed

section \<open>Deviations\<close>

text \<open>
  A \<open>while\<close> whose block returns counts as returning, though its condition may be false at once: no
  return is injected after it.
\<close>

lemma while_counts_as_return:
  "fst (cfa_st [RETURN] (While (Boolean False) [Jump RETURN None] NoneE))"
  "completes (NS (While (Boolean False) [Jump RETURN None] NoneE))"
  by (simp_all add: combine_defs dead_code_def)

text \<open>So does the right side of a logical operator.\<close>

lemma or_counts_as_return:
  "fst (cfa [RETURN] (Binop (Boolean True) Op_LOR (BlockExpr [Jump RETURN None] NoneE) create_none))"
  "completes (NE (Binop (Boolean True) Op_LOR (BlockExpr [Jump RETURN None] NoneE) create_none))"
  by (simp_all add: combine_defs dead_code_def)

text \<open>A \<open>return\<close> in the start or the end of a range does not count, because \<open>viist(Range &)\<close> is no visit.\<close>

lemma range_does_not_count:
  "fst (cfa Ts e) \<Longrightarrow> \<not> fst (cfa_st Ts (For v (It_range e e2) ss b t))"
  by (simp add: combine_defs split: prod.splits)

end
