(* ===== verification/Macro_Expansion.thy ===== *)
theory Macro_Expansion
  imports AST_State "HOL-Library.AList"
begin

text \<open>
  Macros, \<open>src/ast/passes/macro_expansion.cpp\<close>: the registry, the choice of the macro for a call, and the
  expansion of calls and identifiers into the blocks of their macros, with the renaming of variables
  and the checks that keep it hygienic. A macro is registered once for its name and its kinds of
  arguments, so macros are compared by value where the code compares their addresses.
\<close>

section \<open>Macros and their registry\<close>

record macro =
  mac_name :: string
  mac_args :: "expression list"
  mac_stmts :: "statement list"
  mac_value :: expression

text \<open>An error with the lines of context that are added to it.\<close>

type_synonym macro_error = "string \<times> string list"

type_synonym macro_registry = "(string \<times> macro list) list"

fun validate_args :: "expression list \<Rightarrow> string list \<Rightarrow> string list \<Rightarrow> string option" where
  "validate_args [] seen_mvars seen_mmaps = None"
| "validate_args (VariableE v # es) seen_mvars seen_mmaps =
     (if List.member seen_mvars (v_ident v)
      then Some (''Variable for macro argument has already been used: '' @ v_ident v)
      else validate_args es (v_ident v # seen_mvars) seen_mmaps)"
| "validate_args (MapE m # es) seen_mvars seen_mmaps =
     (if List.member seen_mmaps (m_ident m)
      then Some (''Map for macro argument has already been used: '' @ m_ident m)
      else validate_args es seen_mvars (m_ident m # seen_mmaps))"
| "validate_args (e # es) seen_mvars seen_mmaps = validate_args es seen_mvars seen_mmaps"

fun is_map :: "expression \<Rightarrow> bool" where
  "is_map (MapE m) = True"
| "is_map e = False"

fun is_variable :: "expression \<Rightarrow> bool" where
  "is_variable (VariableE v) = True"
| "is_variable e = False"

definition incompatible :: "expression \<Rightarrow> expression \<Rightarrow> bool" where
  "incompatible param arg \<longleftrightarrow> (is_map param \<and> \<not> is_map arg) \<or> (is_variable param \<and> \<not> is_variable arg)"

definition distance :: "macro \<Rightarrow> expression list \<Rightarrow> nat" where
  "distance m args =
     1024 * nat \<bar>int (length (mac_args m)) - int (length args)\<bar> +
     length (filter (\<lambda>(p, a). incompatible p a) (zip (mac_args m) args))"

text \<open>
  The loop of \<open>lookup\<close> over the macros of a name: \<open>min_distance\<close> and \<open>closest\<close> so far. \<open>None\<close> is the
  largest \<open>size_t\<close>, which no distance reaches.
\<close>

definition nearer :: "nat \<Rightarrow> nat option \<Rightarrow> bool" where
  "nearer d min_distance \<longleftrightarrow> (case min_distance of None \<Rightarrow> True | Some d' \<Rightarrow> d < d')"

fun closest_macro :: "expression list \<Rightarrow> nat option \<Rightarrow> macro list \<Rightarrow> macro list \<Rightarrow> macro list + macro" where
  "closest_macro args min_distance closest [] = Inl closest"
| "closest_macro args min_distance closest (m # ms) =
     (let d = distance m args
      in if d = 0 then Inr m
         else let c = (if nearer d min_distance then (Some d, []) else (min_distance, closest))
           in closest_macro args (fst c) (if fst c = Some d then snd c @ [m] else snd c) ms)"

definition macro_lookup :: "macro_registry \<Rightarrow> string \<Rightarrow> expression list \<Rightarrow> macro list + macro" where
  "macro_lookup reg name args =
     (case map_of reg name of None \<Rightarrow> Inl [] | Some ms \<Rightarrow> closest_macro args None [] ms)"

definition registry_insert :: "macro_registry \<Rightarrow> macro \<Rightarrow> macro_registry" where
  "registry_insert reg m =
     AList.update (mac_name m) ((case map_of reg (mac_name m) of None \<Rightarrow> [] | Some ms \<Rightarrow> ms) @ [m]) reg"

fun macro_registry_create :: "macro list \<Rightarrow> macro_registry \<Rightarrow> macro_registry \<times> macro_error list" where
  "macro_registry_create [] reg = (reg, [])"
| "macro_registry_create (m # ms) reg =
     (case macro_lookup reg (mac_name m) (mac_args m) of
        Inr x \<Rightarrow>
          (case macro_registry_create ms reg of
             (r, errs) \<Rightarrow>
               (r, (''Redefinition of macro: '' @ mac_name m, [''This is the original definition.'']) # errs))
      | Inl cl \<Rightarrow>
          (case validate_args (mac_args m) [] [] of
             Some err \<Rightarrow> (case macro_registry_create ms reg of (r, errs) \<Rightarrow> (r, (err, []) # errs))
           | None \<Rightarrow> macro_registry_create ms (registry_insert reg m)))"

definition all_macros :: "macro_registry \<Rightarrow> macro set" where
  "all_macros reg = (\<Union>p\<in>set reg. set (snd p))"

lemma closest_macro_member: "closest_macro args d cl ms = Inr m \<Longrightarrow> m \<in> set ms \<and> distance m args = 0"
  by (induction ms arbitrary: d cl) (auto simp: Let_def split: if_splits)

lemma macro_lookup_member:
  "macro_lookup reg name args = Inr m \<Longrightarrow> m \<in> all_macros reg \<and> distance m args = 0"
  by (force simp: macro_lookup_def all_macros_def dest: closest_macro_member map_of_SomeD split: option.splits)

lemma finite_macros [simp]: "finite (all_macros reg)"
  by (simp add: all_macros_def)

section \<open>The expander\<close>

text \<open>
  What an expander is created with: the macros being expanded, whether it may rename, and what the
  maps, the variables and the identifiers of the macro's arguments stand for. Its state is the
  variables it has decided to rename, and the errors.
\<close>

record expander =
  ex_stack :: "macro list"
  ex_rename :: bool
  ex_maps :: "string \<rightharpoonup> string"
  ex_vars :: "string \<rightharpoonup> string"
  ex_passed :: "string \<rightharpoonup> expression"

record expansion =
  renamed_vars :: "string list"
  macro_errs :: "macro_error list"

definition top_expander :: expander where
  "top_expander =
     \<lparr>ex_stack = [], ex_rename = True, ex_maps = Map.empty, ex_vars = Map.empty, ex_passed = Map.empty\<rparr>"

text \<open>The expander of an expression that was passed into a macro.\<close>

definition passed_expander :: "expander \<Rightarrow> expander" where
  "passed_expander ex = top_expander\<lparr>ex_stack := ex_stack ex, ex_rename := False\<rparr>"

definition rename_ok :: "expander \<Rightarrow> bool" where
  "rename_ok ex \<longleftrightarrow> ex_stack ex \<noteq> [] \<and> ex_rename ex"

definition get_new_var_ident :: "expander \<Rightarrow> string \<Rightarrow> string" where
  "get_new_var_ident ex x =
     ''$$'' @ mac_name (last (ex_stack ex)) @
     (if length (ex_stack ex) \<noteq> 1 then ''_'' @ show_nat (length (ex_stack ex)) else []) @ ''_'' @ x"

text \<open>\<open>expand\<close>: what the arguments of a call stand for, the last one for a name.\<close>

fun pass_arg :: "expression \<times> expression \<Rightarrow> expander \<Rightarrow> expander" where
  "pass_arg (Identifier x t, a) ex =
     ex\<lparr>ex_passed := (ex_passed ex)(x \<mapsto> (if is_variable a \<or> is_map a then BlockExpr [] a else a))\<rparr>"
| "pass_arg (VariableE v, VariableE w) ex = ex\<lparr>ex_vars := (ex_vars ex)(v_ident v \<mapsto> v_ident w)\<rparr>"
| "pass_arg (MapE m, MapE n) ex = ex\<lparr>ex_maps := (ex_maps ex)(m_ident m \<mapsto> m_ident n)\<rparr>"
| "pass_arg p ex = ex"

definition call_expander :: "expander \<Rightarrow> macro \<Rightarrow> expression list \<Rightarrow> expander" where
  "call_expander ex m args =
     fold pass_arg (zip (mac_args m) args) (top_expander\<lparr>ex_stack := ex_stack ex @ [m]\<rparr>)"

definition add_error :: "macro_error \<Rightarrow> (expansion, unit) state" where
  "add_error err = State_Monad.update (\<lambda>s. s\<lparr>macro_errs := macro_errs s @ [err]\<rparr>)"

definition add_renamed :: "string \<Rightarrow> (expansion, unit) state" where
  "add_renamed x = State_Monad.update (\<lambda>s. s\<lparr>renamed_vars := List.insert x (renamed_vars s)\<rparr>)"

text \<open>A new expander starts with no renamed variables; those of the old one come back after it.\<close>

definition new_scope :: "(expansion, 'a) state \<Rightarrow> (expansion, 'a) state" where
  "new_scope m =
     State (\<lambda>s. case run_state m (s\<lparr>renamed_vars := []\<rparr>) of (x, s') \<Rightarrow> (x, s'\<lparr>renamed_vars := renamed_vars s\<rparr>))"

definition visit_variable :: "expander \<Rightarrow> variable \<Rightarrow> (expansion, variable) state" where
  "visit_variable ex v =
     (if \<not> rename_ok ex then State_Monad.return v
      else case ex_vars ex (v_ident v) of
          Some y \<Rightarrow> State_Monad.return (v\<lparr>v_ident := y\<rparr>)
        | None \<Rightarrow>
            do { s \<leftarrow> State_Monad.get;
                 State_Monad.return
                   (if List.member (renamed_vars s) (v_ident v)
                    then v\<lparr>v_ident := get_new_var_ident ex (v_ident v)\<rparr> else v) })"

definition visit_map :: "expander \<Rightarrow> map_node \<Rightarrow> (expansion, map_node) state" where
  "visit_map ex m =
     (if \<not> rename_ok ex then State_Monad.return m
      else case ex_maps ex (m_ident m) of
          Some y \<Rightarrow> State_Monad.return (m\<lparr>m_ident := y\<rparr>)
        | None \<Rightarrow>
            do { add_error (''Unhygienic access to map: '' @ m_ident m @
                   ''. Maps must be passed into the macro as arguments.'', []);
                 State_Monad.return m })"

definition ex_hooks :: "expander \<Rightarrow> expansion hooks" where
  "ex_hooks ex =
     \<lparr>on_map = visit_map ex, on_var = visit_variable ex, on_typeof = (\<lambda>_. State_Monad.return True)\<rparr>"

fun mismatch :: "string \<Rightarrow> expression \<times> expression \<Rightarrow> macro_error list" where
  "mismatch name (MapE m, a) =
     [(''Mismatched arg. '' @ name @ ''() expects a map for arg '' @ m_ident m @
       (if is_variable a then '' but got a variable.'' else '' but got an expression.''),
       [''This is the argument in the closest definition.''])]"
| "mismatch name (VariableE v, a) =
     [(''Mismatched arg. '' @ name @ ''() expects a variable for arg '' @ v_ident v @
       (if is_map a then '' but got a map.'' else '' but got an expression.''),
       [''This is the argument in the closest definition.''])]"
| "mismatch name (e, a) = []"

definition lookup_errors :: "string \<Rightarrow> expression list \<Rightarrow> macro list \<Rightarrow> macro_error list" where
  "lookup_errors name args closest =
     (case closest of
        [] \<Rightarrow> []
      | m # ms \<Rightarrow>
          let msg = ''Call to '' @ name @ ''() has arguments that do not match any definition.''
          in if length (mac_args m) \<noteq> length args then
               [(msg, [''The closest definition of '' @ mac_name m @
                  ''() has a different number of arguments. Expected: '' @ show_nat (length (mac_args m)) @
                  '' but got '' @ show_nat (length args)])]
             else (msg, []) # concat (map (mismatch (mac_name m)) (zip (mac_args m) args)))"

definition recursion_error :: "macro list \<Rightarrow> macro \<Rightarrow> macro_error" where
  "recursion_error stack m =
     (''Recursive macro call detected. Call chain: '' @
        concat (map (\<lambda>x. mac_name x @ '' > '') (dropWhile (\<lambda>x. x \<noteq> m) stack)) @ mac_name m, [])"

text \<open>
  Why the expansion ends: a macro that is being expanded is not expanded again, and an expression that
  was passed in is visited by an expander that has no such expressions.
\<close>

definition free_macros :: "macro_registry \<Rightarrow> expander \<Rightarrow> nat" where
  "free_macros reg ex = card (all_macros reg - set (ex_stack ex))"

definition takes_exprs :: "expander \<Rightarrow> nat" where
  "takes_exprs ex = (if ex_passed ex = Map.empty then 0 else 1)"

lemma stack_pass_arg [simp]: "ex_stack (pass_arg p ex) = ex_stack ex"
  by (cases "(p, ex)" rule: pass_arg.cases) auto

lemma stack_call [simp]: "ex_stack (call_expander ex m args) = ex_stack ex @ [m]"
proof -
  have "ex_stack (fold pass_arg ps x) = ex_stack x" for ps x
    by (induction ps arbitrary: x) auto
  then show ?thesis by (simp add: call_expander_def)
qed

lemma free_macros_call:
  assumes "macro_lookup reg name args = Inr m" "\<not> List.member (ex_stack ex) m"
  shows "free_macros reg (call_expander ex m args) < free_macros reg ex"
proof -
  have "m \<in> all_macros reg - set (ex_stack ex)"
    using assms macro_lookup_member by auto
  then show ?thesis
    unfolding free_macros_def by (intro psubset_card_mono) auto
qed

lemma takes_exprs_passed: "ex_passed ex x = Some p \<Longrightarrow> takes_exprs (passed_expander ex) < takes_exprs ex"
  by (auto simp: takes_exprs_def passed_expander_def top_expander_def)

lemma free_macros_passed [simp]: "free_macros reg (passed_expander ex) = free_macros reg ex"
  by (simp add: free_macros_def passed_expander_def)

text \<open>
  The visit of an expression and of a statement. \<open>expand_call\<close> is the part of the visit after the
  arguments: \<open>e\<close> is the identifier or the call that stays when there is nothing to expand.
  An assignment that does not declare its variable has no type.
\<close>

fun as_assign_var :: "statement \<Rightarrow> (bool \<times> variable \<times> type_or_expr option \<times> expression) option" where
  "as_assign_var (AssignVarStatement decl v te e) = Some (decl, v, te, e)"
| "as_assign_var s = None"

fun as_var_decl :: "statement \<Rightarrow> (variable \<times> type_or_expr option) option" where
  "as_var_decl (VarDeclStatement v te) = Some (v, te)"
| "as_var_decl s = None"

lemma as_assign_var_eq: "as_assign_var s = Some (d, v, te, e) \<longleftrightarrow> s = AssignVarStatement d v te e"
  by (cases s) auto

lemma as_var_decl_eq: "as_var_decl s = Some (v, te) \<longleftrightarrow> s = VarDeclStatement v te"
  by (cases s) auto

function expand_expr :: "macro_registry \<Rightarrow> expander \<Rightarrow> expression \<Rightarrow> (expansion, expression) state"
  and expand_decl ::
    "macro_registry \<Rightarrow> expander \<Rightarrow> variable \<Rightarrow> type_or_expr option \<Rightarrow> (expansion, variable \<times> type_or_expr option) state"
  and expand_stmt :: "macro_registry \<Rightarrow> expander \<Rightarrow> statement \<Rightarrow> (expansion, statement) state"
  and expand_call ::
    "macro_registry \<Rightarrow> expander \<Rightarrow> expression \<Rightarrow> string \<Rightarrow> expression list \<Rightarrow> (expansion, expression) state"
where
  "expand_expr reg ex e =
     (case as_identifier e of
        Some x \<Rightarrow>
          (case ex_passed ex x of
             Some p \<Rightarrow> new_scope (expand_expr reg (passed_expander ex) p)
           | None \<Rightarrow> expand_call reg ex e x [])
      | None \<Rightarrow>
          (case as_call e of
             Some (fn, args) \<Rightarrow>
               do { args \<leftarrow> State_Monad.traverse_list (expand_expr reg ex) args;
                    expand_call reg ex (with_args e args) fn args }
           | None \<Rightarrow> expr_visit (ex_hooks ex) (expand_expr reg ex) (expand_stmt reg ex) e))"
| "expand_decl reg ex v te =
     (if \<not> rename_ok ex then State_Monad.return (v, te)
      else if ex_vars ex (v_ident v) \<noteq> None then
        do { add_error (''Variable declaration shadows macro arg '' @ v_ident v, []);
             State_Monad.return (v, te) }
      else
        do { add_renamed (v_ident v);
             te \<leftarrow> option_visit (typeof_visit (ex_hooks ex) (expand_expr reg ex)) te;
             v \<leftarrow> visit_variable ex v;
             State_Monad.return (v, te) })"
| "expand_stmt reg ex s =
     (case as_assign_var s of
        Some (decl, v, te, e) \<Rightarrow>
          if \<not> rename_ok ex then
            do { e \<leftarrow> expand_expr reg ex e; State_Monad.return (AssignVarStatement decl v te e) }
          else
            do { (if ex_vars ex (v_ident v) = None then add_renamed (v_ident v) else State_Monad.return ());
                 d \<leftarrow> (if decl then expand_decl reg ex v te
                      else do { v \<leftarrow> visit_variable ex v; State_Monad.return (v, None) });
                 e \<leftarrow> expand_expr reg ex e;
                 State_Monad.return (AssignVarStatement decl (fst d) (snd d) e) }
      | None \<Rightarrow>
          (case as_var_decl s of
             Some (v, te) \<Rightarrow>
               do { d \<leftarrow> expand_decl reg ex v te; State_Monad.return (VarDeclStatement (fst d) (snd d)) }
           | None \<Rightarrow> stmt_visit (ex_hooks ex) (expand_expr reg ex) (expand_stmt reg ex) s))"
| "expand_call reg ex e name args =
     (case macro_lookup reg name args of
        Inl closest \<Rightarrow>
          do { State_Monad.update (\<lambda>s. s\<lparr>macro_errs := macro_errs s @ lookup_errors name args closest\<rparr>);
               State_Monad.return e }
      | Inr m \<Rightarrow>
          if List.member (ex_stack ex) m then
            do { add_error (recursion_error (ex_stack ex) m); State_Monad.return e }
          else
            new_scope
              (do { ss \<leftarrow> State_Monad.traverse_list (expand_stmt reg (call_expander ex m args)) (mac_stmts m);
                    b \<leftarrow> expand_expr reg (call_expander ex m args) (mac_value m);
                    State_Monad.return (BlockExpr ss b) }))"
  by pat_completeness auto

termination
proof (relation "(\<lambda>p. case p of
      Inl (Inl (reg, ex, e)) \<Rightarrow> free_macros reg ex
    | Inl (Inr (reg, ex, v, te)) \<Rightarrow> free_macros reg ex
    | Inr (Inl (reg, ex, s)) \<Rightarrow> free_macros reg ex
    | Inr (Inr (reg, ex, e, name, args)) \<Rightarrow> free_macros reg ex)
  <*mlex*> (\<lambda>p. case p of
      Inl (Inl (reg, ex, e)) \<Rightarrow> takes_exprs ex
    | Inl (Inr (reg, ex, v, te)) \<Rightarrow> takes_exprs ex
    | Inr (Inl (reg, ex, s)) \<Rightarrow> takes_exprs ex
    | Inr (Inr (reg, ex, e, name, args)) \<Rightarrow> takes_exprs ex)
  <*mlex*> measure (\<lambda>p. case p of
      Inl (Inl (reg, ex, e)) \<Rightarrow> 2 * depth e + 1
    | Inl (Inr (reg, ex, v, te)) \<Rightarrow> 2 * depth_ot te + 2
    | Inr (Inl (reg, ex, s)) \<Rightarrow> 2 * depth_st s + 1
    | Inr (Inr x) \<Rightarrow> 0)", goal_cases)
  case 1
  then show ?case by (simp add: wf_mlex)
qed (auto simp: mlex_iff as_call_eq as_assign_var_eq as_var_decl_eq free_macros_call takes_exprs_passed less_Suc_eq_le
      simp del: expr_children.simps stmt_children.simps
      dest!: expr_child_depth stmt_child_depth es_depth te_depth)

declare expand_expr.simps [simp del] expand_decl.simps [simp del] expand_stmt.simps [simp del] expand_call.simps [simp del]

section \<open>The pass\<close>

text \<open>
  \<open>CreateMacroExpansionPass\<close>: the functions and then the probes are visited by one expander, unless the
  registry has reported an error. The variables of the script are left as they are.
\<close>

definition expand_probe :: "macro_registry \<Rightarrow> probe_node \<Rightarrow> (expansion, probe_node) state" where
  "expand_probe reg = probe_visit (expand_expr reg top_expander) (expand_stmt reg top_expander)"

definition macro_expansion ::
  "macro list \<Rightarrow> subprog list \<Rightarrow> probe_node list \<Rightarrow> (subprog list \<times> probe_node list) \<times> macro_error list" where
  "macro_expansion macros fs ps =
     (let (reg, errs) = macro_registry_create macros []
      in if errs \<noteq> [] then ((fs, ps), errs)
         else
           let (r, s) = run_state
                 (program_visit (ex_hooks top_expander) (expand_expr reg top_expander) (expand_stmt reg top_expander) (fs, ps))
                 \<lparr>renamed_vars = [], macro_errs = []\<rparr>
           in (r, macro_errs s))"

end
