(* ===== verification/Macro_Correct.thy ===== *)
theory Macro_Correct
  imports Macro_Expansion
begin

text \<open>What the registry and the expansion of macros keep.\<close>

section \<open>The registry\<close>

text \<open>
  Every macro of the registry is the one that its own arguments choose, so none is shadowed by another;
  the names of a registry are distinct and have a macro.
\<close>

definition registry_ok :: "macro_registry \<Rightarrow> bool" where
  "registry_ok reg \<longleftrightarrow> distinct (map fst reg) \<and>
     (\<forall>(name, ms)\<in>set reg. ms \<noteq> [] \<and>
        (\<forall>m\<in>set ms. mac_name m = name \<and> macro_lookup reg name (mac_args m) = Inr m))"

lemma distance_self [simp]: "distance m (mac_args m) = 0"
proof -
  have "filter (\<lambda>(p, a). incompatible p a) (zip xs xs) = []" for xs
    by (induction xs) (auto simp: incompatible_def)
  then show ?thesis by (simp add: distance_def)
qed

lemma closest_macro_snoc:
  "closest_macro args d cl ms = Inr x \<Longrightarrow> closest_macro args d cl (ms @ ms') = Inr x"
  "closest_macro args d cl ms = Inl c \<Longrightarrow> distance m args = 0 \<Longrightarrow> closest_macro args d cl (ms @ [m]) = Inr m"
  by (induction ms arbitrary: d cl) (auto simp: Let_def)

lemma closest_macro_kept:
  "closest_macro args d cl ms = Inl c \<Longrightarrow> cl \<noteq> [] \<Longrightarrow> c \<noteq> []"
proof (induction ms arbitrary: d cl)
  case (Cons m ms)
  let ?c = "if nearer (distance m args) d then (Some (distance m args), []) else (d, cl)"
  have "closest_macro args (fst ?c) (if fst ?c = Some (distance m args) then snd ?c @ [m] else snd ?c) ms = Inl c"
    using Cons.prems(1) by (simp only: closest_macro.simps Let_def split: if_splits) simp_all
  moreover have "(if fst ?c = Some (distance m args) then snd ?c @ [m] else snd ?c) \<noteq> []"
    using Cons.prems(2) by simp
  ultimately show ?case by (rule Cons.IH)
qed auto

lemma closest_macro_nonempty:
  "closest_macro args None [] ms = Inl c \<Longrightarrow> ms \<noteq> [] \<Longrightarrow> c \<noteq> []"
proof (induction ms)
  case (Cons m ms)
  then have "closest_macro args (Some (distance m args)) [m] ms = Inl c"
    by (simp add: Let_def nearer_def split: if_splits)
  then show ?case by (rule closest_macro_kept) simp
qed auto

lemma registry_ok_map:
  "registry_ok reg \<longleftrightarrow> distinct (map fst reg) \<and>
     (\<forall>name ms. map_of reg name = Some ms \<longrightarrow> ms \<noteq> [] \<and>
        (\<forall>m\<in>set ms. mac_name m = name \<and> closest_macro (mac_args m) None [] ms = Inr m))"
proof (cases "distinct (map fst reg)")
  case True
  then have "(name, ms) \<in> set reg \<longleftrightarrow> map_of reg name = Some ms" for name ms by auto
  then show ?thesis unfolding registry_ok_def macro_lookup_def using True by fastforce
qed (auto simp: registry_ok_def)

lemma lookup_none:
  assumes "registry_ok reg" "macro_lookup reg name args = Inl []"
  shows "map_of reg name = None"
proof (rule ccontr)
  assume "map_of reg name \<noteq> None"
  then obtain ms where ms: "map_of reg name = Some ms" by auto
  then have "ms \<noteq> []" using assms(1) by (auto simp: registry_ok_map)
  with closest_macro_nonempty [of args ms "[]"] assms(2) ms show False
    by (simp add: macro_lookup_def)
qed

lemma registry_insert_ok:
  assumes "registry_ok reg" "macro_lookup reg (mac_name m) (mac_args m) = Inl cl"
  shows "registry_ok (registry_insert reg m)"
proof -
  define old where "old = (case map_of reg (mac_name m) of None \<Rightarrow> [] | Some ms \<Rightarrow> ms)"
  have old: "mac_name x = mac_name m \<and> closest_macro (mac_args x) None [] old = Inr x" if "x \<in> set old" for x
  proof (cases "map_of reg (mac_name m)")
    case None
    with that show ?thesis by (simp add: old_def)
  next
    case (Some ms)
    then have "old = ms" by (simp add: old_def)
    with that Some assms(1) show ?thesis unfolding registry_ok_map by blast
  qed
  have "\<exists>c. closest_macro (mac_args m) None [] old = Inl c"
    using assms(2) by (auto simp: macro_lookup_def old_def split: option.splits)
  then have new: "closest_macro (mac_args m) None [] (old @ [m]) = Inr m"
    using closest_macro_snoc(2) by auto
  have "mac_name x = mac_name m \<and> closest_macro (mac_args x) None [] (old @ [m]) = Inr x" if "x \<in> set (old @ [m])" for x
    using old [of x] new that closest_macro_snoc(1) by (cases "x = m") auto
  moreover have "distinct (map fst (registry_insert reg m))"
    using assms(1) by (simp add: registry_insert_def registry_ok_def distinct_update)
  ultimately show ?thesis
    using assms(1) unfolding registry_ok_map registry_insert_def update_conv old_def [symmetric]
    by (metis append_is_Nil_conv fun_upd_apply not_Cons_self2 option.inject)
qed

lemma registry_create_ok:
  assumes "macro_registry_create ms [] = (reg, errs)"
  shows "registry_ok reg"
proof -
  have "registry_ok (fst (macro_registry_create ms r))" if "registry_ok r" for r
    using that by (induction ms r rule: macro_registry_create.induct)
      (auto simp: registry_insert_ok split: sum.splits option.splits prod.splits)
  from this [of "[]"] show ?thesis by (simp add: assms registry_ok_def)
qed

section \<open>Expansions without an error\<close>

definition clean :: "expansion \<Rightarrow> bool" where
  "clean s \<longleftrightarrow> macro_errs s = []"

lemma yields_error [simp]: "yields clean Q (add_error err)"
  by (auto simp: yields_def clean_def add_error_def State_Monad.update_def)

lemma yields_error_bind: "(\<And>x. keeps clean (f x)) \<Longrightarrow> yields clean Q (State_Monad.bind (add_error err) f)"
  by (rule yields_bind [where P = "\<lambda>_. False"]) auto

lemma keeps_renamed [simp]: "keeps clean (add_renamed x)"
  by (auto simp: yields_def clean_def add_renamed_def State_Monad.update_def)

lemma keeps_get [simp]: "keeps clean State_Monad.get"
  by (auto simp: yields_def)

lemma yields_new_scope: "yields clean Q m \<Longrightarrow> yields clean Q (new_scope m)"
  by (fastforce simp: yields_def new_scope_def clean_def split: prod.splits)

lemma keeps_variable [simp]: "keeps clean (visit_variable ex v)"
  by (auto simp: visit_variable_def intro!: keeps_bind split: option.splits)

lemma keeps_map [simp]: "keeps clean (visit_map ex m)"
  by (auto simp: visit_map_def intro!: keeps_bind split: option.splits)

lemma yields_lookup_errors:
  "yields clean (\<lambda>_. lookup_errors name args closest = [])
     (State_Monad.update (\<lambda>s. s\<lparr>macro_errs := macro_errs s @ lookup_errors name args closest\<rparr>))"
  by (auto simp: yields_def clean_def State_Monad.update_def)

lemma lookup_errors_Nil: "lookup_errors name args closest = [] \<longleftrightarrow> closest = []"
  by (simp add: lookup_errors_def Let_def split: list.splits)

interpretation any: visit_yields I "ex_hooks ex" Q QM QV for I ex Q QM QV
  by unfold_locales (simp add: ex_hooks_def)

lemma ex_hooks_sel [simp]: "on_map (ex_hooks ex) = visit_map ex" "on_var (ex_hooks ex) = visit_variable ex"
  by (simp_all add: ex_hooks_def)

section \<open>Nothing is left to expand\<close>

text \<open>
  The children that the expander visits in a script, where the type in a declaration is not visited.
\<close>

fun visited_children :: "node \<Rightarrow> node list" where
  "visited_children (NS (VarDeclStatement v te)) = []"
| "visited_children (NS (AssignVarStatement decl v te e)) = [NE e]"
| "visited_children n = children n"

lemma visited_children_subset: "set (visited_children n) \<subseteq> set (children n)"
  by (cases n rule: visited_children.cases) auto

fun expandable :: "macro_registry \<Rightarrow> node \<Rightarrow> bool" where
  "expandable reg (NE e) =
     (case as_identifier e of
        Some x \<Rightarrow> map_of reg x \<noteq> None
      | None \<Rightarrow> (case as_call e of Some (f, args) \<Rightarrow> map_of reg f \<noteq> None | None \<Rightarrow> False))"
| "expandable reg (NS s) = False"

function expanded :: "macro_registry \<Rightarrow> node \<Rightarrow> bool" where
  "expanded reg n \<longleftrightarrow> \<not> expandable reg n \<and> (\<forall>c\<in>set (visited_children n). expanded reg c)"
  by auto
termination
  by (relation "measure (\<lambda>(reg, n). node_depth n)") (use visited_children_subset depth_children in auto)

declare expanded.simps [simp del]

definition passes_expanded :: "macro_registry \<Rightarrow> expander \<Rightarrow> bool" where
  "passes_expanded reg ex \<longleftrightarrow> (\<forall>p\<in>ran (ex_passed ex). expanded reg (NE p))"

lemma passed_expander_expanded [simp]: "passes_expanded reg (passed_expander ex)"
  by (simp add: passes_expanded_def passed_expander_def top_expander_def)

lemma call_expander_induct:
  assumes "P (top_expander\<lparr>ex_stack := ex_stack ex @ [m]\<rparr>)"
    "\<And>p a x. a \<in> set args \<Longrightarrow> P x \<Longrightarrow> P (pass_arg (p, a) x)"
  shows "P (call_expander ex m args)"
proof -
  have "P (fold pass_arg ps x)" if "P x" "snd ` set ps \<subseteq> set args" for ps x
    using that by (induction ps arbitrary: x) (auto simp: assms(2))
  moreover have "snd ` set (zip (mac_args m) args) \<subseteq> set args"
    by (auto dest: set_zip_rightD)
  ultimately show ?thesis using assms(1) by (simp add: call_expander_def)
qed

lemma call_expander_expanded:
  assumes "\<forall>a\<in>set args. expanded reg (NE a)"
  shows "passes_expanded reg (call_expander ex m args)"
proof (rule call_expander_induct)
  show "passes_expanded reg (top_expander\<lparr>ex_stack := ex_stack ex @ [m]\<rparr>)"
    by (simp add: passes_expanded_def top_expander_def)
  fix p a x assume "a \<in> set args" "passes_expanded reg x"
  moreover from this assms have "expanded reg (NE (BlockExpr [] a))"
    by (subst expanded.simps) (simp add: block_children_def)
  ultimately show "passes_expanded reg (pass_arg (p, a) x)"
    using assms by (cases "((p, a), x)" rule: pass_arg.cases) (auto simp: passes_expanded_def ran_def)
qed

text \<open>The identifier or the call that is looked up, with its arguments.\<close>

definition call_site :: "expression \<Rightarrow> string \<Rightarrow> expression list \<Rightarrow> bool" where
  "call_site e name args \<longleftrightarrow>
     as_identifier e = Some name \<and> args = [] \<or> as_call e = Some (name, args)"

lemma call_site_children: "call_site e name args \<Longrightarrow> expr_children e = map NE args"
  by (cases e) (auto simp: call_site_def)

lemma call_site_expandable: "call_site e name args \<Longrightarrow> expandable reg (NE e) \<longleftrightarrow> map_of reg name \<noteq> None"
  by (cases e) (auto simp: call_site_def)

lemma call_site_with_args: "as_call e = Some (f, args) \<Longrightarrow> call_site (with_args e args') f args'"
  by (cases e) (auto simp: call_site_def)

lemma expanded_block:
  "expanded reg (NE (BlockExpr ss b)) \<longleftrightarrow> (\<forall>s\<in>set ss. expanded reg (NS s)) \<and> expanded reg (NE b)"
  by (subst expanded.simps) (auto simp: block_children_def)

text \<open>The variable that an assignment is to, with the type it is declared with.\<close>

definition expand_target ::
  "macro_registry \<Rightarrow> expander \<Rightarrow> bool \<Rightarrow> variable \<Rightarrow> type_or_expr option \<Rightarrow> (expansion, variable \<times> type_or_expr option) state" where
  "expand_target reg ex decl v te =
     (if \<not> rename_ok ex then State_Monad.return (v, te)
      else
        do { (if ex_vars ex (v_ident v) = None then add_renamed (v_ident v) else State_Monad.return ());
             (if decl then expand_decl reg ex v te
              else do { v \<leftarrow> visit_variable ex v; State_Monad.return (v, None) }) })"

lemma expand_assign:
  "expand_stmt reg ex (AssignVarStatement decl v te e) =
     do { d \<leftarrow> expand_target reg ex decl v te; e \<leftarrow> expand_expr reg ex e;
          State_Monad.return (AssignVarStatement decl (fst d) (snd d) e) }"
  by (simp add: expand_stmt.simps expand_target_def)

lemma expand_var_decl:
  "expand_stmt reg ex (VarDeclStatement v te) =
     do { d \<leftarrow> expand_decl reg ex v te; State_Monad.return (VarDeclStatement (fst d) (snd d)) }"
  by (simp add: expand_stmt.simps)

lemma expand_other:
  "as_assign_var s = None \<Longrightarrow> as_var_decl s = None \<Longrightarrow>
     expand_stmt reg ex s = stmt_visit (ex_hooks ex) (expand_expr reg ex) (expand_stmt reg ex) s"
  by (simp add: expand_stmt.simps)

lemma ot_children_NE: "NE x \<in> set (ot_children r) \<longleftrightarrow> (\<exists>te. r = Some te \<and> NE x \<in> set (te_children te))"
  by (cases r) (auto simp: ot_children_def)

lemma yields_kind:
  assumes "yields I Q (expr_visit h f g e)"
  shows "yields I (\<lambda>e'. Q e' \<and> as_identifier e' = as_identifier e \<and> (as_call e' = None \<longleftrightarrow> as_call e = None) \<and>
    (as_map e' = None \<longleftrightarrow> as_map e = None) \<and> (as_variable e' = None \<longleftrightarrow> as_variable e = None)) (expr_visit h f g e)"
  using assms expr_visit_kind [of h f g e] unfolding yields_def by (metis map_option_is_None)

text \<open>What the expansion keeps, if it is kept by an error, by a renaming and by a new expander.\<close>

lemma expand_keeps_if:
  assumes err: "\<And>f. keeps I (State_Monad.update (\<lambda>s. s\<lparr>macro_errs := macro_errs s @ f\<rparr>))"
    and ren: "\<And>x. keeps I (add_renamed x)"
    and scope: "\<And>m :: (expansion, expression) state. keeps I m \<Longrightarrow> keeps I (new_scope m)"
  shows "keeps I (expand_expr reg ex e)" "keeps I (expand_decl reg ex v te)"
    "keeps I (expand_stmt reg ex s)" "keeps I (expand_call reg ex e name args)"
proof -
  have add [simp]: "keeps I (add_error x)" for x using err [of "[x]"] by (simp add: add_error_def)
  have [simp]: "keeps I State_Monad.get" by (auto simp: yields_def)
  have var [simp]: "keeps I (visit_variable ex v)" for ex v
    by (auto simp: visit_variable_def intro!: keeps_bind split: option.splits)
  have map [simp]: "keeps I (visit_map ex m)" for ex m
    by (auto simp: visit_map_def intro!: keeps_bind split: option.splits)
  show "keeps I (expand_expr reg ex e)" "keeps I (expand_decl reg ex v te)"
    "keeps I (expand_stmt reg ex s)" "keeps I (expand_call reg ex e name args)"
  proof (induction reg ex e and reg ex v te and reg ex s and reg ex e name args
    rule: expand_expr_expand_decl_expand_stmt_expand_call.induct)
  case (1 reg ex e)
  have "keeps I (expr_visit (ex_hooks ex) (expand_expr reg ex) (expand_stmt reg ex) e)"
    if "as_identifier e = None" "as_call e = None"
    using that 1 by (intro yields_keeps [OF any.yields_expr [where Q = "\<lambda>_. True" and QM = "\<lambda>_. True" and QV = "\<lambda>_. True"]]) auto
  with 1 show ?case
    by (auto simp: expand_expr.simps [of reg ex e] intro!: scope keeps_bind keeps_traverse split: option.splits)
next
  case (2 reg ex v te)
  then have "keeps I (option_visit (typeof_visit (ex_hooks ex) (expand_expr reg ex)) te)"
    if "rename_ok ex" "ex_vars ex (v_ident v) = None"
    using that by (intro yields_keeps [OF any.yields_ot [where Q = "\<lambda>_. True"]]) (auto simp: ot_children_NE)
  then show ?case by (auto simp: expand_decl.simps intro!: keeps_bind ren)
next
  case (3 reg ex s)
  show ?case
  proof (cases "as_assign_var s")
    case (Some a)
    obtain d v te e where "a = (d, v, te, e)" using prod_cases4 by blast
    with Some have s: "s = AssignVarStatement d v te e" by (simp add: as_assign_var_eq)
    have e: "keeps I (expand_expr reg ex e)" using 3 s by (cases "rename_ok ex") auto
    have "keeps I (expand_target reg ex d v te)"
      using 3 s by (auto simp: expand_target_def intro!: keeps_bind ren)
    with e show ?thesis by (auto simp: s expand_assign intro!: keeps_bind ren)
  next
    case assign: None
    show ?thesis
    proof (cases "as_var_decl s")
      case (Some a)
      then obtain v te where "a = (v, te)" "s = VarDeclStatement v te"
        by (cases a) (simp add: as_var_decl_eq)
      with assign 3 show ?thesis by (auto simp: expand_var_decl intro!: keeps_bind ren)
    next
      case None
      with assign have "keeps I (stmt_visit (ex_hooks ex) (expand_expr reg ex) (expand_stmt reg ex) s)"
        using 3 by (intro yields_keeps [OF any.yields_stmt [where Q = "\<lambda>_. True" and QM = "\<lambda>_. True" and QV = "\<lambda>_. True"]]) auto
      with assign None show ?thesis by (simp add: expand_other)
    qed
  qed
next
  case (4 reg ex e name args)
  then show ?case
    by (auto simp: expand_call.simps intro!: scope keeps_bind keeps_traverse
        err split: sum.splits)
qed
qed

lemma expand_keeps:
  "keeps clean (expand_expr reg ex e)" "keeps clean (expand_decl reg ex v te)"
  "keeps clean (expand_stmt reg ex s)" "keeps clean (expand_call reg ex e name args)"
proof -
  have [simp]: "keeps clean (State_Monad.update (\<lambda>s. s\<lparr>macro_errs := macro_errs s @ f\<rparr>))" for f
    by (auto simp: yields_def clean_def State_Monad.update_def)
  show "keeps clean (expand_expr reg ex e)" "keeps clean (expand_decl reg ex v te)"
    "keeps clean (expand_stmt reg ex s)" "keeps clean (expand_call reg ex e name args)"
    by (rule expand_keeps_if; simp add: yields_new_scope)+
qed

lemma expand_expanded:
  assumes "registry_ok reg"
  shows "passes_expanded reg ex \<Longrightarrow> yields clean (\<lambda>e. expanded reg (NE e)) (expand_expr reg ex e)"
    "passes_expanded reg ex \<Longrightarrow> yields clean (\<lambda>p. True) (expand_decl reg ex v te)"
    "passes_expanded reg ex \<Longrightarrow> yields clean (\<lambda>s. expanded reg (NS s)) (expand_stmt reg ex s)"
    "call_site e name args \<Longrightarrow> \<forall>a\<in>set args. expanded reg (NE a) \<Longrightarrow>
       yields clean (\<lambda>e. expanded reg (NE e)) (expand_call reg ex e name args)"
  using assms
proof (induction reg ex e and reg ex v te and reg ex s and reg ex e name args
    rule: expand_expr_expand_decl_expand_stmt_expand_call.induct)
  case (1 reg ex e)
  show ?case
  proof (cases "as_identifier e")
    case (Some x)
    then show ?thesis
      using 1 by (auto simp: expand_expr.simps [of reg ex e] call_site_def yields_new_scope split: option.splits)
  next
    case ident: None
    show ?thesis
    proof (cases "as_call e")
      case (Some fa)
      obtain f args where fa: "fa = (f, args)" by force
      with ident Some 1 have "yields clean (\<lambda>as. \<forall>a\<in>set as. expanded reg (NE a)) (State_Monad.traverse_list (expand_expr reg ex) args)"
        by (intro yields_traverse) auto
      then show ?thesis using 1(5-) ident Some fa call_site_with_args [of e f args]
        by (auto simp: expand_expr.simps [of reg ex e] expand_keeps intro!: yields_bind 1(4))
    next
      case None
      have "yields clean (\<lambda>e'. all_good (expanded reg) (\<lambda>_. True) (\<lambda>_. True) (expr_children e') (expr_maps e') (expr_vars e'))
          (expr_visit (ex_hooks ex) (expand_expr reg ex) (expand_stmt reg ex) e)"
        using ident None 1 by (intro any.yields_expr) auto
      from yields_kind [OF this] ident None show ?thesis
        by (simp add: expand_expr.simps [of reg ex e])
          (rule yields_mono, assumption, subst expanded.simps, simp)
    qed
  qed
next
  case (2 reg ex v te)
  show ?case by (rule expand_keeps)
next
  case (3 reg ex s)
  have assign: "expanded reg (NS (AssignVarStatement d v te e))" if "expanded reg (NE e)" for d v te e
    using that by (subst expanded.simps) simp
  show ?case
  proof (cases "as_assign_var s")
    case (Some a)
    obtain d v te e where "a = (d, v, te, e)" using prod_cases4 by blast
    with Some have s: "s = AssignVarStatement d v te e" by (simp add: as_assign_var_eq)
    have e: "yields clean (\<lambda>e. expanded reg (NE e)) (expand_expr reg ex e)"
      using 3 s by (cases "rename_ok ex") auto
    have t: "keeps clean (expand_target reg ex d v te)"
      by (auto simp: expand_target_def expand_keeps intro!: keeps_bind)
    show ?thesis unfolding s expand_assign
      by (intro yields_bind [OF t] yields_bind [OF e] keeps_bind yields_return assign yields_keeps [OF e]) simp_all
  next
    case assign: None
    show ?thesis
    proof (cases "as_var_decl s")
      case (Some a)
      then obtain v te where s: "s = VarDeclStatement v te" by (cases a) (simp add: as_var_decl_eq)
      have "expanded reg (NS (VarDeclStatement v te))" for v te by (subst expanded.simps) simp
      then show ?thesis by (auto simp: s expand_var_decl expand_keeps intro!: yields_bind [OF expand_keeps(2)])
    next
      case None
      have "yields clean (\<lambda>s'. all_good (expanded reg) (\<lambda>_. True) (\<lambda>_. True) (stmt_children s') (stmt_maps s') (stmt_vars s'))
          (stmt_visit (ex_hooks ex) (expand_expr reg ex) (expand_stmt reg ex) s)"
        using assign None 3 by (intro any.yields_stmt) auto
      then show ?thesis
        using assign None visited_children_subset [of "NS _"]
        by (simp add: expand_other) (rule yields_mono, assumption, subst expanded.simps, auto)
    qed
  qed
next
  case (4 reg ex e name args)
  show ?case
  proof (cases "macro_lookup reg name args")
    case (Inl closest)
    have "expanded reg (NE e)" if "closest = []"
      using lookup_none [of reg name args] 4 Inl that
      by (subst expanded.simps) (auto simp: call_site_expandable call_site_children simp del: expandable.simps)
    then show ?thesis using Inl
      by (auto simp: expand_call.simps lookup_errors_Nil intro!: yields_bind [OF yields_lookup_errors])
  next
    case (Inr m)
    note ok = call_expander_expanded [OF 4(4), of ex m]
    have "yields clean (\<lambda>ss. \<forall>s\<in>set ss. expanded reg (NS s))
        (State_Monad.traverse_list (expand_stmt reg (call_expander ex m args)) (mac_stmts m))"
      if "\<not> List.member (ex_stack ex) m"
      using 4 Inr that ok by (intro yields_traverse) auto
    moreover have "yields clean (\<lambda>e. expanded reg (NE e)) (expand_expr reg (call_expander ex m args) (mac_value m))"
      if "\<not> List.member (ex_stack ex) m"
      using 4 Inr that ok by auto
    ultimately show ?thesis using Inr
      by (auto simp: expand_call.simps expanded_block expand_keeps
          intro!: yields_new_scope yields_error_bind keeps_bind intro: yields_bind elim!: yields_bind)
  qed
qed

section \<open>Hygiene\<close>

text \<open>
  The names that a tree can write to: its maps, the variables it assigns or declares, and the variables
  it passes to a call, which may be a macro that assigns them. The variable of a \<open>for\<close> is not one of
  them.
\<close>

datatype name = MapN string | VarN string

fun bare_args :: "node \<Rightarrow> name list" where
  "bare_args (NE e) =
     (case as_call e of Some (f, args) \<Rightarrow> map (\<lambda>v. VarN (v_ident v)) (List.map_filter as_variable args) | None \<Rightarrow> [])"
| "bare_args (NS s) = []"

fun stmt_targets :: "statement \<Rightarrow> name list" where
  "stmt_targets (AssignVarStatement decl v te e) = [VarN (v_ident v)]"
| "stmt_targets (VarDeclStatement v te) = [VarN (v_ident v)]"
| "stmt_targets s = []"

fun own_names :: "node \<Rightarrow> name list" where
  "own_names (NE e) = map (\<lambda>m. MapN (m_ident m)) (expr_maps e) @ bare_args (NE e)"
| "own_names (NS s) = map (\<lambda>m. MapN (m_ident m)) (stmt_maps s) @ stmt_targets s"

definition mentions :: "(node \<Rightarrow> name list) \<Rightarrow> node \<Rightarrow> name set" where
  "mentions own n = (\<Union>x\<in>set (subnodes n). set (own x))"




text \<open>What an expander may write, and what a node may be that it visits.\<close>

definition writes :: "name set \<Rightarrow> expander \<Rightarrow> bool" where
  "writes S ex \<longleftrightarrow> (\<forall>y\<in>ran (ex_maps ex). MapN y \<in> S) \<and> (\<forall>y\<in>ran (ex_vars ex). VarN y \<in> S) \<and>
     (\<forall>p\<in>ran (ex_passed ex). mentions own_names (NE p) \<subseteq> S \<and> as_variable p = None)"



lemma writes_passed [simp]: "writes S (passed_expander ex)"
  by (simp add: writes_def passed_expander_def top_expander_def)

lemma passed_not_renamed [simp]: "\<not> rename_ok (passed_expander ex)"
  by (simp add: rename_ok_def passed_expander_def)

lemma call_renames [simp]: "rename_ok (call_expander ex m args)"
proof -
  have "ex_rename (pass_arg (p, a) x) = ex_rename x" for p a x
    by (cases "((p, a), x)" rule: pass_arg.cases) auto
  then have "ex_rename (call_expander ex m args)"
    by (intro call_expander_induct [where P = ex_rename]) (simp_all add: top_expander_def)
  then show ?thesis by (simp add: rename_ok_def)
qed





















section \<open>The pass on a program\<close>


definition probe_block :: "probe_node \<Rightarrow> node" where
  "probe_block p = NE (BlockExpr (pr_stmts p) (pr_value p))"



text \<open>What holds of every probe that \<open>expand_probe\<close> yields holds in the program the pass leaves.\<close>

lemma expansion_probes:
  assumes "macro_expansion macros fs ps = ((fs', ps'), [])"
    "\<And>reg p. macro_registry_create macros [] = (reg, []) \<Longrightarrow> p \<in> set ps \<Longrightarrow> yields clean (P reg p) (expand_probe reg p)"
  shows "\<exists>reg. macro_registry_create macros [] = (reg, []) \<and> list_all2 (P reg) ps ps'"
proof -
  obtain reg errs where reg: "macro_registry_create macros [] = (reg, errs)" by force
  with assms(1) have "errs = []" by (auto simp: macro_expansion_def split: if_splits)
  let ?m = "program_visit (ex_hooks top_expander) (expand_expr reg top_expander) (expand_stmt reg top_expander) (fs, ps)"
  have "yields clean (\<lambda>r. list_all2 (P reg) (snd (fs, ps)) (snd r)) ?m"
    using assms(2) reg \<open>errs = []\<close>
    by (intro yields_program) (simp_all add: expand_keeps expand_probe_def ex_hooks_def)
  moreover obtain s' where "run_state ?m \<lparr>renamed_vars = [], macro_errs = []\<rparr> = ((fs', ps'), s')" "clean s'"
    using assms(1) reg \<open>errs = []\<close> by (auto simp: macro_expansion_def clean_def split: prod.splits)
  ultimately show ?thesis using reg \<open>errs = []\<close> by (force dest: yieldsD)
qed

text \<open>C26: After an expansion without an error nothing in a probe names a macro any more: every call and
  every identifier that names one has been replaced, at any depth of nested macros. (The type in a
  declaration of the script is not visited.)
\<close>

theorem expansion_complete:
  assumes "macro_expansion macros fs ps = ((fs', ps'), [])"
  shows "\<exists>reg. macro_registry_create macros [] = (reg, []) \<and> list_all (\<lambda>p. expanded reg (probe_block p)) ps'"
proof -
  have "\<exists>reg. macro_registry_create macros [] = (reg, []) \<and> list_all2 (\<lambda>p p'. expanded reg (probe_block p')) ps ps'"
  proof (rule expansion_probes [OF assms])
    fix reg p assume "macro_registry_create macros [] = (reg, [])"
    then have ok: "registry_ok reg"
      by (rule registry_create_ok)
    have top: "passes_expanded reg top_expander" by (simp add: passes_expanded_def top_expander_def)
    show "yields clean (\<lambda>p'. expanded reg (probe_block p')) (expand_probe reg p)"
      unfolding expand_probe_def probe_visit_def
      by (rule yields_bind [OF yields_traverse [OF expand_expanded(3) [OF ok top]]], simp add: keeps_bind expand_keeps)
        (rule yields_bind [OF expand_expanded(1) [OF ok top]], auto simp: probe_block_def expanded_block)
  qed
  then show ?thesis by (auto simp: list_all2_conv_all_nth list_all_length)
qed


text \<open>Every macro of a registry the pass creates is found by a call with its own name and arguments.\<close>

theorem registry_reachable:
  assumes "macro_registry_create ms [] = (reg, errs)" "m \<in> all_macros reg"
  shows "macro_lookup reg (mac_name m) (mac_args m) = Inr m"
  using registry_create_ok [OF assms(1)] assms(2) by (fastforce simp: registry_ok_def all_macros_def)

section \<open>Examples\<close>

text \<open>The equations of the expander on a state, which evaluate without unfolding what is not reached.\<close>

lemmas run_expand =
  arg_cong [OF expand_expr.simps, of "\<lambda>m. run_state m s" for s]
  arg_cong [OF expand_decl.simps, of "\<lambda>m. run_state m s" for s]
  arg_cong [OF expand_stmt.simps, of "\<lambda>m. run_state m s" for s]
  arg_cong [OF expand_call.simps, of "\<lambda>m. run_state m s" for s]

lemmas eval_macro = run_expand macro_expansion_def macro_lookup_def distance_def incompatible_def nearer_def
  registry_insert_def expand_probe_def program_visit_def probe_visit_def new_scope_def add_error_def add_renamed_def State_Monad.update_def
  visit_variable_def visit_map_def typeof_visit_def ex_hooks_def call_expander_def top_expander_def
  passed_expander_def rename_ok_def get_new_var_ident_def

abbreviation var :: "string \<Rightarrow> variable" where
  "var x \<equiv> \<lparr>v_ident = x, v_type = create_none\<rparr>"

abbreviation call :: "string \<Rightarrow> expression list \<Rightarrow> expression" where
  "call f args \<equiv> Call f args create_none 0 False"

lemma show_2 [simp]: "show_nat (Suc (Suc 0)) = ''2''"
  by code_simp

definition inc_macro :: macro where
  "inc_macro = \<lparr>mac_name = ''inc'', mac_args = [VariableE (var ''$x''), Identifier ''by'' create_none],
     mac_stmts = [AssignVarStatement False (var ''$t'') None (Binop (VariableE (var ''$x'')) Op_PLUS (Identifier ''by'' create_none) create_none),
       AssignVarStatement False (var ''$x'') None (VariableE (var ''$t''))], mac_value = NoneE\<rparr>"

definition inc_probe :: probe_node where
  "inc_probe = \<lparr>pr_attach_points = [], pr_stmts = [ExprStatement (call ''inc'' [VariableE (var ''$n''), Boolean True])], pr_value = NoneE\<rparr>"

definition inc_expanded :: probe_node where
  "inc_expanded = \<lparr>pr_attach_points = [], pr_stmts = [ExprStatement (BlockExpr
     [AssignVarStatement False (var ''$$inc_$t'') None (Binop (VariableE (var ''$n'')) Op_PLUS (Boolean True) create_none),
      AssignVarStatement False (var ''$n'') None (VariableE (var ''$$inc_$t''))] NoneE)], pr_value = NoneE\<rparr>"

lemma inc_expansion: "macro_expansion [inc_macro] [] [inc_probe] = (([], [inc_expanded]), [])"
  by (simp add: eval_macro inc_macro_def inc_probe_def inc_expanded_def)

theorem expansion_complete_witness:
  "\<exists>reg. macro_registry_create [inc_macro] [] = (reg, []) \<and> list_all (\<lambda>p. expanded reg (probe_block p)) [inc_expanded]"
  using expansion_complete [OF inc_expansion] .


theorem registry_reachable_witness:
  "macro_lookup [(''inc'', [inc_macro])] ''inc'' (mac_args inc_macro) = Inr inc_macro"
proof -
  have "macro_registry_create [inc_macro] [] = ([(''inc'', [inc_macro])], [])"
    by (simp add: eval_macro inc_macro_def)
  from registry_reachable [OF this, of inc_macro] show ?thesis
    by (simp add: all_macros_def) (simp add: inc_macro_def)
qed

text \<open>
  A variable that a macro uses and does not assign is not renamed: this macro passes \<open>$n\<close> of the script
  to a macro that assigns it.
\<close>

definition clobber_macro :: macro where
  "clobber_macro = \<lparr>mac_name = ''clobber'', mac_args = [],
     mac_stmts = [ExprStatement (call ''inc'' [VariableE (var ''$n''), Boolean True])], mac_value = NoneE\<rparr>"

lemma macro_assigns_outer_variable:
  "macro_expansion [inc_macro, clobber_macro] []
     [\<lparr>pr_attach_points = [], pr_stmts = [ExprStatement (call ''clobber'' [])], pr_value = NoneE\<rparr>] =
   (([], [\<lparr>pr_attach_points = [], pr_stmts = [ExprStatement (BlockExpr [ExprStatement (BlockExpr
      [AssignVarStatement False (var ''$$inc_2_$t'') None (Binop (VariableE (var ''$n'')) Op_PLUS (Boolean True) create_none),
       AssignVarStatement False (var ''$n'') None (VariableE (var ''$$inc_2_$t''))] NoneE)] NoneE)], pr_value = NoneE\<rparr>]), [])"
  by (simp add: eval_macro inc_macro_def clobber_macro_def)

text \<open>The variable of a loop in a macro is not renamed, so it captures one in an expression that is passed in.\<close>

lemma loop_captures_argument:
  "macro_expansion
     [\<lparr>mac_name = ''twice'', mac_args = [Identifier ''e'' create_none],
       mac_stmts = [For (var ''$i'') (It_range (Boolean False) (Boolean True)) [ExprStatement (Identifier ''e'' create_none)] NoneE create_none],
       mac_value = NoneE\<rparr>] []
     [\<lparr>pr_attach_points = [], pr_stmts = [ExprStatement (call ''twice'' [VariableE (var ''$i'')])], pr_value = NoneE\<rparr>] =
   (([], [\<lparr>pr_attach_points = [], pr_stmts = [ExprStatement (BlockExpr
      [For (var ''$i'') (It_range (Boolean False) (Boolean True)) [ExprStatement (BlockExpr [] (VariableE (var ''$i'')))] NoneE create_none] NoneE)],
      pr_value = NoneE\<rparr>]), [])"
  by (simp add: eval_macro inc_macro_def clobber_macro_def)

text \<open>A macro in the type of a declaration of the script is left as it is.\<close>

lemma declared_type_not_expanded:
  "macro_expansion
     [\<lparr>mac_name = ''one'', mac_args = [], mac_stmts = [], mac_value = Boolean True\<rparr>] []
     [\<lparr>pr_attach_points = [], pr_stmts = [VarDeclStatement (var ''$i'') (Some (TE_expr (call ''one'' [])))], pr_value = NoneE\<rparr>] =
   (([], [\<lparr>pr_attach_points = [], pr_stmts = [VarDeclStatement (var ''$i'') (Some (TE_expr (call ''one'' [])))], pr_value = NoneE\<rparr>]), [])"
  by (simp add: eval_macro inc_macro_def clobber_macro_def)

end
