(* ===== verification/Map_Sugar.thy ===== *)
theory Map_Sugar
  imports AST_State
begin

text \<open>
  \<open>src/ast/passes/map_sugar.cpp\<close>: the five visitors of the pass. \<open>delete(@m[k])\<close> becomes \<open>delete(@m, k)\<close>,
  a map that is used without a key gets the key 0, a call such as \<open>count()\<close> that is assigned to a map
  gets the map and the key as arguments, and \<open>is_scalar(@m)\<close> is computed.
\<close>

section \<open>Names of functions\<close>

definition assign_rewrite :: "string list" where
  "assign_rewrite = [''hist'', ''lhist'', ''count'', ''sum'', ''min'', ''max'', ''avg'', ''stats'', ''tseries'']"

definition raw_map_arg :: "string list" where
  "raw_map_arg = [''print'', ''clear'', ''zero'', ''len'', ''delete'', ''is_scalar'', ''has_key'']"

section \<open>Aliases\<close>

text \<open>\<open>MapFunctionAliases\<close>. The arguments of a call are not visited.\<close>

definition alias_call :: "expression \<Rightarrow> expression" where
  "alias_call e =
     (case e of
        Call fn args t nj disc \<Rightarrow>
          (if fn = ''delete'' \<and> length args = 1 then
             (case hd args of
                MapAccess m k \<Rightarrow> Call fn [MapE m, k] t (nj + 1) disc
              | _ \<Rightarrow> e)
           else e)
      | _ \<Rightarrow> e)"

function alias_expr :: "expression \<Rightarrow> expression" and alias_stmt :: "statement \<Rightarrow> statement" where
  "alias_expr e = (if as_call e \<noteq> None then alias_call e else expr_map alias_expr alias_stmt e)"
| "alias_stmt s = stmt_map alias_expr alias_stmt s"
  by pat_completeness auto

termination
  by (relation "measure (\<lambda>p. case p of Inl e \<Rightarrow> depth e | Inr s \<Rightarrow> depth_st s)")
    (auto dest!: expr_child_depth stmt_child_depth)

declare alias_expr.simps [simp del] alias_stmt.simps [simp del]

section \<open>Default keys\<close>

text \<open>
  \<open>MapMetadata\<close>: whether a map is used as a scalar, as its first use says, and the names of the maps
  with a use that says otherwise; and the errors.
\<close>

record map_metadata =
  md_scalar :: "(string \<times> bool) list"
  bad_scalar_access :: "string list"
  bad_indexed_access :: "string list"
  bad_scalar_call :: "string list"
  bad_indexed_call :: "string list"
  bad_iterator :: "string list"
  md_errs :: "string list"

definition no_metadata :: map_metadata where
  "no_metadata = \<lparr>md_scalar = [], bad_scalar_access = [], bad_indexed_access = [], bad_scalar_call = [],
     bad_indexed_call = [], bad_iterator = [], md_errs = []\<rparr>"

definition check_map :: "map_node \<Rightarrow> bool \<Rightarrow> (map_metadata, bool) state" where
  "check_map m indexed =
     do { s \<leftarrow> State_Monad.get;
          (case map_of (md_scalar s) (m_ident m) of
             None \<Rightarrow>
               do { State_Monad.set (s\<lparr>md_scalar := (m_ident m, \<not> indexed) # md_scalar s\<rparr>);
                    State_Monad.return True }
           | Some val \<Rightarrow> State_Monad.return (val = (\<not> indexed))) }"

definition check_access :: "map_node \<Rightarrow> bool \<Rightarrow> (map_metadata, unit) state" where
  "check_access m indexed =
     do { ok \<leftarrow> check_map m indexed;
          (if ok then State_Monad.return ()
           else State_Monad.update (\<lambda>s.
             if indexed then s\<lparr>bad_scalar_access := List.insert (m_ident m) (bad_scalar_access s)\<rparr>
             else s\<lparr>bad_indexed_access := List.insert (m_ident m) (bad_indexed_access s)\<rparr>)) }"

definition check_call :: "map_node \<Rightarrow> bool \<Rightarrow> (map_metadata, unit) state" where
  "check_call m indexed =
     do { ok \<leftarrow> check_map m indexed;
          (if ok then State_Monad.return ()
           else State_Monad.update (\<lambda>s.
             if indexed then s\<lparr>bad_scalar_call := List.insert (m_ident m) (bad_scalar_call s)\<rparr>
             else s\<lparr>bad_indexed_call := List.insert (m_ident m) (bad_indexed_call s)\<rparr>)) }"

definition check_iterator :: "map_node \<Rightarrow> (map_metadata, unit) state" where
  "check_iterator m =
     do { ok \<leftarrow> check_map m True;
          (if ok then State_Monad.return ()
           else State_Monad.update (\<lambda>s. s\<lparr>bad_iterator := List.insert (m_ident m) (bad_iterator s)\<rparr>)) }"

definition md_error :: "string \<Rightarrow> (map_metadata, unit) state" where
  "md_error msg = State_Monad.update (\<lambda>s. s\<lparr>md_errs := md_errs s @ [msg]\<rparr>)"

text \<open>A \<open>Typeof\<close> of a map that is known to have keys is left alone.\<close>

definition typeof_through :: "type_or_expr \<Rightarrow> (map_metadata, bool) state" where
  "typeof_through te =
     (case te of
        TE_type t \<Rightarrow> State_Monad.return True
      | TE_expr e \<Rightarrow>
          (case as_map e of
             None \<Rightarrow> State_Monad.return True
           | Some m \<Rightarrow>
               do { s \<leftarrow> State_Monad.get;
                    State_Monad.return (map_of (md_scalar s) (m_ident m) \<noteq> Some False) }))"

definition default_hooks :: "map_metadata hooks" where
  "default_hooks =
     \<lparr>on_map = (\<lambda>m. do { check_access m False; State_Monad.return m }), on_var = State_Monad.return,
      on_typeof = typeof_through\<rparr>"

definition default_index :: expression where
  "default_index = new_integer 0"

definition int64_index :: expression where
  "int64_index = Integer 0 (int_type 64 True)"

text \<open>What a call does with its first argument, a map: its arguments after that.\<close>

definition check_raw_call :: "string \<Rightarrow> map_node \<Rightarrow> expression list \<Rightarrow> (map_metadata, expression list) state" where
  "check_raw_call fn m args =
     (if fn = ''delete'' then
        (if length args = 1 then do { check_call m False; State_Monad.return (args @ [default_index]) }
         else if length args = 2 then do { check_call m True; State_Monad.return args }
         else
           do { md_error (''delete() requires 1 or 2 arguments ('' @ show_nat (length args) @ '' provided)'');
                State_Monad.return args })
      else if fn = ''has_key'' \<or> fn = ''len'' then do { check_call m True; State_Monad.return args }
      else if fn = ''is_scalar'' \<and> length args \<noteq> 1 then
        do { md_error (''is_scalar() requires 1 argument ('' @ show_nat (length args) @ '' provided)'');
             State_Monad.return args }
      else State_Monad.return args)"

definition desugar_map :: "expression \<Rightarrow> expression" where
  "desugar_map e = (case as_map e of Some m \<Rightarrow> MapAccess m default_index | None \<Rightarrow> e)"

fun desugar_assign :: "statement \<Rightarrow> statement" where
  "desugar_assign (AssignScalarMapStatement m e) = AssignMapStatement m int64_index e"
| "desugar_assign s = s"

text \<open>Views of the statements and the expressions that \<open>MapDefaultKey\<close> visits in its own way.\<close>

fun as_map_access :: "expression \<Rightarrow> (map_node \<times> expression) option" where
  "as_map_access (MapAccess m k) = Some (m, k)"
| "as_map_access e = None"

fun is_map_addr :: "expression \<Rightarrow> bool" where
  "is_map_addr (MapAddr m) = True"
| "is_map_addr e = False"

fun as_scalar_assign :: "statement \<Rightarrow> (map_node \<times> expression) option" where
  "as_scalar_assign (AssignScalarMapStatement m e) = Some (m, e)"
| "as_scalar_assign s = None"

fun as_map_assign :: "statement \<Rightarrow> (map_node \<times> expression \<times> expression) option" where
  "as_map_assign (AssignMapStatement m k e) = Some (m, k, e)"
| "as_map_assign s = None"

fun as_map_loop :: "statement \<Rightarrow> (variable \<times> map_node \<times> statement list \<times> expression \<times> sized_type) option" where
  "as_map_loop (For v (It_map m) ss b t) = Some (v, m, ss, b, t)"
| "as_map_loop s = None"

lemma as_map_access_eq: "as_map_access e = Some (m, k) \<longleftrightarrow> e = MapAccess m k"
  by (cases e) auto

lemma as_scalar_assign_eq: "as_scalar_assign s = Some (m, e) \<longleftrightarrow> s = AssignScalarMapStatement m e"
  by (cases s) auto

lemma as_map_assign_eq: "as_map_assign s = Some (m, k, e) \<longleftrightarrow> s = AssignMapStatement m k e"
  by (cases s) auto

lemma as_map_loop_eq: "as_map_loop s = Some (v, m, ss, b, t) \<longleftrightarrow> s = For v (It_map m) ss b t"
  by (cases s rule: as_map_loop.cases) auto

lemma es_depth_tl: "x \<in> set (tl es) \<Longrightarrow> depth x \<le> depth_es es"
  by (cases es) (auto dest: es_depth)

text \<open>
  \<open>MapDefaultKey\<close>: the visit of an expression and of a statement, which replaces what they hold. The two visits of the map of an assignment are one check here, which changes nothing.
\<close>

function default_expr :: "expression \<Rightarrow> (map_metadata, expression) state"
  and default_stmt :: "statement \<Rightarrow> (map_metadata, statement) state" where
  "default_expr e =
     do { e' \<leftarrow>
            (case as_map_access e of
               Some (m, k) \<Rightarrow> do { check_access m True; k \<leftarrow> default_expr k; State_Monad.return (MapAccess m k) }
             | None \<Rightarrow>
                 if is_map_addr e then State_Monad.return e
                 else (case as_call e of
                     Some (fn, args) \<Rightarrow>
                       if fn \<in> set raw_map_arg \<and> args \<noteq> [] then
                         do { args \<leftarrow>
                                (case as_map (hd args) of
                                   Some m \<Rightarrow>
                                     do { args' \<leftarrow> check_raw_call fn m args;
                                          rest \<leftarrow> State_Monad.traverse_list default_expr (tl args);
                                          State_Monad.return (MapE m # rest @ drop (length args) args') }
                                 | None \<Rightarrow>
                                     do { (if fn = ''delete'' then md_error ''delete() expects a map argument''
                                           else State_Monad.return ());
                                          State_Monad.traverse_list default_expr args });
                              State_Monad.return (with_args e args) }
                       else expr_visit default_hooks default_expr default_stmt e
                   | None \<Rightarrow> expr_visit default_hooks default_expr default_stmt e));
          State_Monad.return (desugar_map e') }"
| "default_stmt s =
     do { s' \<leftarrow>
            (case as_scalar_assign s of
               Some (m, e) \<Rightarrow>
                 do { check_access m False; e \<leftarrow> default_expr e; State_Monad.return (AssignScalarMapStatement m e) }
             | None \<Rightarrow>
                 (case as_map_assign s of
                    Some (m, k, e) \<Rightarrow>
                      do { check_access m True; k \<leftarrow> default_expr k; e \<leftarrow> default_expr e;
                           State_Monad.return (AssignMapStatement m k e) }
                  | None \<Rightarrow>
                      (case as_map_loop s of
                         Some (v, m, ss, b, t) \<Rightarrow>
                           do { check_iterator m; ss \<leftarrow> State_Monad.traverse_list default_stmt ss;
                                b \<leftarrow> default_expr b; State_Monad.return (For v (It_map m) ss b t) }
                       | None \<Rightarrow> stmt_visit default_hooks default_expr default_stmt s)));
          State_Monad.return (desugar_assign s') }"
  by pat_completeness auto

termination
  by (relation "measure (\<lambda>p. case p of Inl e \<Rightarrow> depth e | Inr s \<Rightarrow> depth_st s)")
    (auto simp: es_depth as_map_access_eq as_call_eq as_scalar_assign_eq as_map_assign_eq as_map_loop_eq less_Suc_eq_le
      simp del: expr_children.simps stmt_children.simps
      dest!: es_depth_tl expr_child_depth stmt_child_depth ss_depth dest: es_depth split: prod.splits)

declare default_expr.simps [simp del] default_stmt.simps [simp del]

section \<open>Calls that are assigned to a map\<close>

text \<open>\<open>injectMap\<close>: the call, or the value of a block, gets the map and the key as its first arguments.\<close>

fun inject_map :: "expression \<Rightarrow> map_node \<Rightarrow> expression \<Rightarrow> expression option" where
  "inject_map (Call fn args t nj disc) m k =
     (if fn \<in> set assign_rewrite then Some (Call fn (MapE m # k # args) t (nj + 2) disc) else None)"
| "inject_map (BlockExpr ss e) m k = map_option (BlockExpr ss) (inject_map e m k)"
| "inject_map e m k = None"

fun flatten_assign :: "statement \<Rightarrow> statement" where
  "flatten_assign (AssignMapStatement m k e) =
     (case inject_map e m k of Some e' \<Rightarrow> ExprStatement e' | None \<Rightarrow> AssignMapStatement m k e)"
| "flatten_assign s = s"

text \<open>The number of assignments to a map with a key, which a flattened statement has one less of.\<close>

fun is_map_assign :: "node \<Rightarrow> bool" where
  "is_map_assign (NS (AssignMapStatement m k e)) = True"
| "is_map_assign n = False"

definition map_assigns :: "node \<Rightarrow> nat" where
  "map_assigns n = length (filter is_map_assign (subnodes n))"

lemma map_assigns_rec:
  "map_assigns n = (if is_map_assign n then 1 else 0) + sum_list (map map_assigns (children n))"
  by (simp add: map_assigns_def [abs_def] subnodes.simps [of n] filter_concat length_concat comp_def)

lemma map_assigns_child: "c \<in> set (children n) \<Longrightarrow> map_assigns c \<le> map_assigns n"
  by (simp add: map_assigns_rec [of n] member_le_sum_list trans_le_add2)

lemma map_assigns_inject:
  "inject_map e m k = Some e' \<Longrightarrow> map_assigns (NE e') = map_assigns (NE k) + map_assigns (NE e)"
proof (induction e m k arbitrary: e' rule: inject_map.induct)
  case (1 fn args t nj disc m k)
  then show ?case
    by (auto simp: map_assigns_rec [of "NE (Call _ _ _ _ _)"] map_assigns_rec [of "NE (MapE _)"] split: if_splits)
next
  case (2 ss e m k)
  then show ?case by (auto simp: map_assigns_rec [of "NE (BlockExpr _ _)"] block_children_def)
qed auto

lemma map_assigns_flatten:
  "flatten_assign s \<noteq> s \<Longrightarrow> map_assigns (NS (flatten_assign s)) < map_assigns (NS s)"
  by (cases s) (auto simp: map_assigns_rec [of "NS _"] dest: map_assigns_inject split: option.splits)

lemma assign_stmt_decreases:
  assumes "c \<in> set (stmt_children (flatten_assign s))"
  shows "map_assigns c < map_assigns (NS s) \<or> map_assigns c \<le> map_assigns (NS s) \<and> node_depth c < depth_st s"
proof (cases "flatten_assign s = s")
  case True
  with assms map_assigns_child [of c "NS s"] stmt_child_depth [of c s] show ?thesis by simp
next
  case False
  from map_assigns_flatten [OF this] map_assigns_child [of c "NS (flatten_assign s)"] assms show ?thesis by simp
qed

text \<open>\<open>MapAssignmentCall\<close>: a statement is rewritten before what it holds is visited.\<close>

function assign_expr :: "expression \<Rightarrow> expression" and assign_stmt :: "statement \<Rightarrow> statement" where
  "assign_expr e = expr_map assign_expr assign_stmt e"
| "assign_stmt s = stmt_map assign_expr assign_stmt (flatten_assign s)"
  by pat_completeness auto

termination
proof (relation "(\<lambda>p. case p of Inl e \<Rightarrow> map_assigns (NE e) | Inr s \<Rightarrow> map_assigns (NS s)) <*mlex*>
    measure (\<lambda>p. case p of Inl e \<Rightarrow> depth e | Inr s \<Rightarrow> depth_st s)", goal_cases)
  case 1 then show ?case by (simp add: wf_mlex)
next
  case (2 e x)
  then show ?case using map_assigns_child [of "NE x" "NE e"] expr_child_depth [of "NE x" e] by (auto simp: mlex_iff)
next
  case (3 e x)
  then show ?case using map_assigns_child [of "NS x" "NE e"] expr_child_depth [of "NS x" e] by (auto simp: mlex_iff)
next
  case (4 s x)
  then show ?case using assign_stmt_decreases [of "NE x" s] by (auto simp: mlex_iff)
next
  case (5 s x)
  then show ?case using assign_stmt_decreases [of "NS x" s] by (auto simp: mlex_iff)
qed

declare assign_expr.simps [simp del] assign_stmt.simps [simp del]

section \<open>The checks\<close>

text \<open>\<open>MapAssignmentCheck\<close>: the error of a call that was not given a map.\<close>

fun assign_call_errors :: "node \<Rightarrow> string list" where
  "assign_call_errors (NE (Call fn args t nj disc)) =
     (if fn \<in> set assign_rewrite \<and> nj = 0 then [fn @ ''() must be assigned directly to a map''] else [])"
| "assign_call_errors n = []"

definition assignment_check :: "node \<Rightarrow> string list" where
  "assignment_check n = concat (map assign_call_errors (subnodes n))"

text \<open>
  \<open>MapScalarCheck\<close>, after the node has been visited. \<open>Inl\<close>: \<open>vargs.at(0)\<close> throws, and no handler is
  around it.
\<close>

definition scalar_call :: "(string \<times> bool) list \<Rightarrow> expression \<Rightarrow> unit + expression \<times> string list" where
  "scalar_call scalar e =
     (case as_call e of
        Some (fn, args) \<Rightarrow>
          (if fn \<noteq> ''is_scalar'' then Inr (e, [])
           else if args = [] then Inl ()
           else (case as_map (hd args) of
               Some m \<Rightarrow>
                 (case map_of scalar (m_ident m) of
                    None \<Rightarrow> Inr (e, [''Unknown map: '' @ m_ident m])
                  | Some val \<Rightarrow> Inr (Boolean val, []))
             | None \<Rightarrow> Inr (e, [fn @ ''() expects a map for the first argument''])))
      | None \<Rightarrow> Inr (e, []))"

record scalar_check =
  sc_thrown :: bool
  sc_errs :: "string list"

function scalar_expr :: "(string \<times> bool) list \<Rightarrow> expression \<Rightarrow> (scalar_check, expression) state"
  and scalar_stmt :: "(string \<times> bool) list \<Rightarrow> statement \<Rightarrow> (scalar_check, statement) state" where
  "scalar_expr scalar e =
     do { e' \<leftarrow> expr_visit no_hooks (scalar_expr scalar) (scalar_stmt scalar) e;
          (case scalar_call scalar e' of
             Inl u \<Rightarrow> do { State_Monad.update (\<lambda>s. s\<lparr>sc_thrown := True\<rparr>); State_Monad.return e' }
           | Inr (e'', errs) \<Rightarrow>
               do { State_Monad.update (\<lambda>s. s\<lparr>sc_errs := sc_errs s @ errs\<rparr>); State_Monad.return e'' }) }"
| "scalar_stmt scalar s = stmt_visit no_hooks (scalar_expr scalar) (scalar_stmt scalar) s"
  by pat_completeness auto

termination
  by (relation "measure (\<lambda>p. case p of Inl (sc, e) \<Rightarrow> depth e | Inr (sc, s) \<Rightarrow> depth_st s)")
    (auto dest!: expr_child_depth stmt_child_depth)

declare scalar_expr.simps [simp del] scalar_stmt.simps [simp del]

section \<open>The pass\<close>

text \<open>\<open>CreateMapSugarPass\<close>. \<open>None\<close>: the last visitor has thrown.\<close>

definition default_keys ::
  "subprog list \<times> probe_node list \<Rightarrow> (subprog list \<times> probe_node list) \<times> map_metadata" where
  "default_keys prog = run_state (program_visit default_hooks default_expr default_stmt prog) no_metadata"

definition map_sugar ::
  "subprog list \<times> probe_node list \<Rightarrow> ((subprog list \<times> probe_node list) \<times> map_metadata) option" where
  "map_sugar prog =
     (let prog1 = fst (run_state (program_visit no_hooks (pure_visit alias_expr) (pure_visit alias_stmt) prog) ());
          (prog2, md) = default_keys prog1
      in if md_errs md \<noteq> [] then Some (prog2, md)
         else
           let prog3 = fst (run_state (program_visit no_hooks (pure_visit assign_expr) (pure_visit assign_stmt) prog2) ());
               errs = concat (map assignment_check (program_nodes prog3));
               (prog4, sc) = run_state
                 (program_visit no_hooks (scalar_expr (md_scalar md)) (scalar_stmt (md_scalar md)) prog3)
                 \<lparr>sc_thrown = False, sc_errs = []\<rparr>
           in if sc_thrown sc then None else Some (prog4, md\<lparr>md_errs := errs @ sc_errs sc\<rparr>))"

end
