(* ===== verification/Map_Sugar_Correct.thy ===== *)
theory Map_Sugar_Correct
  imports Map_Sugar
begin

text \<open>
  Maps are used in one way. A tree that \<open>MapDefaultKey\<close> leaves without a bad use has every map
  either as a scalar, then with the key 0 everywhere, or with keys, and no scalar is left bare.
\<close>

section \<open>Uniform use of maps\<close>

definition key_ok :: "(string \<rightharpoonup> bool) \<Rightarrow> map_node \<Rightarrow> expression \<Rightarrow> expression \<Rightarrow> bool" where
  "key_ok \<sigma> m k index \<longleftrightarrow> \<sigma> (m_ident m) = Some False \<or> \<sigma> (m_ident m) = Some True \<and> k = index"

definition raw_ok :: "(string \<rightharpoonup> bool) \<Rightarrow> string \<Rightarrow> map_node \<Rightarrow> expression list \<Rightarrow> bool" where
  "raw_ok \<sigma> fn m rest \<longleftrightarrow>
     (if fn = ''delete'' then length rest = 1 \<and> key_ok \<sigma> m (hd rest) default_index
      else if fn = ''has_key'' \<or> fn = ''len'' then \<sigma> (m_ident m) = Some False
      else if fn = ''is_scalar'' then rest = [] else True)"

definition raw_call :: "expression \<Rightarrow> (string \<times> map_node \<times> expression list) option" where
  "raw_call e =
     (case as_call e of
        Some (fn, a # rest) \<Rightarrow>
          (if fn \<in> set raw_map_arg then map_option (\<lambda>m. (fn, m, rest)) (as_map a) else None)
      | _ \<Rightarrow> None)"

fun own_uniform :: "(string \<rightharpoonup> bool) \<Rightarrow> node \<Rightarrow> bool" where
  "own_uniform \<sigma> (NE e) =
     ((case as_map e of Some m \<Rightarrow> \<sigma> (m_ident m) = Some False | None \<Rightarrow> True) \<and>
      (case as_map_access e of Some (m, k) \<Rightarrow> key_ok \<sigma> m k default_index | None \<Rightarrow> True) \<and>
      (case raw_call e of Some (fn, m, rest) \<Rightarrow> raw_ok \<sigma> fn m rest | None \<Rightarrow> True))"
| "own_uniform \<sigma> (NS s) =
     (as_scalar_assign s = None \<and>
      (case as_map_assign s of Some (m, k, e) \<Rightarrow> key_ok \<sigma> m k int64_index | None \<Rightarrow> True) \<and>
      (case as_map_loop s of Some (v, m, ss, b, t) \<Rightarrow> \<sigma> (m_ident m) = Some False | None \<Rightarrow> True))"

text \<open>The children but the map that is the first argument of a raw call.\<close>

fun used_children :: "node \<Rightarrow> node list" where
  "used_children (NE e) =
     (case raw_call e of Some (fn, m, rest) \<Rightarrow> map NE rest | None \<Rightarrow> expr_children e)"
| "used_children (NS s) = stmt_children s"

lemma used_children_subset: "set (used_children n) \<subseteq> set (children n)"
proof (cases n)
  case (NE e)
  then show ?thesis
    by (cases e) (auto simp: raw_call_def split: list.splits option.splits if_splits)
qed simp

function uniform :: "(string \<rightharpoonup> bool) \<Rightarrow> node \<Rightarrow> bool" where
  "uniform \<sigma> n \<longleftrightarrow> own_uniform \<sigma> n \<and> (\<forall>c\<in>set (used_children n). uniform \<sigma> c)"
  by auto
termination
  by (relation "measure (\<lambda>(\<sigma>, n). node_depth n)") (use used_children_subset depth_children in auto)

declare uniform.simps [simp del]

text \<open>A state without a bad use whose decisions are those of \<open>\<sigma>\<close>.\<close>

definition consistent :: "(string \<rightharpoonup> bool) \<Rightarrow> map_metadata \<Rightarrow> bool" where
  "consistent \<sigma> s \<longleftrightarrow> bad_scalar_access s = [] \<and> bad_indexed_access s = [] \<and> bad_scalar_call s = [] \<and>
     bad_indexed_call s = [] \<and> bad_iterator s = [] \<and> md_errs s = [] \<and> map_of (md_scalar s) \<subseteq>\<^sub>m \<sigma>"

lemma consistent_lookup: "consistent \<sigma> s \<Longrightarrow> map_of (md_scalar s) x = Some b \<Longrightarrow> \<sigma> x = Some b"
  by (auto simp: consistent_def map_le_def dom_def)

lemma consistent_insert:
  "map_of (md_scalar s) x = None \<Longrightarrow> consistent \<sigma> (s\<lparr>md_scalar := (x, b) # md_scalar s\<rparr>) \<Longrightarrow>
     consistent \<sigma> s \<and> \<sigma> x = Some b"
  by (auto simp: consistent_def map_le_def dom_def split: if_splits)

lemma yields_check_map:
  "yields (consistent \<sigma>) (\<lambda>ok. ok \<longrightarrow> \<sigma> (m_ident m) = Some (\<not> indexed)) (check_map m indexed)"
  unfolding check_map_def yields_def
  by (auto split: option.splits dest: consistent_lookup consistent_insert)

lemma yields_bad:
  assumes "\<And>s. \<not> consistent \<sigma> (f s)"
  shows "yields (consistent \<sigma>) Q (State_Monad.update f)"
  using assms by (auto simp: yields_def State_Monad.update_def)

lemma insert_not_Nil [simp]: "List.insert x xs \<noteq> []"
  by (auto simp: List.insert_def)

lemma yields_check:
  "yields (consistent \<sigma>) (\<lambda>_. \<sigma> (m_ident m) = Some (\<not> indexed)) (check_access m indexed)"
  "yields (consistent \<sigma>) (\<lambda>_. \<sigma> (m_ident m) = Some (\<not> indexed)) (check_call m indexed)"
  "yields (consistent \<sigma>) (\<lambda>_. \<sigma> (m_ident m) = Some False) (check_iterator m)"
  unfolding check_access_def check_call_def check_iterator_def
  by (cases indexed; auto intro!: yields_bind [OF yields_check_map] yields_bind [OF yields_check_map [of \<sigma> m True, simplified]]
      yields_bad simp: consistent_def)+

lemma yields_md_error: "yields (consistent \<sigma>) Q (md_error msg)"
  unfolding md_error_def by (rule yields_bad) (simp add: consistent_def)

lemma yields_typeof_through:
  "yields (consistent \<sigma>) (\<lambda>go. go \<or> (\<forall>c\<in>set (te_children te). uniform \<sigma> c)) (typeof_through te)"
proof (cases te)
  case (TE_expr e)
  have "uniform \<sigma> (NE (MapE m))" if "\<sigma> (m_ident m) = Some False" for m
    using that by (subst uniform.simps) (simp add: raw_call_def)
  then show ?thesis
    using TE_expr unfolding yields_def
    by (auto simp: typeof_through_def as_map_eq split: option.splits dest: consistent_lookup)
qed (simp add: typeof_through_def)

interpretation sugar: visit_yields "consistent \<sigma>" default_hooks "uniform \<sigma>" QM QV for \<sigma> QM QV
  by unfold_locales (simp add: default_hooks_def yields_typeof_through)

text \<open>A visited node is of its kind, and a call keeps the number of its arguments.\<close>

lemma traverse_length: "run_state (State_Monad.traverse_list f xs) s = (ys, s') \<Longrightarrow> length ys = length xs"
  by (induction xs arbitrary: s ys) (auto split: prod.splits)

lemma default_kind:
  assumes "yields I Q (expr_visit h f g e)" "as_map_access e = None"
    "case as_call e of Some (fn, args) \<Rightarrow> fn \<notin> set raw_map_arg \<or> args = [] | None \<Rightarrow> True"
  shows "yields I (\<lambda>e'. Q e' \<and> as_map_access e' = None \<and> raw_call e' = None) (expr_visit h f g e)"
proof -
  have "as_map_access e' = None \<and> raw_call e' = None" if "run_state (expr_visit h f g e) s = (e', s')" for s e' s'
  proof (cases e)
    case (Call fn args t nj disc)
    with that obtain args' where "e' = Call fn args' t nj disc" "length args' = length args"
      by (auto split: prod.splits dest: traverse_length)
    with Call assms(3) show ?thesis by (auto simp: raw_call_def split: list.splits)
  qed (use that assms(2) in \<open>auto simp: raw_call_def split: prod.splits\<close>)
  with assms(1) show ?thesis by (auto simp: yields_def)
qed

lemma default_stmt_kind:
  assumes "yields I Q (stmt_visit h f g s)" "as_scalar_assign s = None" "as_map_assign s = None" "as_map_loop s = None"
  shows "yields I (\<lambda>s'. Q s' \<and> as_scalar_assign s' = None \<and> as_map_assign s' = None \<and> as_map_loop s' = None)
    (stmt_visit h f g s)"
proof -
  have "as_scalar_assign s' = None \<and> as_map_assign s' = None \<and> as_map_loop s' = None"
    if "run_state (stmt_visit h f g s) t = (s', t')" for t s' t'
  proof (cases s)
    case (For v it ss b ty)
    with assms(4) that show ?thesis by (cases it) (auto split: prod.splits)
  qed (use that assms in \<open>auto split: prod.splits\<close>)
  with assms(1) show ?thesis by (auto simp: yields_def)
qed

section \<open>The visits\<close>

lemma uniform_index [simp]: "uniform \<sigma> (NE default_index)" "uniform \<sigma> (NE int64_index)"
  by (subst uniform.simps, simp add: default_index_def int64_index_def new_integer_def raw_call_def)+

lemma uniform_access: "uniform \<sigma> (NE (MapAccess m k)) \<longleftrightarrow> key_ok \<sigma> m k default_index \<and> uniform \<sigma> (NE k)"
  by (subst uniform.simps) (simp add: raw_call_def)

text \<open>An expression whose own map may still be bare, if it is a scalar.\<close>

definition nearly_uniform :: "(string \<rightharpoonup> bool) \<Rightarrow> expression \<Rightarrow> bool" where
  "nearly_uniform \<sigma> e \<longleftrightarrow>
     (case as_map e of Some m \<Rightarrow> \<sigma> (m_ident m) = Some True | None \<Rightarrow> uniform \<sigma> (NE e))"

lemma desugar_uniform: "nearly_uniform \<sigma> e \<Longrightarrow> uniform \<sigma> (NE (desugar_map e))"
  by (auto simp: nearly_uniform_def desugar_map_def uniform_access key_ok_def split: option.splits)

lemma raw_call_with_args:
  "as_call e = Some (fn, args) \<Longrightarrow> fn \<in> set raw_map_arg \<Longrightarrow>
     raw_call (with_args e args') = (case args' of [] \<Rightarrow> None | a # rest \<Rightarrow> map_option (\<lambda>m. (fn, m, rest)) (as_map a))"
  by (cases e) (auto simp: raw_call_def split: list.splits)

lemma with_args_children: "as_call e = Some (fn, args) \<Longrightarrow> expr_children (with_args e args') = map NE args' \<and>
    as_map (with_args e args') = None \<and> as_map_access (with_args e args') = None"
  by (cases e) auto

lemma uniform_raw:
  assumes "as_call e = Some (fn, args)" "fn \<in> set raw_map_arg" "raw_ok \<sigma> fn m rest" "\<forall>a\<in>set rest. uniform \<sigma> (NE a)"
  shows "uniform \<sigma> (NE (with_args e (MapE m # rest)))"
  using assms by (subst uniform.simps) (auto simp: raw_call_with_args with_args_children)

lemma yields_error_then:
  "(\<And>x. keeps (consistent \<sigma>) (f x)) \<Longrightarrow> yields (consistent \<sigma>) Q (State_Monad.bind (md_error msg) f)"
  by (rule yields_bind [where P = "\<lambda>_. False", OF yields_md_error]) auto

text \<open>The map, the arguments after it, and the key that is added to \<open>delete\<close>.\<close>

lemma yields_raw_call:
  "yields (consistent \<sigma>)
     (\<lambda>args'. \<forall>rest'. length rest' = length rest \<longrightarrow> raw_ok \<sigma> fn m (rest' @ drop (length (MapE m # rest)) args') \<and>
        (\<forall>a\<in>set (drop (length (MapE m # rest)) args'). uniform \<sigma> (NE a)))
     (check_raw_call fn m (MapE m # rest))"
proof -
  let ?P = "\<lambda>args'. \<forall>rest'. length rest' = length rest \<longrightarrow> raw_ok \<sigma> fn m (rest' @ drop (length (MapE m # rest)) args') \<and>
        (\<forall>a\<in>set (drop (length (MapE m # rest)) args'). uniform \<sigma> (NE a))"
  consider "fn = ''delete''" "rest = []" | k where "fn = ''delete''" "rest = [k]"
    | "fn = ''delete''" "rest \<noteq> []" "tl rest \<noteq> []" | "fn = ''has_key'' \<or> fn = ''len''"
    | "fn = ''is_scalar''" "rest \<noteq> []" | "fn \<notin> {''delete'', ''has_key'', ''len''}" "fn = ''is_scalar'' \<longrightarrow> rest = []"
    by (cases rest; cases "tl rest") auto
  then show "yields (consistent \<sigma>) ?P (check_raw_call fn m (MapE m # rest))"
  proof cases
    case 1
    then show ?thesis unfolding check_raw_call_def
      by (simp, intro yields_bind [OF yields_check(2)] yields_return) (simp_all add: raw_ok_def key_ok_def)
  next
    case (2 k)
    have "raw_ok \<sigma> fn m rest'" if "length rest' = 1" "\<sigma> (m_ident m) = Some False" for rest'
      using 2 that by (simp add: raw_ok_def key_ok_def)
    with 2 show ?thesis unfolding check_raw_call_def
      by (simp, intro yields_bind [OF yields_check(2)] yields_return) simp_all
  next
    case 3
    then show ?thesis unfolding check_raw_call_def
      by (cases rest; cases "tl rest") (simp_all add: yields_error_then)
  next
    case 4
    then have "raw_ok \<sigma> fn m rest'" if "\<sigma> (m_ident m) = Some False" for rest'
      using that by (auto simp: raw_ok_def)
    moreover have "check_raw_call fn m (MapE m # rest) = do { check_call m True; State_Monad.return (MapE m # rest) }"
      using 4 by (auto simp: check_raw_call_def)
    ultimately show ?thesis
      by (simp only:) (rule yields_bind [OF yields_check(2)], simp, rule yields_return, simp)
  next
    case 5
    then show ?thesis unfolding check_raw_call_def
      by (simp add: yields_error_then)
  next
    case 6
    then have "raw_ok \<sigma> fn m rest'" if "length rest' = length rest" for rest'
      using that by (cases "fn = ''is_scalar''") (simp_all add: raw_ok_def)
    moreover have "check_raw_call fn m (MapE m # rest) = State_Monad.return (MapE m # rest)"
      using 6 by (simp add: check_raw_call_def) blast
    ultimately show ?thesis by (simp only:) (rule yields_return, simp)
  qed
qed

lemma nearly_uniform_bare: "\<sigma> (m_ident m) = Some True \<Longrightarrow> nearly_uniform \<sigma> (MapE m)"
  by (simp add: nearly_uniform_def)

lemma nearly_uniform_other: "as_map e = None \<Longrightarrow> uniform \<sigma> (NE e) \<Longrightarrow> nearly_uniform \<sigma> e"
  by (simp add: nearly_uniform_def)

lemma desugar_not_map [simp]: "as_map (desugar_map e) = None"
  by (cases e) (simp_all add: desugar_map_def)

lemma default_not_map: "run_state (default_expr e) s = (e', s') \<Longrightarrow> as_map e' = None"
  by (auto simp: default_expr.simps [of e] split: prod.splits)

lemma traverse_not_map:
  "run_state (State_Monad.traverse_list default_expr es) s = (ys, s') \<Longrightarrow> y \<in> set ys \<Longrightarrow> as_map y = None"
  by (induction es arbitrary: s ys) (auto split: prod.splits dest: default_not_map)

lemma default_uniform:
  "yields (consistent \<sigma>) (\<lambda>e. uniform \<sigma> (NE e)) (default_expr e)"
  "yields (consistent \<sigma>) (\<lambda>s. uniform \<sigma> (NS s)) (default_stmt s)"
proof (induction e and s rule: default_expr_default_stmt.induct)
  case (1 e)
  note IH = 1
  let ?I = "consistent \<sigma>"
  have plain: "yields ?I (nearly_uniform \<sigma>) (expr_visit default_hooks default_expr default_stmt e)"
    if acc: "as_map_access e = None" and addr: "\<not> is_map_addr e"
      and call: "case as_call e of Some (fn, args) \<Rightarrow> fn \<notin> set raw_map_arg \<or> args = [] | None \<Rightarrow> True"
  proof -
    have "yields ?I (\<lambda>e'. all_good (uniform \<sigma>) (\<lambda>m. \<sigma> (m_ident m) = Some True) (\<lambda>_. True)
        (expr_children e') (expr_maps e') (expr_vars e')) (expr_visit default_hooks default_expr default_stmt e)"
    proof (intro sugar.yields_expr)
      show "yields ?I (\<lambda>e. uniform \<sigma> (NE e)) (default_expr x)" if "NE x \<in> set (expr_children e)" for x
        using 1 acc addr call that by (cases "as_call e") auto
      show "yields ?I (\<lambda>s. uniform \<sigma> (NS s)) (default_stmt x)" if "NS x \<in> set (expr_children e)" for x
        using 1 acc addr call that by (cases "as_call e") auto
      show "yields ?I (\<lambda>m. \<sigma> (m_ident m) = Some True) (on_map default_hooks m)" for m
        using yields_check(1) [of \<sigma> m False] by (auto simp: default_hooks_def intro!: yields_bind)
    qed (simp add: default_hooks_def)
    from default_kind [OF this acc call] show ?thesis
    proof (rule yields_mono)
      fix e' assume e': "all_good (uniform \<sigma>) (\<lambda>m. \<sigma> (m_ident m) = Some True) (\<lambda>_. True)
        (expr_children e') (expr_maps e') (expr_vars e') \<and> as_map_access e' = None \<and> raw_call e' = None"
      show "nearly_uniform \<sigma> e'"
      proof (cases "as_map e'")
        case None
        with e' have "uniform \<sigma> (NE e')" by (subst uniform.simps) simp
        with None show ?thesis by (rule nearly_uniform_other)
      next
        case (Some m)
        with e' show ?thesis by (auto simp: as_map_eq intro: nearly_uniform_bare)
      qed
    qed
  qed
  have raw: "yields ?I (nearly_uniform \<sigma>)
      (do { args \<leftarrow>
              (case as_map (hd args) of
                 Some m \<Rightarrow>
                   do { args' \<leftarrow> check_raw_call fn m args;
                        rest \<leftarrow> State_Monad.traverse_list default_expr (tl args);
                        State_Monad.return (MapE m # rest @ drop (length args) args') }
               | None \<Rightarrow>
                   do { (if fn = ''delete'' then md_error ''delete() expects a map argument''
                         else State_Monad.return ());
                        State_Monad.traverse_list default_expr args });
            State_Monad.return (with_args e args) })"
    if call: "as_call e = Some (fn, args)" and fn: "fn \<in> set raw_map_arg" and ne: "args \<noteq> []" for fn args
  proof -
    have acc: "as_map_access e = None" "\<not> is_map_addr e" using call by (cases e; simp)+
    have nu: "nearly_uniform \<sigma> (with_args e args')" if "uniform \<sigma> (NE (with_args e args'))" for args'
      using that with_args_children [OF call] by (simp add: nearly_uniform_other)
    show ?thesis
    proof (cases "as_map (hd args)")
      case (Some m)
      then obtain rest where args: "args = MapE m # rest" using ne by (cases args) (auto simp: as_map_eq)
      have r: "yields ?I (\<lambda>ys. length ys = length rest \<and> (\<forall>y\<in>set ys. uniform \<sigma> (NE y))) (State_Monad.traverse_list default_expr rest)"
      proof -
        have "yields ?I (\<lambda>ys. \<forall>y\<in>set ys. uniform \<sigma> (NE y)) (State_Monad.traverse_list default_expr rest)"
          using IH acc call fn args Some by (intro yields_traverse) auto
        then show ?thesis by (auto simp: yields_def dest: traverse_length)
      qed
      have "yields ?I (nearly_uniform \<sigma>)
          (do { args' \<leftarrow> check_raw_call fn m args; rest \<leftarrow> State_Monad.traverse_list default_expr rest;
                State_Monad.return (with_args e (MapE m # rest @ drop (length args) args')) })"
        unfolding args
        by (rule yields_bind [OF yields_raw_call [of \<sigma> rest fn m]], rule keeps_bind [OF yields_keeps [OF r]], simp,
            rule yields_bind [OF r], simp, rule yields_return, rule nu, rule uniform_raw [OF call fn]) auto
      then show ?thesis using args Some by simp
    next
      case None
      have r: "yields ?I (\<lambda>ys. \<forall>y\<in>set ys. uniform \<sigma> (NE y)) (State_Monad.traverse_list default_expr args)"
        using IH acc call fn ne None by (intro yields_traverse) auto
      then have r: "yields ?I (\<lambda>ys. (\<forall>y\<in>set ys. uniform \<sigma> (NE y)) \<and> (\<forall>y\<in>set ys. as_map y = None)) (State_Monad.traverse_list default_expr args)"
        by (auto simp: yields_def dest: traverse_not_map)
      have u: "nearly_uniform \<sigma> (with_args e ys)"
        if "(\<forall>y\<in>set ys. uniform \<sigma> (NE y)) \<and> (\<forall>y\<in>set ys. as_map y = None)" for ys
      proof (rule nu, subst uniform.simps)
        have "raw_call (with_args e ys) = None"
          using that by (simp add: raw_call_with_args [OF call fn] split: list.splits)
        with that with_args_children [OF call, of ys]
        show "own_uniform \<sigma> (NE (with_args e ys)) \<and> (\<forall>c\<in>set (used_children (NE (with_args e ys))). uniform \<sigma> c)"
          by simp
      qed
      have "yields ?I (nearly_uniform \<sigma>) (do { args \<leftarrow> State_Monad.traverse_list default_expr args; State_Monad.return (with_args e args) })"
        by (rule yields_bind [OF r], simp, rule yields_return, rule u)
      with None show ?thesis by (simp add: yields_error_then keeps_bind yields_keeps [OF r])
    qed
  qed
  show ?case unfolding default_expr.simps [of e]
  proof (rule yields_bind [where P = "nearly_uniform \<sigma>"], goal_cases)
    case 1
    show ?case
    proof (cases "as_map_access e")
      case (Some a)
      then obtain m k where e: "e = MapAccess m k" by (cases a) (simp add: as_map_access_eq)
      have k: "yields ?I (\<lambda>e. uniform \<sigma> (NE e)) (default_expr k)" using IH e by auto
      have "yields ?I (nearly_uniform \<sigma>)
          (do { check_access m True; k \<leftarrow> default_expr k; State_Monad.return (MapAccess m k) })"
        by (rule yields_bind [OF yields_check(1)], simp add: keeps_bind yields_keeps [OF k], rule yields_bind [OF k])
          (simp_all add: nearly_uniform_other uniform_access key_ok_def)
      then show ?thesis by (simp add: e)
    next
      case acc: None
      show ?thesis
      proof (cases "is_map_addr e")
        case True
        then have "nearly_uniform \<sigma> e"
          by (cases e) (simp_all add: nearly_uniform_other uniform.simps [of \<sigma> "NE (MapAddr _)"] raw_call_def)
        with acc True show ?thesis by simp
      next
        case addr: False
        show ?thesis
        proof (cases "\<exists>fn args. as_call e = Some (fn, args) \<and> fn \<in> set raw_map_arg \<and> args \<noteq> []")
          case True
          with acc addr raw show ?thesis by auto
        next
          case False
          with plain [OF acc addr] acc addr show ?thesis by (auto split: option.splits)
        qed
      qed
    qed
  qed (simp_all add: desugar_uniform)
next
  case (2 s)
  note IH = 2
  let ?I = "consistent \<sigma>"
  let ?ok = "\<lambda>s. (\<forall>c\<in>set (stmt_children s). uniform \<sigma> c) \<and>
    (case as_scalar_assign s of Some (m, e) \<Rightarrow> \<sigma> (m_ident m) = Some True | None \<Rightarrow> own_uniform \<sigma> (NS s))"
  have desugar: "uniform \<sigma> (NS (desugar_assign s))" if "?ok s" for s
  proof (cases "as_scalar_assign s")
    case (Some a)
    then obtain m e where "s = AssignScalarMapStatement m e" by (cases a) (simp add: as_scalar_assign_eq)
    with that show ?thesis by (subst uniform.simps) (simp add: key_ok_def)
  next
    case None
    then have "desugar_assign s = s" by (cases s) auto
    with that None show ?thesis by (subst uniform.simps) simp
  qed
  show ?case unfolding default_stmt.simps [of s]
  proof (rule yields_bind [where P = ?ok], goal_cases)
    case 1
    show ?case
    proof (cases "as_scalar_assign s")
      case (Some a)
      then obtain m e where s: "s = AssignScalarMapStatement m e" by (cases a) (simp add: as_scalar_assign_eq)
      have e: "yields ?I (\<lambda>e. uniform \<sigma> (NE e)) (default_expr e)" using IH s by auto
      have "yields ?I ?ok (do { check_access m False; e \<leftarrow> default_expr e; State_Monad.return (AssignScalarMapStatement m e) })"
        by (rule yields_bind [OF yields_check(1)], simp add: keeps_bind yields_keeps [OF e], rule yields_bind [OF e]) simp_all
      then show ?thesis by (simp add: s)
    next
      case scalar: None
      show ?thesis
      proof (cases "as_map_assign s")
        case (Some a)
        then obtain m k e where s: "s = AssignMapStatement m k e" by (cases a) (simp add: as_map_assign_eq)
        have k: "yields ?I (\<lambda>e. uniform \<sigma> (NE e)) (default_expr k)" using IH s by auto
        have e: "yields ?I (\<lambda>e. uniform \<sigma> (NE e)) (default_expr e)" using IH s by auto
        have "yields ?I ?ok (do { check_access m True; k \<leftarrow> default_expr k; e \<leftarrow> default_expr e;
            State_Monad.return (AssignMapStatement m k e) })"
          by (rule yields_bind [OF yields_check(1)], simp add: keeps_bind yields_keeps [OF k] yields_keeps [OF e],
              rule yields_bind [OF k], simp add: keeps_bind yields_keeps [OF e], rule yields_bind [OF e]) (simp_all add: key_ok_def)
        then show ?thesis by (simp add: s)
      next
        case assign: None
        show ?thesis
        proof (cases "as_map_loop s")
          case (Some a)
          then obtain v m ss b t where s: "s = For v (It_map m) ss b t" by (cases a) (auto simp: as_map_loop_eq)
          have ss: "yields ?I (\<lambda>ss. \<forall>s\<in>set ss. uniform \<sigma> (NS s)) (State_Monad.traverse_list default_stmt ss)"
            using IH s by (intro yields_traverse) auto
          have b: "yields ?I (\<lambda>e. uniform \<sigma> (NE e)) (default_expr b)" using IH s by auto
          have "yields ?I ?ok (do { check_iterator m; ss \<leftarrow> State_Monad.traverse_list default_stmt ss;
              b \<leftarrow> default_expr b; State_Monad.return (For v (It_map m) ss b t) })"
            by (rule yields_bind [OF yields_check(3)], simp add: keeps_bind yields_keeps [OF ss] yields_keeps [OF b],
                rule yields_bind [OF ss], simp add: keeps_bind yields_keeps [OF b], rule yields_bind [OF b])
              (auto simp: block_children_def)
          then show ?thesis by (simp add: s)
        next
          case loop: None
          have "yields ?I (\<lambda>s'. all_good (uniform \<sigma>) (\<lambda>_. True) (\<lambda>_. True) (stmt_children s') (stmt_maps s') (stmt_vars s'))
              (stmt_visit default_hooks default_expr default_stmt s)"
          proof (intro sugar.yields_stmt)
            show "yields ?I (\<lambda>e. uniform \<sigma> (NE e)) (default_expr x)" if "NE x \<in> set (stmt_children s)" for x
              using IH scalar assign loop that by auto
            show "yields ?I (\<lambda>e. uniform \<sigma> (NS e)) (default_stmt x)" if "NS x \<in> set (stmt_children s)" for x
              using IH scalar assign loop that by auto
            show "keeps ?I (on_map default_hooks m)" for m
              using yields_keeps [OF yields_check(1) [of \<sigma> m False]] by (auto simp: default_hooks_def intro!: keeps_bind)
          qed (simp add: default_hooks_def)
          from default_stmt_kind [OF this scalar assign loop]
          have "yields ?I ?ok (stmt_visit default_hooks default_expr default_stmt s)" by (rule yields_mono) auto
          with scalar assign loop show ?thesis by simp
        qed
      qed
    qed
  qed (use desugar in \<open>auto intro!: yields_return\<close>)
qed

section \<open>The pass on a program\<close>

definition no_bad_use :: "map_metadata \<Rightarrow> bool" where
  "no_bad_use md \<longleftrightarrow> bad_scalar_access md = [] \<and> bad_indexed_access md = [] \<and> bad_scalar_call md = [] \<and>
     bad_indexed_call md = [] \<and> bad_iterator md = [] \<and> md_errs md = []"

text \<open>C27: When no use of a map is recorded as a bad one, every map of the probes has been decided to be a
  scalar or to have keys, and is only used in that way: a scalar with the key 0, where it was bare or in
  a \<open>delete\<close> without a key, any other with its keys, in loops and in \<open>len\<close> and \<open>has_key\<close>.
\<close>

theorem maps_uniform:
  assumes "default_keys prog = (prog', md)" "no_bad_use md"
  shows "list_all (\<lambda>p. \<forall>c\<in>set (block_children (pr_stmts p) (pr_value p)). uniform (map_of (md_scalar md)) c) (snd prog')"
proof -
  let ?I = "consistent (map_of (md_scalar md))"
  let ?P = "\<lambda>p. \<forall>c\<in>set (block_children (pr_stmts p) (pr_value p)). uniform (map_of (md_scalar md)) c"
  have probe: "yields ?I ?P (probe_visit default_expr default_stmt p)" for p
    by (intro yields_probe default_uniform)
  have "yields ?I (\<lambda>r. list_all2 (\<lambda>_. ?P) (snd prog) (snd r)) (program_visit default_hooks default_expr default_stmt prog)"
    by (intro yields_program yields_keeps [OF default_uniform(1)] yields_keeps [OF default_uniform(2)] probe)
      (simp_all add: default_hooks_def yields_keeps [OF yields_typeof_through])
  moreover have "?I md" using assms(2) by (simp add: consistent_def no_bad_use_def)
  ultimately have "list_all2 (\<lambda>_. ?P) (snd prog) (snd prog')"
    using assms(1) by (auto simp: default_keys_def dest: yieldsD)
  then show ?thesis by (auto simp: list_all2_conv_all_nth list_all_length)
qed

section \<open>Examples\<close>

lemmas run_default =
  arg_cong [OF default_expr.simps, of "\<lambda>m. run_state m s" for s]
  arg_cong [OF default_stmt.simps, of "\<lambda>m. run_state m s" for s]
  arg_cong [OF scalar_expr.simps, of "\<lambda>m. run_state m s" for s]
  arg_cong [OF scalar_stmt.simps, of "\<lambda>m. run_state m s" for s]

lemmas eval_sugar = run_default default_keys_def map_sugar_def program_visit_def probe_visit_def no_metadata_def
  check_access_def check_call_def check_iterator_def check_map_def md_error_def State_Monad.update_def
  check_raw_call_def default_hooks_def typeof_visit_def typeof_through_def desugar_map_def raw_map_arg_def
  pure_visit_def no_hooks_def program_nodes_def probe_nodes_def function_nodes_def block_children_def

abbreviation amap :: "string \<Rightarrow> map_node" where
  "amap x \<equiv> \<lparr>m_ident = x, m_key_type = create_none, m_value_type = create_none\<rparr>"

abbreviation acall :: "string \<Rightarrow> expression list \<Rightarrow> expression" where
  "acall f args \<equiv> Call f args create_none 0 False"

abbreviation probe_of :: "statement list \<Rightarrow> probe_node" where
  "probe_of ss \<equiv> \<lparr>pr_attach_points = [], pr_stmts = ss, pr_value = NoneE\<rparr>"

definition sugar_probe :: probe_node where
  "sugar_probe = probe_of [AssignScalarMapStatement (amap ''@n'') (MapE (amap ''@n'')),
     AssignMapStatement (amap ''@k'') (MapE (amap ''@n'')) NoneE]"

definition sugar_result :: probe_node where
  "sugar_result = probe_of [AssignMapStatement (amap ''@n'') int64_index (MapAccess (amap ''@n'') default_index),
     AssignMapStatement (amap ''@k'') (MapAccess (amap ''@n'') default_index) NoneE]"

theorem maps_uniform_witness:
  "list_all (\<lambda>p. \<forall>c\<in>set (block_children (pr_stmts p) (pr_value p)).
     uniform [''@k'' \<mapsto> False, ''@n'' \<mapsto> True] c) [sugar_result]"
proof -
  have "default_keys ([], [sugar_probe]) =
      (([], [sugar_result]), no_metadata\<lparr>md_scalar := [(''@k'', False), (''@n'', True)]\<rparr>)"
    by (simp add: eval_sugar sugar_probe_def sugar_result_def)
  from maps_uniform [OF this] show ?thesis
    by (simp add: no_bad_use_def no_metadata_def fun_upd_twist)
qed

text \<open>A call of \<open>is_scalar\<close> without an argument reaches \<open>vargs.at(0)\<close>.\<close>

lemma is_scalar_throws: "map_sugar ([], [probe_of [ExprStatement (acall ''is_scalar'' [])]]) = None"
  by (simp add: eval_sugar alias_expr.simps alias_stmt.simps alias_call_def assign_expr.simps assign_stmt.simps
      assignment_check_def subnodes.simps scalar_call_def)

text \<open>The alias of \<open>delete\<close> is not seen in the argument of a call.\<close>

lemma nested_delete_rejected:
  "map_sugar ([], [probe_of [ExprStatement (acall ''print'' [acall ''delete'' [MapAccess (amap ''@x'') (Boolean True)]])]]) =
   Some (([], [probe_of [ExprStatement (acall ''print'' [acall ''delete'' [MapAccess (amap ''@x'') (Boolean True)]])]]),
     no_metadata\<lparr>md_scalar := [(''@x'', False)], md_errs := [''delete() expects a map argument'']\<rparr>)"
  by (simp add: eval_sugar alias_expr.simps alias_stmt.simps alias_call_def)

text \<open>A type taken of a map before its first use makes the map a scalar.\<close>

lemma typeof_decides_scalar:
  "bad_scalar_access (snd (default_keys ([], [probe_of [VarDeclStatement \<lparr>v_ident = ''$v'', v_type = create_none\<rparr> (Some (TE_expr (MapE (amap ''@x'')))),
     AssignMapStatement (amap ''@x'') (Boolean True) NoneE]]))) = [''@x'']"
  by (simp add: eval_sugar)

end
