(* ===== verification/Script_Passes.thy ===== *)
theory Script_Passes
  imports Fold_Literals Config
begin

text \<open>
  The small passes over a whole script: \<open>src/ast/passes/config_analyser.cpp\<close>, \<open>unstable_feature.cpp\<close>,
  \<open>deprecated.cpp\<close>, \<open>portability_analyser.cpp\<close>, \<open>pid_filter_pass.cpp\<close>, \<open>probe_prune.cpp\<close> and
  \<open>recursion_check.cpp\<close>.
\<close>

section \<open>Scripts\<close>

text \<open>
  \<open>Program\<close> with the parts these passes look at: the assignments of the config block, and of imports,
  macros and map declarations the names.
\<close>

datatype assign_value = Assign_int u64 | Assign_string string | Assign_bool bool

record script =
  sr_config :: "(string \<times> assign_value) list"
  sr_imports :: "string list"
  sr_macros :: "string list"
  sr_functions :: "subprog list"
  sr_map_decls :: "string list"
  sr_probes :: "probe_node list"

text \<open>The nodes a visitor reaches that does not go below the nodes with \<open>stops\<close>, each before its children.\<close>

function visited :: "(node \<Rightarrow> bool) \<Rightarrow> node \<Rightarrow> node list" where
  "visited stops n = n # (if stops n then [] else concat (map (visited stops) (children n)))"
  by auto
termination by (relation "measure (node_depth \<circ> snd)") (simp_all add: depth_children)

declare visited.simps [simp del]

lemma visited_subnodes: "set (visited stops n) \<subseteq> set (subnodes n)"
proof (induction n rule: subnodes.induct)
  case (1 n)
  then show ?case by (subst visited.simps, subst subnodes.simps) auto
qed

section \<open>Configuration\<close>

text \<open>\<open>ConfigAnalyser\<close>. A value of type \<open>bool\<close> converts to the integer overload of \<open>set\<close>.\<close>

definition deprecated_configs :: "string list" where
  "deprecated_configs = [''symbol_source'', ''max_type_res_iterations'']"

definition set_value :: "string \<Rightarrow> assign_value \<Rightarrow> config \<Rightarrow> config_error + config" where
  "set_value var v c =
     (case v of
        Assign_int n \<Rightarrow> config_set_int var n c
      | Assign_string s \<Rightarrow> config_set var s c
      | Assign_bool b \<Rightarrow> config_set_int var (of_bool b) c)"

partial_function (option) set_renamed ::
  "string \<Rightarrow> assign_value \<Rightarrow> config \<Rightarrow> (string \<times> (config_error + config)) option" where
  "set_renamed var v c =
     (case set_value var v c of
        Inl (RenameError new) \<Rightarrow> set_renamed new v c
      | r \<Rightarrow> Some (var, r))"

datatype config_diag = Config_warning string | Config_error config_error

definition assign_config ::
  "string \<Rightarrow> assign_value \<Rightarrow> config \<Rightarrow> (config_diag list \<times> config) option" where
  "assign_config var v c =
     (let dep = (if var \<in> set deprecated_configs
                 then [Config_warning (var @ '' is deprecated and has no effect'')] else [])
      in case set_renamed var v c of
           None \<Rightarrow> None
         | Some (var', Inl e) \<Rightarrow> Some (dep @ [Config_error e], c)
         | Some (var', Inr c') \<Rightarrow>
             Some (dep @ (if var' \<noteq> var then [Config_warning (var @ '' has been renamed, please use '' @ var')] else []),
               c'))"

fun assign_all ::
  "(string \<times> assign_value) list \<Rightarrow> config \<Rightarrow> (config_diag list \<times> config) option" where
  "assign_all [] c = Some ([], c)"
| "assign_all ((var, v) # as) c =
     (case assign_config var v c of
        None \<Rightarrow> None
      | Some (ds, c') \<Rightarrow> map_option (\<lambda>(ds', c''). (ds @ ds', c'')) (assign_all as c'))"

text \<open>\<open>CreateConfigPass\<close>: the environment is read again after the assignments of the script.\<close>

definition config_pass ::
  "(string \<rightharpoonup> string) \<Rightarrow> (string \<times> assign_value) list \<Rightarrow> config \<Rightarrow>
     (config_diag list \<times> config \<times> config_error option) option" where
  "config_pass getenv as c =
     map_option (\<lambda>(ds, c'). (ds, load_environment getenv c')) (assign_all as c)"

section \<open>Unstable features\<close>

text \<open>
  \<open>UnstableFeature\<close>. A feature has its description, the option that enables it and the option's value.
  The visitor does not go below a call, a \<open>Typeinfo\<close> or an address.
\<close>

datatype script_item = Item_import | Item_map_decl | Item_node node

type_synonym feature = "string \<times> string \<times> unstable"

definition get_warning :: "string \<Rightarrow> string \<Rightarrow> string" where
  "get_warning feature conf =
     ''Script is using an unstable feature: '' @ feature @
     ''. To prevent this warning you must explicitly enable it in the config e.g. '' @ conf @ ''=enable''"

definition get_error :: "string \<Rightarrow> string \<Rightarrow> string" where
  "get_error feature conf =
     feature @ '' feature is not enabled by default. To enable this unstable feature, set the config flag to enable. '' @
     conf @ ''=enable''"

fun item_feature :: "config \<Rightarrow> string list \<Rightarrow> script_item \<Rightarrow> feature option" where
  "item_feature c macros Item_import = Some (''imports'', ''unstable_import'', unstable_import c)"
| "item_feature c macros Item_map_decl = Some (''map declarations'', ''unstable_map_decl'', unstable_map_decl c)"
| "item_feature c macros (Item_node (NE (Call fn args t nj disc))) =
     (if fn \<in> set macros then Some (''macros'', ''unstable_macro'', unstable_macro c)
      else if fn = ''tseries'' then Some (''tseries'', ''unstable_tseries'', unstable_tseries c)
      else None)"
| "item_feature c macros (Item_node (NE (Typeinfo te))) = Some (''typeinfo'', ''unstable_typeinfo'', unstable_typeinfo c)"
| "item_feature c macros (Item_node (NE (MapAddr m))) =
     Some (''address-of operator (&)'', ''unstable_addr'', unstable_addr c)"
| "item_feature c macros (Item_node (NE (VariableAddr v t))) =
     Some (''address-of operator (&)'', ''unstable_addr'', unstable_addr c)"
| "item_feature c macros (Item_node n) = None"

record unstable_log =
  us_warned :: "string list"
  us_errors :: "string list"
  us_warnings :: "string list"

definition use_feature :: "feature \<Rightarrow> unstable_log \<Rightarrow> unstable_log" where
  "use_feature f s =
     (case f of (feature, conf, how) \<Rightarrow>
        if how = Unstable_error then s\<lparr>us_errors := us_errors s @ [get_error feature conf]\<rparr>
        else if how = Unstable_warn \<and> conf \<notin> set (us_warned s)
        then s\<lparr>us_warnings := us_warnings s @ [get_warning feature conf], us_warned := conf # us_warned s\<rparr>
        else s)"

fun stops_unstable :: "node \<Rightarrow> bool" where
  "stops_unstable (NE (Call fn args t nj disc)) = True"
| "stops_unstable (NE (Typeinfo te)) = True"
| "stops_unstable n = False"

definition script_items :: "script \<Rightarrow> script_item list" where
  "script_items p =
     map (\<lambda>_. Item_import) (sr_imports p) @
     map Item_node (concat (map (visited stops_unstable) (concat (map function_nodes (sr_functions p))))) @
     map (\<lambda>_. Item_map_decl) (sr_map_decls p) @
     map Item_node (concat (map (visited stops_unstable) (concat (map probe_nodes (sr_probes p)))))"

definition unstable_pass :: "config \<Rightarrow> script \<Rightarrow> unstable_log" where
  "unstable_pass c p =
     fold use_feature (List.map_filter (item_feature c (sr_macros p)) (script_items p))
       \<lparr>us_warned = [], us_errors = [], us_warnings = []\<rparr>"

section \<open>Deprecated names\<close>

text \<open>\<open>DeprecatedAnalyser\<close>. The arguments of a call are not visited. An error or warning has a hint.\<close>

record deprecated_name =
  old_name :: string
  new_name :: string
  version_deprecated :: string
  version_last_available :: string
  deleted :: bool

definition name_matches :: "deprecated_name \<Rightarrow> string \<Rightarrow> bool" where
  "name_matches d name =
     (if last (old_name d) = CHR ''*'' then starts_with name (butlast (old_name d)) else name = old_name d)"

definition deprecated_diag :: "deprecated_name \<Rightarrow> diag \<times> string" where
  "deprecated_diag d =
     (if deleted d
      then Diag_error (old_name d @ '' is deleted. This was deprecated in '' @ version_deprecated d @
             '' and was last available in '' @ version_last_available d @ ''.'')
      else Diag_warning (old_name d @ '' is deprecated and will be removed in the future.''),
      ''Use '' @ new_name d @ '' instead.'')"

definition check_deprecated :: "deprecated_name list \<Rightarrow> string \<Rightarrow> (diag \<times> string) list" where
  "check_deprecated ds name = map deprecated_diag (filter (\<lambda>d. name_matches d name) ds)"

definition deprecated_builtins :: "deprecated_name list" where
  "deprecated_builtins =
     [\<lparr>old_name = ''sarg*'', new_name = ''*(reg('' @ [CHR 0x22] @ ''sp'' @ [CHR 0x22] @ '') + <stack_offset>)'',
       version_deprecated = ''v0.21'', version_last_available = ''v0.24'', deleted = True\<rparr>]"

definition deprecated_calls :: "deprecated_name list" where
  "deprecated_calls = []"

fun node_deprecated :: "node \<Rightarrow> (diag \<times> string) list" where
  "node_deprecated (NE (Builtin ident pid t)) = check_deprecated deprecated_builtins ident"
| "node_deprecated (NE (Call fn args t nj disc)) = check_deprecated deprecated_calls fn"
| "node_deprecated n = []"

fun is_call_node :: "node \<Rightarrow> bool" where
  "is_call_node (NE (Call fn args t nj disc)) = True"
| "is_call_node n = False"

definition deprecated_pass :: "script \<Rightarrow> (diag \<times> string) list" where
  "deprecated_pass p =
     concat (map node_deprecated
       (concat (map (visited is_call_node) (program_nodes (sr_functions p, sr_probes p)))))"

section \<open>Portability\<close>

text \<open>\<open>PortabilityAnalyser\<close>. The type of a cast is not visited.\<close>

definition aot_error :: "string \<Rightarrow> string" where
  "aot_error what = ''AOT does not yet support '' @ what"

fun portability_errors :: "node \<Rightarrow> string list" where
  "portability_errors (NE (PositionalParameter n)) = [aot_error ''positional parameters'']"
| "portability_errors (NE (Builtin ident pid t)) =
     (if ident = ''__builtin_curtask'' then [aot_error ''accessing `curtask`''] else [])"
| "portability_errors (NE (Call fn args t nj disc)) =
     (if fn \<in> {''kaddr'', ''__builtin_uaddr'', ''cgroupid''} then [aot_error (fn @ ''()'')] else [])"
| "portability_errors (NE (Cast te e)) = [aot_error ''struct casts'']"
| "portability_errors n = []"

fun portability_children :: "node \<Rightarrow> node list" where
  "portability_children (NE (Cast te e)) = [NE e]"
| "portability_children n = children n"

lemma portability_child: "c \<in> set (portability_children n) \<Longrightarrow> c \<in> set (children n)"
  by (cases n rule: portability_children.cases) auto

function portability :: "node \<Rightarrow> string list" where
  "portability n = concat (map portability (portability_children n)) @ portability_errors n"
  by auto
termination by (relation "measure node_depth") (auto dest!: portability_child depth_children)

declare portability.simps [simp del]

definition ap_portability :: "attach_point \<Rightarrow> string list" where
  "ap_portability ap =
     (case probetype (provider ap) of
        PT_usdt \<Rightarrow> [aot_error ''USDT probes'']
      | PT_watchpoint \<Rightarrow> [aot_error ''watchpoint probes'']
      | PT_asyncwatchpoint \<Rightarrow> [aot_error ''watchpoint probes'']
      | _ \<Rightarrow> [])"

definition portability_pass :: "script \<Rightarrow> string list" where
  "portability_pass p =
     concat (map portability (concat (map function_nodes (sr_functions p)))) @
     concat (map (\<lambda>pr. concat (map ap_portability (pr_attach_points pr)) @ concat (map portability (probe_nodes pr)))
       (sr_probes p))"

section \<open>The process filter\<close>

definition probe_needs_pid_filter :: "attach_point \<Rightarrow> bool" where
  "probe_needs_pid_filter ap \<longleftrightarrow>
     probetype (provider ap) \<in> {PT_kprobe, PT_kretprobe, PT_fentry, PT_fexit, PT_tracepoint, PT_rawtracepoint}"

definition create_pid_filter :: "int \<Rightarrow> statement list \<Rightarrow> expression \<Rightarrow> expression" where
  "create_pid_filter pid ss e =
     IfExpr (Binop (Builtin ''pid'' 0 create_none) Op_NE (new_integer (word_of_int pid)) create_none)
       (BlockExpr [Jump RETURN None] NoneE) (BlockExpr ss e) create_none"

definition pid_filter :: "int option \<Rightarrow> probe_node \<Rightarrow> probe_node" where
  "pid_filter pid p =
     (case pid of
        None \<Rightarrow> p
      | Some pid \<Rightarrow>
          if \<exists>ap\<in>set (pr_attach_points p). probe_needs_pid_filter ap
          then p\<lparr>pr_stmts := [], pr_value := create_pid_filter pid (pr_stmts p) (pr_value p)\<rparr>
          else p)"

section \<open>Probes without attach points\<close>

text \<open>
  \<open>CreateProbePrunePass\<close>. A probe keeps the name it was written with, which the pass prints. The
  result is the errors, the warnings that are logged, and the probes that are left.
\<close>

record named_probe = probe_node +
  pr_orig_name :: string

definition probe_prune :: "missing_probes \<Rightarrow> named_probe list \<Rightarrow> string list \<times> string list \<times> named_probe list" where
  "probe_prune conf ps =
     (let empty = filter (\<lambda>p. pr_attach_points p = []) ps
      in (if conf = Missing_error
          then map (\<lambda>_. ''Probe has no valid attach points. If this is expected, set the '' @ [CHR 0x27] @
                 ''missing_probes'' @ [CHR 0x27] @ '' config variable to '' @ [CHR 0x27] @ ''warn'' @ [CHR 0x27] @ ''.'') empty
          else [],
          if conf = Missing_warn
          then map (\<lambda>p. pr_orig_name p @
                 '' has no valid attach points. It is being removed which may cause issues with program behavior.'') empty
          else [],
          if conf \<noteq> Missing_error then filter (\<lambda>p. pr_attach_points p \<noteq> []) ps else ps))"

section \<open>Recursion\<close>

text \<open>
  \<open>RecursionCheck\<close>. What the probe matcher finds for an attach point is an argument. The result is
  the function that is warned about, if any; it makes the program need the recursion check.
\<close>

definition recursive_kernel_funcs :: "string list" where
  "recursive_kernel_funcs =
     [''vmlinux:_raw_spin_lock'', ''vmlinux:_raw_spin_lock_irqsave'', ''vmlinux:_raw_spin_unlock_irqrestore'',
      ''vmlinux:queued_spin_lock_slowpath'']"

fun recursion_in_aps :: "(attach_point \<Rightarrow> string list) \<Rightarrow> attach_point list \<Rightarrow> string option" where
  "recursion_in_aps matches [] = None"
| "recursion_in_aps matches (ap # aps) =
     (if probetype (provider ap) = PT_fentry \<or> probetype (provider ap) = PT_fexit
      then (case List.find (\<lambda>m. m \<in> set recursive_kernel_funcs) (matches ap) of
              Some m \<Rightarrow> Some m
            | None \<Rightarrow> recursion_in_aps matches aps)
      else recursion_in_aps matches aps)"

fun recursion_check :: "(attach_point \<Rightarrow> string list) \<Rightarrow> probe_node list \<Rightarrow> string option" where
  "recursion_check matches [] = None"
| "recursion_check matches (p # ps) =
     (case recursion_in_aps matches (pr_attach_points p) of
        Some m \<Rightarrow> Some m
      | None \<Rightarrow> recursion_check matches ps)"

section \<open>Configuration: the loop ends\<close>

lemma on_field_rename: "(\<And>y. p y \<noteq> Inl (RenameError x)) \<Longrightarrow> on_field get upd p c \<noteq> Inl (RenameError x)"
  by (cases "p (get c)") (auto simp: on_field_def)

lemmas option_parsers = parse_u64_str_def parse_u64_int_def parse_bool_str_def parse_bool_int_def parse_string_str_def
  parse_string_int_def parse_cache_str_def parse_cache_int_def missing_probes_error_def parse_missing_str_def
  parse_missing_int_def parse_license_str_def parse_license_int_def parse_unstable_str_def parse_unstable_int_def
  stack_mode_error_def parse_stack_mode_str_def parse_stack_mode_int_def

definition never_renames :: "any_parser \<Rightarrow> bool" where
  "never_renames p \<longleftrightarrow> (\<forall>k s n c x. p_string p k s c \<noteq> Inl (RenameError x) \<and> p_integer p k n c \<noteq> Inl (RenameError x))"

lemma never_renames_parser:
  assumes "\<And>k n y x. p_int k n y \<noteq> Inl (RenameError x)" "\<And>k s y x. p_str k s y \<noteq> Inl (RenameError x)"
  shows "never_renames (parser p_int p_str get upd)"
  using assms by (simp add: never_renames_def parser_def on_field_rename)

lemma options_never_rename: "list_all (\<lambda>(key, p). never_renames p) config_key_map"
  unfolding config_key_map_def
  by (simp only: list.pred_inject prod.case simp_thms, intro conjI)
    (rule never_renames_parser; simp add: option_parsers Let_def split: option.split sum.split)+

lemma option_found_never_renames:
  assumes "config_lookup k = Inr p"
  shows "never_renames p"
proof -
  from assms have "map_of config_key_map (restore k) = Some p"
    by (auto simp: config_lookup_def Let_def split: option.splits if_splits)
  then have "(restore k, p) \<in> set config_key_map" by (rule map_of_SomeD)
  with options_never_rename show ?thesis by (force simp: list_all_iff)
qed

lemma set_renamed_new:
  assumes "set_value var v c = Inl (RenameError new)"
  shows "set_value new v c \<noteq> Inl (RenameError again)"
proof -
  have "config_lookup var = Inl (RenameError new)"
    using assms option_found_never_renames [of var]
    by (auto simp: set_value_def config_set_def config_set_int_def never_renames_def split: assign_value.splits sum.splits)
  then have "map_of deprecated (restore var) = Some new"
    by (auto simp: config_lookup_def Let_def split: option.splits if_splits)
  then obtain p where "config_lookup new = Inr p" using config_set_renamed by blast
  with option_found_never_renames [OF this] show ?thesis
    by (simp add: set_value_def config_set_def config_set_int_def never_renames_def split: assign_value.split)
qed

lemma set_renamed_ends:
  "set_renamed var v c =
     (case set_value var v c of Inl (RenameError new) \<Rightarrow> Some (new, set_value new v c) | r \<Rightarrow> Some (var, r))"
proof (cases "\<exists>new. set_value var v c = Inl (RenameError new)")
  case True
  then obtain new where new: "set_value var v c = Inl (RenameError new)" by blast
  then have "set_renamed new v c = Some (new, set_value new v c)"
    using set_renamed_new [OF new]
    by (subst set_renamed.simps) (auto split: sum.splits config_error.splits)
  with new show ?thesis by (subst set_renamed.simps) simp
next
  case False
  then show ?thesis by (subst set_renamed.simps) (auto split: sum.splits config_error.splits)
qed

lemma assign_all_total: "\<exists>r. assign_all as c = Some r"
proof (induction "as" arbitrary: c rule: list.induct)
  case (Cons a as)
  obtain var v where a: "a = (var, v)" by (cases a)
  have "\<exists>r. assign_config var v c = Some r"
    by (auto simp: assign_config_def Let_def set_renamed_ends split: sum.splits config_error.splits)
  then obtain ds c' where "assign_config var v c = Some (ds, c')" by auto
  with Cons [of c'] show ?case by (auto simp: a)
qed simp

text \<open>the configuration pass ends: a renamed option leads to an option that is not renamed again, so the
  loop of \<open>ConfigAnalyser\<close> goes round at most twice for every assignment, and the pass returns.\<close>

theorem config_pass_total: "\<exists>ds c' e. config_pass getenv as c = Some (ds, c', e)"
  using assign_all_total [of "as" c] by (auto simp: config_pass_def)

text \<open>An option that the pass says has no effect is an error all the same.\<close>

lemma deprecated_option_rejected:
  "assign_config ''symbol_source'' v c =
     Some ([Config_warning ''symbol_source is deprecated and has no effect'',
            Config_error (ParseError ''symbol_source'' ''not a known configuration option'')], c)"
proof -
  have "config_lookup ''symbol_source'' = Inl (ParseError ''symbol_source'' ''not a known configuration option'')"
    by (simp add: config_lookup_def restore_def starts_with_def env_prefix_def lower_simps config_key_map_def
        deprecated_def env_only_def)
  then show ?thesis
    by (auto simp: assign_config_def set_renamed_ends set_value_def config_set_def config_set_int_def deprecated_configs_def
        split: assign_value.split)
qed

section \<open>Unstable features: errors and warnings\<close>

definition script_features :: "config \<Rightarrow> script \<Rightarrow> feature list" where
  "script_features c p = List.map_filter (item_feature c (sr_macros p)) (script_items p)"

definition feature_name :: "string \<Rightarrow> string" where
  "feature_name conf =
     (if conf = ''unstable_import'' then ''imports'' else if conf = ''unstable_map_decl'' then ''map declarations''
      else if conf = ''unstable_macro'' then ''macros'' else if conf = ''unstable_tseries'' then ''tseries''
      else if conf = ''unstable_typeinfo'' then ''typeinfo'' else ''address-of operator (&)'')"

lemma item_feature_name: "item_feature c macros i = Some (feature, conf, how) \<Longrightarrow> feature = feature_name conf"
  by (cases "(c, macros, i)" rule: item_feature.cases) (auto simp: feature_name_def split: if_splits)

lemma in_map_filter: "y \<in> set (List.map_filter f xs) \<longleftrightarrow> (\<exists>x\<in>set xs. f x = Some y)"
  by (induction xs) (auto simp: map_filter_simps split: option.splits)

lemma script_features_name: "(feature, conf, how) \<in> set (script_features c p) \<Longrightarrow> feature = feature_name conf"
  by (auto simp: script_features_def in_map_filter item_feature_name)

definition log_ok :: "feature list \<Rightarrow> unstable_log \<Rightarrow> bool" where
  "log_ok fs s \<longleftrightarrow> distinct (us_warned s) \<and> us_warnings s = map (\<lambda>conf. get_warning (feature_name conf) conf) (rev (us_warned s)) \<and>
     us_errors s = map (\<lambda>(feature, conf, how). get_error feature conf) (filter (\<lambda>(_, _, how). how = Unstable_error) fs) \<and>
     set (us_warned s) = {conf. \<exists>feature. (feature, conf, Unstable_warn) \<in> set fs}"

lemma log_ok_step:
  "log_ok fs s \<Longrightarrow> feature = feature_name conf \<Longrightarrow> log_ok (fs @ [(feature, conf, how)]) (use_feature (feature, conf, how) s)"
  by (cases how) (auto simp: log_ok_def use_feature_def)

lemma log_ok_fold:
  assumes "log_ok fs s" "\<And>feature conf how. (feature, conf, how) \<in> set gs \<Longrightarrow> feature = feature_name conf"
  shows "log_ok (fs @ gs) (fold use_feature gs s)"
  using assms
proof (induction gs arbitrary: fs s)
  case (Cons g gs)
  obtain feature conf how where g: "g = (feature, conf, how)" by (cases g)
  from Cons.prems(2) [of feature conf how] g have "feature = feature_name conf" by simp
  with Cons.prems(1) g have "log_ok (fs @ [g]) (use_feature g s)" by (simp add: log_ok_step)
  from Cons.IH [OF this] Cons.prems(2) show ?case by auto
qed simp

text \<open>the check of unstable features reports every use it sees of a feature that the configuration forbids, in the
  order of the script, and warns exactly once of each feature that is used and that the configuration
  warns of.\<close>

theorem unstable_reports:
  "us_errors (unstable_pass c p) =
      map (\<lambda>(feature, conf, how). get_error feature conf) (filter (\<lambda>(_, _, how). how = Unstable_error) (script_features c p))
    \<and> (\<exists>confs. distinct confs \<and> set confs = {conf. \<exists>feature. (feature, conf, Unstable_warn) \<in> set (script_features c p)}
        \<and> us_warnings (unstable_pass c p) = map (\<lambda>conf. get_warning (feature_name conf) conf) confs)"
proof -
  have "log_ok [] \<lparr>us_warned = [], us_errors = [], us_warnings = []\<rparr>" by (simp add: log_ok_def)
  from log_ok_fold [OF this script_features_name] have "log_ok (script_features c p) (unstable_pass c p)"
    by (simp add: unstable_pass_def script_features_def)
  then show ?thesis unfolding log_ok_def by (metis distinct_rev set_rev)
qed

section \<open>Portability: what is left\<close>

text \<open>What a script for ahead-of-time compilation may not have.\<close>

fun aot_supported :: "node \<Rightarrow> bool" where
  "aot_supported (NE (PositionalParameter n)) = False"
| "aot_supported (NE (Builtin ident pid t)) = (ident \<noteq> ''__builtin_curtask'')"
| "aot_supported (NE (Call fn args t nj disc)) = (fn \<noteq> ''kaddr'' \<and> fn \<noteq> ''__builtin_uaddr'' \<and> fn \<noteq> ''cgroupid'')"
| "aot_supported (NE (Cast te e)) = False"
| "aot_supported n = True"

lemma aot_supported_errors: "aot_supported n \<longleftrightarrow> portability_errors n = []"
  by (cases n rule: aot_supported.cases) auto

lemma portability_iff: "portability n = [] \<longleftrightarrow> (\<forall>m\<in>set (subnodes n). aot_supported m)"
proof (induction n rule: portability.induct)
  case (1 n)
  show ?case
  proof (cases "aot_supported n")
    case True
    then have "portability_children n = children n" by (cases n rule: aot_supported.cases) auto
    with 1 True show ?thesis by (subst portability.simps, subst subnodes.simps) (auto simp: aot_supported_errors)
  next
    case False
    then show ?thesis by (subst portability.simps, subst subnodes.simps) (auto simp: aot_supported_errors)
  qed
qed

text \<open>C30: the portability pass accepts a script exactly when no node at any depth is a positional parameter, a
  cast, \<open>curtask\<close> or one of the calls that are resolved at compile time, and no attach point is a USDT
  probe or a watchpoint.\<close>

theorem portability_exact:
  "portability_pass p = [] \<longleftrightarrow>
     (\<forall>n\<in>set (program_nodes (sr_functions p, sr_probes p)). \<forall>m\<in>set (subnodes n). aot_supported m) \<and>
     (\<forall>pr\<in>set (sr_probes p). \<forall>ap\<in>set (pr_attach_points pr).
        probetype (provider ap) \<notin> {PT_usdt, PT_watchpoint, PT_asyncwatchpoint})"
proof -
  have "ap_portability ap = [] \<longleftrightarrow> probetype (provider ap) \<notin> {PT_usdt, PT_watchpoint, PT_asyncwatchpoint}" for ap
    by (cases "probetype (provider ap)") (simp_all add: ap_portability_def)
  then show ?thesis
    by (simp add: portability_pass_def program_nodes_def portability_iff ball_Un) blast
qed

section \<open>Probes\<close>

text \<open>pruning leaves the probes that have an attach point, in their order, and nothing else, unless
  the configuration makes a probe without one an error, and then it leaves the script as it was and
  reports each of them.\<close>

theorem probe_prune_result:
  assumes "probe_prune conf ps = (errs, warns, qs)"
  shows "(errs = [] \<longrightarrow> qs = filter (\<lambda>p. pr_attach_points p \<noteq> []) ps) \<and>
    length errs + length warns = (if conf = Missing_ignore then 0 else length (filter (\<lambda>p. pr_attach_points p = []) ps)) \<and>
    (errs \<noteq> [] \<longrightarrow> qs = ps)"
proof -
  have "filter (\<lambda>p. pr_attach_points p \<noteq> []) ps = ps" if "filter (\<lambda>p. pr_attach_points p = []) ps = []"
    using that by (metis (mono_tags, lifting) empty_filter_conv filter_True)
  with assms show ?thesis by (cases conf) (auto simp: probe_prune_def Let_def)
qed

lemma find_dangerous: "List.find (\<lambda>m. m \<in> A) ms = None \<longleftrightarrow> set ms \<inter> A = {}"
  by (auto simp: find_None_iff)

lemma recursion_in_aps_iff:
  "recursion_in_aps matches aps = None \<longleftrightarrow>
     (\<forall>ap\<in>set aps. probetype (provider ap) \<in> {PT_fentry, PT_fexit} \<longrightarrow> set (matches ap) \<inter> set recursive_kernel_funcs = {})"
proof (induction aps)
  case (Cons ap aps)
  then show ?case
    using find_dangerous [of "set recursive_kernel_funcs" "matches ap"]
    by (cases "List.find (\<lambda>m. m \<in> set recursive_kernel_funcs) (matches ap)") auto
qed simp

text \<open>the recursion check is on exactly when some attach point of type fentry or fexit matches one of
  the dangerous functions, and the function it warns of is such a match.\<close>

theorem recursion_check_iff:
  "recursion_check matches ps \<noteq> None \<longleftrightarrow>
     (\<exists>p\<in>set ps. \<exists>ap\<in>set (pr_attach_points p). probetype (provider ap) \<in> {PT_fentry, PT_fexit} \<and>
        set (matches ap) \<inter> set recursive_kernel_funcs \<noteq> {})"
proof (induction ps)
  case (Cons p ps)
  show ?case
  proof (cases "recursion_in_aps matches (pr_attach_points p)")
    case None
    with Cons recursion_in_aps_iff [of matches "pr_attach_points p"] show ?thesis
      by (simp del: insert_iff) blast
  next
    case (Some m)
    with recursion_in_aps_iff [of matches "pr_attach_points p"] show ?thesis by auto
  qed
qed simp

section \<open>Calls hide their arguments\<close>

text \<open>A deleted name and an unstable operator go unseen in the arguments of a call.\<close>

lemma deprecated_in_call_unseen:
  "node_deprecated (NE (Builtin ''sarg0'' 0 t)) \<noteq> [] \<and>
   concat (map node_deprecated (visited is_call_node (NE (Call ''print'' [Builtin ''sarg0'' 0 t] t 0 False)))) = []"
  by (subst visited.simps)
    (simp add: check_deprecated_def deprecated_builtins_def deprecated_calls_def name_matches_def starts_with_def)

lemma address_in_call_unseen:
  "item_feature c ms (Item_node (NE (VariableAddr v t))) \<noteq> None \<and>
   item_feature c [] ` Item_node ` set (visited stops_unstable (NE (Call ''print'' [VariableAddr v t] t 0 False))) = {None}"
  by (subst visited.simps) simp

section \<open>A witness\<close>

definition demo_script :: "expression \<Rightarrow> script" where
  "demo_script e = \<lparr>sr_config = [], sr_imports = [], sr_macros = [], sr_functions = [], sr_map_decls = [],
     sr_probes = [\<lparr>pr_attach_points = [], pr_stmts = [], pr_value = e\<rparr>]\<rparr>"

theorem portability_exact_witness:
  "portability_pass (demo_script (Comptime (Cast (TE_type create_none) NoneE))) \<noteq> []"
proof -
  let ?c = "NE (Cast (TE_type create_none) NoneE)"
  have "?c \<in> set (subnodes ?c)" by (subst subnodes.simps) simp
  then have "?c \<in> set (subnodes (NE (Comptime (Cast (TE_type create_none) NoneE))))" by (subst subnodes.simps) simp
  then show ?thesis
    using portability_exact [of "demo_script (Comptime (Cast (TE_type create_none) NoneE))"]
    by (force simp: demo_script_def program_nodes_def probe_nodes_def block_children_def)
qed

end
