(* ===== verification/Builtin_Passes.thy ===== *)
theory Builtin_Passes
  imports Arch Fold_Literals
begin

text \<open>
  Two passes that replace expressions: the builtins that are known when a script is compiled,
  \<open>src/ast/passes/builtins.cpp\<close> with \<open>src/ast/signal.cpp\<close>, and the named parameters of a script,
  \<open>src/ast/passes/named_param.cpp\<close>.
\<close>

section \<open>Signals\<close>

definition signal_names :: "string list" where
  "signal_names =
     [''SIGABRT'', ''SIGALRM'', ''SIGBUS'', ''SIGCHLD'', ''SIGCONT'', ''SIGFPE'', ''SIGHUP'', ''SIGILL'', ''SIGINT'',
      ''SIGKILL'', ''SIGPIPE'', ''SIGPOLL'', ''SIGQUIT'', ''SIGSEGV'', ''SIGSTOP'', ''SIGSYS'', ''SIGTERM'', ''SIGTRAP'',
      ''SIGTSTP'', ''SIGTTIN'', ''SIGTTOU'', ''SIGURG'', ''SIGUSR1'', ''SIGUSR2'', ''SIGVTALRM'', ''SIGWINCH'',
      ''SIGXCPU'', ''SIGXFSZ'']"

text \<open>\<open>signum\<close> gives the numbers that \<open><csignal>\<close> has for the names.\<close>

definition signal_name_to_num :: "(string \<Rightarrow> int) \<Rightarrow> string \<Rightarrow> int" where
  "signal_name_to_num signum s =
     (if s = [] then -1
      else
        let sig = to_upper s;
            sig = (if hd sig \<noteq> CHR ''S'' then ''SIG'' @ sig else sig)
        in if sig \<in> set signal_names then signum sig else -1)"

section \<open>Builtins\<close>

text \<open>
  The machine and the mode of the run, whether a file is an executable (\<open>is_exe\<close>), its inode
  (\<open>file_ino\<close>), and the numbers of signals.
\<close>

record builtin_env =
  be_arch :: string
  be_safe_mode :: bool
  be_is_exe :: "string \<Rightarrow> bool"
  be_ino :: "string \<Rightarrow> u64"
  be_signum :: "string \<Rightarrow> int"

text \<open>\<open>check\<close>. The top level node is a probe or not one. A builtin of ELF files ends in \<open>front()\<close> of no attach
  point, and in a \<open>LOG(BUG)\<close> in other probes than those of a file.\<close>

definition check_builtin :: "builtin_env \<Rightarrow> probe_node option \<Rightarrow> string \<Rightarrow> stop + expression option" where
  "check_builtin env owner ident =
     (if ident = ''__builtin_arch'' then Inr (Some (new_string (be_arch env)))
      else if ident = ''__builtin_safe_mode'' then Inr (Some (Boolean (be_safe_mode env)))
      else
        case owner of
          None \<Rightarrow> Inr None
        | Some p \<Rightarrow>
            let aps = pr_attach_points p
            in if ident = ''__builtin_probe'' then
                 Inr (Some (new_string (if aps = [] then ''none'' else ap_name (hd aps))))
               else if ident = ''__builtin_probetype'' then
                 Inr (Some (new_string (if aps = [] then ''none'' else probetype_name (probetype (provider (hd aps))))))
               else if ident = ''__builtin_elf_is_exe'' \<or> ident = ''__builtin_elf_ino'' then
                 (if aps = [] then Inl Stop_undefined
                  else if probetype (provider (hd aps)) \<notin> {PT_uprobe, PT_uretprobe, PT_usdt} then Inl Stop_bug
                  else if ident = ''__builtin_elf_is_exe'' then Inr (Some (Boolean (be_is_exe env (target (hd aps)))))
                  else Inr (Some (new_integer (be_ino env (target (hd aps))))))
               else Inr None)"

text \<open>\<open>visit(Call)\<close> after its arguments.\<close>

definition check_signal :: "builtin_env \<Rightarrow> string \<Rightarrow> expression list \<Rightarrow> expression option \<times> string list" where
  "check_signal env fn args =
     (if fn \<noteq> ''__builtin_signal_num'' then (None, [])
      else if length args \<noteq> 1 then (None, [''__builtin_signal_num expects 1 argument''])
      else case hd args of
          StringE s t \<Rightarrow>
            let n = signal_name_to_num (be_signum env) s
            in (Some (new_integer (word_of_int n)), if n < 1 then [''Invalid string for signal: '' @ s] else [])
        | _ \<Rightarrow> (None, []))"

definition builtin_result ::
  "builtin_env \<Rightarrow> probe_node option \<Rightarrow> expression \<Rightarrow> stop + expression option \<times> string list" where
  "builtin_result env owner e =
     (case e of
        Builtin ident pid t \<Rightarrow> map_sum id (\<lambda>r. (r, [])) (check_builtin env owner ident)
      | Identifier ident t \<Rightarrow> map_sum id (\<lambda>r. (r, [])) (check_builtin env owner ident)
      | Call fn args t nj disc \<Rightarrow> Inr (check_signal env fn args)
      | _ \<Rightarrow> Inr (None, []))"

text \<open>The first stop ends the run, whatever a visit says after it.\<close>

record builtin_state =
  bi_stop :: "stop option"
  bi_errs :: "string list"

definition stop_at :: "stop \<Rightarrow> builtin_state \<Rightarrow> builtin_state" where
  "stop_at r s = (if bi_stop s = None then s\<lparr>bi_stop := Some r\<rparr> else s)"

definition replace_builtin :: "builtin_env \<Rightarrow> probe_node option \<Rightarrow> expression \<Rightarrow> (builtin_state, expression) state" where
  "replace_builtin env owner e =
     (case builtin_result env owner e of
        Inl r \<Rightarrow> do { State_Monad.update (stop_at r); State_Monad.return e }
      | Inr (x, errs) \<Rightarrow>
          do { State_Monad.update (\<lambda>s. s\<lparr>bi_errs := bi_errs s @ errs\<rparr>);
               State_Monad.return (case x of None \<Rightarrow> e | Some e' \<Rightarrow> e') })"

function builtin_expr :: "builtin_env \<Rightarrow> probe_node option \<Rightarrow> expression \<Rightarrow> (builtin_state, expression) state"
  and builtin_stmt :: "builtin_env \<Rightarrow> probe_node option \<Rightarrow> statement \<Rightarrow> (builtin_state, statement) state" where
  "builtin_expr env owner e =
     do { e' \<leftarrow> expr_visit no_hooks (builtin_expr env owner) (builtin_stmt env owner) e; replace_builtin env owner e' }"
| "builtin_stmt env owner s = stmt_visit no_hooks (builtin_expr env owner) (builtin_stmt env owner) s"
  by pat_completeness auto

termination
  by (relation "measure (\<lambda>p. case p of Inl (env, owner, e) \<Rightarrow> depth e | Inr (env, owner, s) \<Rightarrow> depth_st s)")
    (auto dest!: expr_child_depth stmt_child_depth)

declare builtin_expr.simps [simp del] builtin_stmt.simps [simp del]

text \<open>The functions are visited first, before the top level node is set.\<close>

definition builtin_probe :: "builtin_env \<Rightarrow> probe_node \<Rightarrow> (builtin_state, probe_node) state" where
  "builtin_probe env p = probe_visit (builtin_expr env (Some p)) (builtin_stmt env (Some p)) p"

definition builtins_pass ::
  "builtin_env \<Rightarrow> subprog list \<times> probe_node list \<Rightarrow> stop + (subprog list \<times> probe_node list) \<times> string list" where
  "builtins_pass env prog =
     (case run_state
        (do { fs \<leftarrow> State_Monad.traverse_list (subprog_visit no_hooks (builtin_expr env None) (builtin_stmt env None)) (fst prog);
              ps \<leftarrow> State_Monad.traverse_list (builtin_probe env) (snd prog);
              State_Monad.return (fs, ps) }) \<lparr>bi_stop = None, bi_errs = []\<rparr>
      of (r, s) \<Rightarrow> (case bi_stop s of Some e \<Rightarrow> Inl e | None \<Rightarrow> Inr (r, bi_errs s)))"

section \<open>Named parameters\<close>

datatype global_value = GV_string string | GV_int u64 | GV_bool bool

record named_params =
  np_defaults :: "(string \<times> global_value) list"
  np_errs :: "string list"
  np_thrown :: bool

text \<open>\<open>used_args\<close> and \<open>defaults\<close> are always assigned together.\<close>

fun print_global_value :: "global_value \<Rightarrow> string" where
  "print_global_value (GV_string s) = s"
| "print_global_value (GV_int n) = show_int (sint n)"
| "print_global_value (GV_bool b) = (if b then ''true'' else ''false'')"

text \<open>
  The default value and the type of the option. With more than two arguments the second may be no
  literal, and then the map has no type and the value is the empty string that the variant starts as.
\<close>

definition getopt_default :: "u64 \<Rightarrow> expression list \<Rightarrow> global_value \<times> sized_type" where
  "getopt_default max_str args =
     (case args of
        [a] \<Rightarrow> (GV_bool False, create_bool)
      | a # Boolean b # rest \<Rightarrow> (GV_bool b, create_bool)
      | a # StringE s t # rest \<Rightarrow> (GV_string s, create_string (unat max_str))
      | a # Integer n t # rest \<Rightarrow> (GV_int n, int_type 64 True)
      | a # NegativeInteger n t # rest \<Rightarrow> (GV_int n, int_type 64 True)
      | _ \<Rightarrow> (GV_string [], create_none))"

fun is_default_literal :: "expression \<Rightarrow> bool" where
  "is_default_literal (Integer n t) = True"
| "is_default_literal (NegativeInteger n t) = True"
| "is_default_literal (StringE s t) = True"
| "is_default_literal (Boolean b) = True"
| "is_default_literal e = False"

fun as_string :: "expression \<Rightarrow> string option" where
  "as_string (StringE s t) = Some s"
| "as_string e = None"

datatype getopt_result = Getopt_throws | Getopt_error string | Getopt_option string global_value expression

definition getopt_call :: "u64 \<Rightarrow> (string \<times> global_value) list \<Rightarrow> expression list \<Rightarrow> getopt_result" where
  "getopt_call max_str used args =
     (case args of
        [] \<Rightarrow> Getopt_throws
      | a # rest \<Rightarrow>
          (case as_string a of
             None \<Rightarrow> Getopt_error (''First argument to '' @ [CHR 0x27] @ ''getopt'' @ [CHR 0x27] @ '' must be a string literal.'')
           | Some name \<Rightarrow>
               if length args = 2 \<and> \<not> is_default_literal (args ! 1) then
                 Getopt_error (''Second argument to '' @ [CHR 0x27] @ ''getopt'' @ [CHR 0x27] @
                   '' must be a string literal, integer literal, or a boolean literal.'')
               else
                 let (val, ty) = getopt_default max_str args
                 in case map_of used name of
                      Some old \<Rightarrow>
                        if old \<noteq> val then
                          Getopt_error (''Command line option '' @ [CHR 0x27] @ name @ [CHR 0x27] @
                            '' needs to have the same default value in all places it is used. Previous default value: '' @
                            print_global_value old)
                        else Getopt_option name val
                          (MapAccess \<lparr>m_ident = name, m_key_type = int_type 64 True, m_value_type = ty\<rparr> (new_integer 0))
                    | None \<Rightarrow> Getopt_option name val
                        (MapAccess \<lparr>m_ident = name, m_key_type = int_type 64 True, m_value_type = ty\<rparr> (new_integer 0))))"

definition getopt_visit :: "u64 \<Rightarrow> expression list \<Rightarrow> expression \<Rightarrow> (named_params, expression) state" where
  "getopt_visit max_str args e =
     do { s \<leftarrow> State_Monad.get;
          (case getopt_call max_str (np_defaults s) args of
             Getopt_throws \<Rightarrow> do { State_Monad.set (s\<lparr>np_thrown := True\<rparr>); State_Monad.return e }
           | Getopt_error msg \<Rightarrow> do { State_Monad.set (s\<lparr>np_errs := np_errs s @ [msg]\<rparr>); State_Monad.return e }
           | Getopt_option name val e' \<Rightarrow>
               do { State_Monad.set (s\<lparr>np_defaults := AList.update name val (np_defaults s)\<rparr>); State_Monad.return e' }) }"

definition as_getopt :: "expression \<Rightarrow> expression list option" where
  "as_getopt e = (case as_call e of Some (fn, args) \<Rightarrow> if fn = ''getopt'' then Some args else None | None \<Rightarrow> None)"

function named_expr :: "u64 \<Rightarrow> expression \<Rightarrow> (named_params, expression) state"
  and named_stmt :: "u64 \<Rightarrow> statement \<Rightarrow> (named_params, statement) state" where
  "named_expr max_str e =
     (case as_getopt e of
        Some args \<Rightarrow> getopt_visit max_str args e
      | None \<Rightarrow> expr_visit no_hooks (named_expr max_str) (named_stmt max_str) e)"
| "named_stmt max_str s = stmt_visit no_hooks (named_expr max_str) (named_stmt max_str) s"
  by pat_completeness auto

termination
  by (relation "measure (\<lambda>p. case p of Inl (m, e) \<Rightarrow> depth e | Inr (m, s) \<Rightarrow> depth_st s)")
    (auto dest!: expr_child_depth stmt_child_depth)

declare named_expr.simps [simp del] named_stmt.simps [simp del]

definition named_params_pass ::
  "u64 \<Rightarrow> subprog list \<times> probe_node list \<Rightarrow> (subprog list \<times> probe_node list) \<times> named_params" where
  "named_params_pass max_str prog =
     run_state (program_visit no_hooks (named_expr max_str) (named_stmt max_str) prog)
       \<lparr>np_defaults = [], np_errs = [], np_thrown = False\<rparr>"

section \<open>Every visited node\<close>

lemma subnodes_children: "(\<forall>x\<in>set (subnodes n). P x) \<longleftrightarrow> P n \<and> (\<forall>c\<in>set (children n). \<forall>x\<in>set (subnodes c). P x)"
  by (subst subnodes.simps) auto

lemma related_all:
  "list_all2 (\<lambda>n n'. A n \<and> B n') xs ys \<Longrightarrow> (\<forall>n\<in>set xs. A n) \<and> (\<forall>n'\<in>set ys. B n')"
  by (induction xs ys rule: list_all2_induct) auto

lemma related_results: "list_all2 (\<lambda>n n'. B n') xs ys \<Longrightarrow> \<forall>n'\<in>set ys. B n'"
  by (induction xs ys rule: list_all2_induct) auto

lemma no_hooks_simps [simp]:
  "on_map no_hooks = State_Monad.return" "on_var no_hooks = State_Monad.return" "on_typeof no_hooks te = State_Monad.return True"
  by (simp_all add: no_hooks_def)

interpretation plain: visit_all I no_hooks Q for I and Q
  by unfold_locales simp_all

section \<open>Builtins are gone\<close>

definition compile_time_builtins :: "probe_node option \<Rightarrow> string list" where
  "compile_time_builtins owner = [''__builtin_arch'', ''__builtin_safe_mode''] @
     (if owner = None then []
      else [''__builtin_probe'', ''__builtin_probetype'', ''__builtin_elf_is_exe'', ''__builtin_elf_ino''])"

fun unresolved :: "probe_node option \<Rightarrow> node \<Rightarrow> bool" where
  "unresolved owner (NE (Builtin ident pid t)) = (ident \<in> set (compile_time_builtins owner))"
| "unresolved owner (NE (Identifier ident t)) = (ident \<in> set (compile_time_builtins owner))"
| "unresolved owner n = False"

definition running :: "builtin_state \<Rightarrow> bool" where
  "running s \<longleftrightarrow> bi_stop s = None"

definition resolved :: "probe_node option \<Rightarrow> node \<Rightarrow> bool" where
  "resolved owner n \<longleftrightarrow> (\<forall>x\<in>set (subnodes n). \<not> unresolved owner x)"

lemma check_builtin_listed:
  "check_builtin env owner ident = Inr None \<Longrightarrow> ident \<notin> set (compile_time_builtins owner)"
  by (auto simp: check_builtin_def compile_time_builtins_def Let_def split: option.splits if_splits)

lemma check_builtin_literal:
  "check_builtin env owner ident = Inr (Some e) \<Longrightarrow> expr_children e = [] \<and> \<not> unresolved owner (NE e)"
  by (auto simp: check_builtin_def Let_def new_string_def new_integer_def split: option.splits if_splits)

lemma check_signal_literal:
  "check_signal env fn args = (Some e, errs) \<Longrightarrow> expr_children e = [] \<and> \<not> unresolved owner (NE e)"
  by (auto simp: check_signal_def Let_def new_integer_def split: expression.splits if_splits)

lemma builtin_result_some:
  "builtin_result env owner e = Inr (Some e', errs) \<Longrightarrow> expr_children e' = [] \<and> \<not> unresolved owner (NE e')"
  by (cases e)
    (auto simp: builtin_result_def map_sum_def dest: check_builtin_literal check_signal_literal split: sum.splits)

lemma builtin_result_none: "builtin_result env owner e = Inr (None, errs) \<Longrightarrow> \<not> unresolved owner (NE e)"
  by (cases e) (auto simp: builtin_result_def map_sum_def dest: check_builtin_listed split: sum.splits)

lemma replace_resolved:
  assumes "\<forall>c\<in>set (expr_children e). resolved owner c"
  shows "yields running (\<lambda>e'. resolved owner (NE e')) (replace_builtin env owner e)"
proof (cases "builtin_result env owner e")
  case (Inl r)
  then show ?thesis by (auto simp: replace_builtin_def yields_def running_def stop_at_def State_Monad.update_def)
next
  case (Inr p)
  obtain x errs where p: "p = (x, errs)" by (cases p)
  have "resolved owner (NE (case x of None \<Rightarrow> e | Some e' \<Rightarrow> e'))"
  proof (cases x)
    case None
    with Inr p assms builtin_result_none [of env owner e] show ?thesis
      by (simp add: resolved_def subnodes_children [of "NE e"])
  next
    case (Some e')
    with Inr p builtin_result_some [of env owner e e'] show ?thesis
      by (simp add: resolved_def subnodes_children [of "NE e'"])
  qed
  with Inr p show ?thesis
    by (auto simp: replace_builtin_def yields_def running_def State_Monad.update_def)
qed

lemma keeps_replace: "keeps running (replace_builtin env owner e)"
  by (auto simp: replace_builtin_def yields_def running_def stop_at_def State_Monad.update_def split: sum.splits if_splits)

lemma builtin_resolved:
  "yields running (\<lambda>e'. resolved owner (NE e')) (builtin_expr env owner e)"
  "yields running (\<lambda>s'. resolved owner (NS s')) (builtin_stmt env owner s)"
proof (induction e and s rule: builtin_expr_builtin_stmt.induct)
  case (1 env owner e)
  have "yields running (\<lambda>e'. list_all2 (\<lambda>n n'. resolved owner n') (expr_children e) (expr_children e'))
      (expr_visit no_hooks (builtin_expr env owner) (builtin_stmt env owner) e)"
    by (rule plain.related_expr) (simp_all add: "1.IH")
  then have "yields running (\<lambda>e'. \<forall>c\<in>set (expr_children e'). resolved owner c)
      (expr_visit no_hooks (builtin_expr env owner) (builtin_stmt env owner) e)"
    by (rule yields_mono) (rule related_results)
  then show ?case unfolding builtin_expr.simps [of env owner e]
    by (rule yields_bind) (rule keeps_replace, rule replace_resolved)
next
  case (2 env owner s)
  have "yields running (\<lambda>s'. list_all2 (\<lambda>n n'. resolved owner n') (stmt_children s) (stmt_children s'))
      (stmt_visit no_hooks (builtin_expr env owner) (builtin_stmt env owner) s)"
    by (rule plain.related_stmt) (simp_all add: "2.IH")
  then show ?case unfolding builtin_stmt.simps [of env owner s]
  proof (rule yields_mono)
    fix s' assume "list_all2 (\<lambda>n n'. resolved owner n') (stmt_children s) (stmt_children s')"
    then have "\<forall>c\<in>set (stmt_children s'). resolved owner c" by (rule related_results)
    then show "resolved owner (NS s')" by (simp add: resolved_def subnodes_children [of "NS s'"])
  qed
qed

text \<open>C29: a script that the pass lets through has no builtin left in its probes that is known when the script is
  compiled: every \<open>__builtin_arch\<close>, \<open>__builtin_safe_mode\<close>, \<open>__builtin_probe\<close>, \<open>__builtin_probetype\<close> and
  builtin of ELF files is replaced, at any depth.\<close>

theorem builtins_resolved:
  assumes "builtins_pass env prog = Inr (prog', errs)" "p' \<in> set (snd prog')" "n \<in> set (probe_nodes p')" "x \<in> set (subnodes n)"
  shows "case x of
      NE (Builtin ident pid t) \<Rightarrow> ident \<notin> {''__builtin_arch'', ''__builtin_safe_mode'', ''__builtin_probe'',
        ''__builtin_probetype'', ''__builtin_elf_is_exe'', ''__builtin_elf_ino''}
    | NE (Identifier ident t) \<Rightarrow> ident \<notin> {''__builtin_arch'', ''__builtin_safe_mode'', ''__builtin_probe'',
        ''__builtin_probetype'', ''__builtin_elf_is_exe'', ''__builtin_elf_ino''}
    | _ \<Rightarrow> True"
proof -
  have probe: "yields running (\<lambda>p'. \<forall>n\<in>set (probe_nodes p'). resolved (Some p) n) (builtin_probe env p)" for p
    unfolding builtin_probe_def
    by (rule yields_mono [OF plain.related_probe [where Q = "\<lambda>n n'. resolved (Some p) n'"]],
        rule builtin_resolved, rule builtin_resolved, rule related_results)
  have func: "keeps running (subprog_visit no_hooks (builtin_expr env None) (builtin_stmt env None) f)" for f
    by (rule keeps_subprog) (simp_all add: yields_keeps [OF builtin_resolved(1)] yields_keeps [OF builtin_resolved(2)])
  have probe': "yields running (\<lambda>p'. \<exists>p. \<forall>n\<in>set (probe_nodes p'). resolved (Some p) n) (builtin_probe env p)" for p
    using probe [of p] by (rule yields_mono) blast
  have ps: "yields running (\<lambda>ps. \<forall>p'\<in>set ps. \<exists>p. \<forall>n\<in>set (probe_nodes p'). resolved (Some p) n)
      (State_Monad.traverse_list (builtin_probe env) (snd prog))"
    by (rule yields_traverse) (rule probe')
  have fs: "keeps running (State_Monad.traverse_list (subprog_visit no_hooks (builtin_expr env None) (builtin_stmt env None)) (fst prog))"
    by (rule keeps_traverse) (rule func)
  have m: "yields running (\<lambda>r. \<forall>p'\<in>set (snd r). \<exists>p. \<forall>n\<in>set (probe_nodes p'). resolved (Some p) n)
      (do { fs \<leftarrow> State_Monad.traverse_list (subprog_visit no_hooks (builtin_expr env None) (builtin_stmt env None)) (fst prog);
            ps \<leftarrow> State_Monad.traverse_list (builtin_probe env) (snd prog); State_Monad.return (fs, ps) })"
    (is "yields _ _ ?m")
    by (rule yields_bind [OF fs], rule keeps_bind [OF yields_keeps [OF ps]], rule yields_return, rule TrueI,
        rule yields_bind [OF ps], rule yields_return, rule TrueI, rule yields_return, simp only: snd_conv)
  obtain s where run: "run_state ?m \<lparr>bi_stop = None, bi_errs = []\<rparr> = (prog', s)" and ok: "running s"
    using assms(1) by (auto simp: builtins_pass_def running_def split: prod.splits option.splits)
  from yieldsD [OF m run ok] assms(2) obtain p where "\<forall>n\<in>set (probe_nodes p'). resolved (Some p) n" by blast
  then have "\<not> unresolved (Some p) x" using assms(3,4) by (auto simp: resolved_def)
  then show ?thesis by (auto simp: compile_time_builtins_def split: node.split expression.split)
qed

section \<open>Named parameters have one default\<close>

text \<open>The options a script asks for, with the default each call of \<open>getopt\<close> gives.\<close>

fun node_getopt :: "node \<Rightarrow> expression list option" where
  "node_getopt (NE e) = as_getopt e"
| "node_getopt (NS s) = None"

definition getopt_use :: "u64 \<Rightarrow> expression list \<Rightarrow> (string \<times> global_value) list" where
  "getopt_use max_str args =
     (case args of
        [] \<Rightarrow> []
      | a # rest \<Rightarrow> (case as_string a of None \<Rightarrow> [] | Some name \<Rightarrow> [(name, fst (getopt_default max_str args))]))"

function getopt_uses :: "u64 \<Rightarrow> node \<Rightarrow> (string \<times> global_value) list" where
  "getopt_uses max_str n =
     (case node_getopt n of
        Some args \<Rightarrow> getopt_use max_str args
      | None \<Rightarrow> concat (map (getopt_uses max_str) (children n)))"
  by auto
termination by (relation "measure (node_depth \<circ> snd)") (simp_all add: depth_children)

declare getopt_uses.simps [simp del]

definition np_ok :: "(string \<rightharpoonup> global_value) \<Rightarrow> named_params \<Rightarrow> bool" where
  "np_ok \<sigma> s \<longleftrightarrow> np_errs s = [] \<and> \<not> np_thrown s \<and> map_of (np_defaults s) \<subseteq>\<^sub>m \<sigma>"

definition uses_ok :: "u64 \<Rightarrow> (string \<rightharpoonup> global_value) \<Rightarrow> node \<Rightarrow> bool" where
  "uses_ok max_str \<sigma> n \<longleftrightarrow> (\<forall>u\<in>set (getopt_uses max_str n). \<sigma> (fst u) = Some (snd u))"

definition no_getopt :: "node \<Rightarrow> bool" where
  "no_getopt n \<longleftrightarrow> (\<forall>x\<in>set (subnodes n). node_getopt x = None)"

lemma no_getopt_children: "no_getopt n \<longleftrightarrow> node_getopt n = None \<and> (\<forall>c\<in>set (children n). no_getopt c)"
  unfolding no_getopt_def by (rule subnodes_children)

lemma uses_ok_children: "node_getopt n = None \<Longrightarrow> uses_ok max_str \<sigma> n \<longleftrightarrow> (\<forall>c\<in>set (children n). uses_ok max_str \<sigma> c)"
  by (auto simp: uses_ok_def getopt_uses.simps [of max_str n])

lemma np_ok_update:
  assumes "map_of (np_defaults s) name = None \<or> map_of (np_defaults s) name = Some val"
    and "np_ok \<sigma> (s\<lparr>np_defaults := AList.update name val (np_defaults s)\<rparr>)"
  shows "np_ok \<sigma> s \<and> \<sigma> name = Some val"
  using assms by (auto simp: np_ok_def map_le_def update_conv dom_def split: if_splits)

lemma no_getopt_access: "no_getopt (NE (MapAccess m (new_integer n)))"
proof -
  have "no_getopt (NE (new_integer n))" by (subst no_getopt_children) (simp add: new_integer_def as_getopt_def)
  then show ?thesis by (subst no_getopt_children) (simp add: as_getopt_def)
qed

lemma getopt_option:
  "getopt_call max_str used args = Getopt_option name val e' \<Longrightarrow>
     getopt_use max_str args = [(name, val)] \<and> (map_of used name = None \<or> map_of used name = Some val) \<and> no_getopt (NE e')"
  by (auto simp: getopt_call_def getopt_use_def Let_def no_getopt_access split: list.splits option.splits if_splits prod.splits)

lemma getopt_visit_ok:
  "yields (np_ok \<sigma>) (\<lambda>e'. (\<forall>u\<in>set (getopt_use max_str args). \<sigma> (fst u) = Some (snd u)) \<and> no_getopt (NE e')) (getopt_visit max_str args e)"
proof -
  have "np_ok \<sigma> s \<and> (\<forall>u\<in>set (getopt_use max_str args). \<sigma> (fst u) = Some (snd u)) \<and> no_getopt (NE e')"
    if run: "run_state (getopt_visit max_str args e) s = (e', s')" and ok: "np_ok \<sigma> s'" for s e' s'
  proof (cases "getopt_call max_str (np_defaults s) args")
    case (Getopt_option name val x)
    with run have e': "e' = x" and s': "s' = s\<lparr>np_defaults := AList.update name val (np_defaults s)\<rparr>"
      by (simp_all add: getopt_visit_def)
    from getopt_option [OF Getopt_option] np_ok_update [of s name val \<sigma>] ok show ?thesis by (simp add: e' s')
  qed (use run ok in \<open>auto simp: getopt_visit_def np_ok_def\<close>)
  then show ?thesis by (simp add: yields_def)
qed

lemma named_visit:
  "yields (np_ok \<sigma>) (\<lambda>e'. uses_ok max_str \<sigma> (NE e) \<and> no_getopt (NE e')) (named_expr max_str e)"
  "yields (np_ok \<sigma>) (\<lambda>s'. uses_ok max_str \<sigma> (NS s) \<and> no_getopt (NS s')) (named_stmt max_str s)"
proof (induction e and s rule: named_expr_named_stmt.induct)
  case (1 max_str e)
  show ?case
  proof (cases "as_getopt e")
    case (Some args)
    with getopt_visit_ok [of \<sigma> max_str args e] show ?thesis
      by (simp add: named_expr.simps uses_ok_def getopt_uses.simps [of max_str "NE e"])
  next
    case None
    let ?m = "expr_visit no_hooks (named_expr max_str) (named_stmt max_str) e"
    have "yields (np_ok \<sigma>) (\<lambda>e'. list_all2 (\<lambda>n n'. uses_ok max_str \<sigma> n \<and> no_getopt n') (expr_children e) (expr_children e')) ?m"
      by (rule plain.related_expr) (simp_all add: "1.IH" None)
    moreover have "as_getopt e' = None" if "run_state ?m s = (e', s')" for s e' s'
      using expr_visit_kind [OF that] None by (auto simp: as_getopt_def split: option.splits prod.splits if_splits)
    ultimately have "yields (np_ok \<sigma>) (\<lambda>e'. as_getopt e' = None \<and>
        (\<forall>n\<in>set (expr_children e). uses_ok max_str \<sigma> n) \<and> (\<forall>n\<in>set (expr_children e'). no_getopt n)) ?m"
      unfolding yields_def by (metis related_all)
    then show ?thesis using None
      by (simp add: named_expr.simps [of max_str e]) (erule yields_mono, simp add: uses_ok_children no_getopt_children [of "NE _"])
  qed
next
  case (2 max_str s)
  have "yields (np_ok \<sigma>) (\<lambda>s'. list_all2 (\<lambda>n n'. uses_ok max_str \<sigma> n \<and> no_getopt n') (stmt_children s) (stmt_children s'))
      (stmt_visit no_hooks (named_expr max_str) (named_stmt max_str) s)"
    by (rule plain.related_stmt) (simp_all add: "2.IH")
  then show ?case unfolding named_stmt.simps [of max_str s]
    by (rule yields_mono) (drule related_all, simp add: uses_ok_children no_getopt_children [of "NS _"])
qed

text \<open>C28: named parameters are resolved: after the pass, without an error, no call of \<open>getopt\<close> is left at any
  depth, and the table of defaults has, for every call that was visited, the default that call gives, so
  all calls for one option agree.\<close>

theorem named_params_resolved:
  assumes "named_params_pass max_str prog = (prog', s)" "np_errs s = []" "\<not> np_thrown s"
  shows "(\<forall>n\<in>set (program_nodes prog'). \<forall>x\<in>set (subnodes n). node_getopt x = None) \<and>
    (\<forall>n\<in>set (program_nodes prog). \<forall>(name, val)\<in>set (getopt_uses max_str n). map_of (np_defaults s) name = Some val)"
proof -
  let ?\<sigma> = "map_of (np_defaults s)"
  have m: "yields (np_ok ?\<sigma>)
      (\<lambda>r. list_all2 (\<lambda>n n'. uses_ok max_str ?\<sigma> n \<and> no_getopt n') (program_nodes prog) (program_nodes r))
      (program_visit no_hooks (named_expr max_str) (named_stmt max_str) prog)"
    by (rule plain.related_program) (rule named_visit)+
  have run: "run_state (program_visit no_hooks (named_expr max_str) (named_stmt max_str) prog)
      \<lparr>np_defaults = [], np_errs = [], np_thrown = False\<rparr> = (prog', s)"
    using assms(1) by (simp add: named_params_pass_def)
  have "np_ok ?\<sigma> s" using assms by (simp add: np_ok_def)
  from yieldsD [OF m run this] have "(\<forall>n\<in>set (program_nodes prog). uses_ok max_str ?\<sigma> n) \<and> (\<forall>n\<in>set (program_nodes prog'). no_getopt n)"
    by (blast dest: related_all)
  then show ?thesis by (fastforce simp: uses_ok_def no_getopt_def)
qed

section \<open>Where the passes go wrong\<close>

text \<open>A name that starts with an S never gets its prefix.\<close>

lemma signal_stop_unknown:
  "signal_name_to_num signum ''STOP'' = -1 \<and> signal_name_to_num signum ''KILL'' = signum ''SIGKILL''"
  by (simp add: signal_name_to_num_def signal_names_def to_upper_def char_upper_def is_lower_def char_code_def chr_of_def)

lemma getopt_without_arguments_throws:
  "np_thrown (snd (run_state (named_expr max_str (Call ''getopt'' [] t nj disc)) s))"
  by (subst named_expr.simps) (simp add: as_getopt_def getopt_visit_def getopt_call_def)

text \<open>With three arguments the default is not looked at.\<close>

lemma getopt_third_argument:
  "\<exists>e. getopt_call max_str [] [StringE name t, VariableE v, c] = Getopt_option name (GV_string []) e"
  by (simp add: getopt_call_def getopt_default_def)

lemma elf_builtin_aborts:
  "check_builtin env (Some \<lparr>pr_attach_points = [(new_attach_point [] False)\<lparr>provider := ''kprobe''\<rparr>], pr_stmts = [], pr_value = NoneE\<rparr>)
     ''__builtin_elf_ino'' = Inl Stop_bug"
proof -
  have "probetype ''kprobe'' = PT_kprobe"
    by (simp add: probetype_def probe_list_def item_def item_named_def to_lower_def char_lower_def is_upper_def char_code_def)
  then show ?thesis by (simp add: check_builtin_def Let_def new_attach_point_def)
qed

section \<open>Witnesses\<close>

lemmas run_builtin_expr = arg_cong [OF builtin_expr.simps, of "\<lambda>m. run_state m s" for s]
lemmas run_builtin_stmt = arg_cong [OF builtin_stmt.simps, of "\<lambda>m. run_state m s" for s]
lemmas run_named_expr = arg_cong [OF named_expr.simps, of "\<lambda>m. run_state m s" for s]

definition demo_env :: builtin_env where
  "demo_env = \<lparr>be_arch = ''x86_64'', be_safe_mode = True, be_is_exe = (\<lambda>_. True), be_ino = (\<lambda>_. 1), be_signum = (\<lambda>_. 9)\<rparr>"

definition demo_tuple :: "expression list \<Rightarrow> probe_node" where
  "demo_tuple es = \<lparr>pr_attach_points = [], pr_stmts = [], pr_value = Tuple es create_none\<rparr>"

lemma demo_builtins:
  "builtins_pass demo_env ([], [demo_tuple [Builtin ''__builtin_probe'' 0 create_none, Identifier ''x'' create_none]]) =
     Inr (([], [demo_tuple [new_string ''none'', Identifier ''x'' create_none]]), [])"
  by (simp add: builtins_pass_def builtin_probe_def probe_visit_def demo_tuple_def run_builtin_expr replace_builtin_def
      builtin_result_def check_builtin_def State_Monad.update_def)

theorem builtins_resolved_witness: "''x'' \<notin> {''__builtin_arch'', ''__builtin_safe_mode'', ''__builtin_probe''}"
proof -
  let ?t = "NE (Tuple [new_string ''none'', Identifier ''x'' create_none] create_none)"
  have "NE (Identifier ''x'' create_none) \<in> set (subnodes (NE (Identifier ''x'' create_none)))"
    by (subst subnodes.simps) simp
  then have "NE (Identifier ''x'' create_none) \<in> set (subnodes ?t)" by (subst subnodes.simps) simp
  moreover have "?t \<in> set (probe_nodes (demo_tuple [new_string ''none'', Identifier ''x'' create_none]))"
    by (simp add: demo_tuple_def probe_nodes_def block_children_def)
  ultimately show ?thesis using builtins_resolved [OF demo_builtins] by force
qed

lemma demo_named:
  "named_params_pass 64 ([], [demo_tuple [Call ''getopt'' [StringE ''n'' create_none, Integer 5 create_none] create_none 0 False]]) =
     (([], [demo_tuple [MapAccess \<lparr>m_ident = ''n'', m_key_type = int_type 64 True, m_value_type = int_type 64 True\<rparr> (new_integer 0)]]),
      \<lparr>np_defaults = [(''n'', GV_int 5)], np_errs = [], np_thrown = False\<rparr>)"
  by (simp add: named_params_pass_def program_visit_def probe_visit_def demo_tuple_def run_named_expr as_getopt_def
      getopt_visit_def getopt_call_def getopt_default_def)

theorem named_params_resolved_witness: "map_of [(''n'', GV_int 5)] ''n'' = Some (GV_int 5)"
proof -
  let ?c = "NE (Call ''getopt'' [StringE ''n'' create_none, Integer 5 create_none] create_none 0 False)"
  let ?t = "NE (Tuple [Call ''getopt'' [StringE ''n'' create_none, Integer 5 create_none] create_none 0 False] create_none)"
  have "(''n'', GV_int 5) \<in> set (getopt_uses 64 ?c)"
    by (subst getopt_uses.simps) (simp add: as_getopt_def getopt_use_def getopt_default_def)
  then have "(''n'', GV_int 5) \<in> set (getopt_uses 64 ?t)" by (subst getopt_uses.simps) (simp add: as_getopt_def)
  then show ?thesis using named_params_resolved [OF demo_named]
    by (simp add: program_nodes_def demo_tuple_def probe_nodes_def block_children_def)
qed

end
