(* ===== verification/Output.thy ===== *)
theory Output
  imports Str_Util
begin

text \<open>
  Printing of values, \<open>src/output/output.h\<close>, \<open>src/output/output.cpp\<close> and \<open>src/output/text.cpp\<close>: the values
  that reach an output, the formatting state of a \<open>std::ostream\<close>, and the text output.
\<close>

section \<open>Streams\<close>

text \<open>
  A \<open>std::ostream\<close> with what was written and its formatting state. A width holds for the next insertion
  only; everything else stays as it is set.
\<close>

record ostream =
  os_text :: string
  os_left :: bool
  os_fill :: char
  os_width :: nat
  os_base :: nat
  os_showpos :: bool
  os_showbase :: bool
  os_upper :: bool

definition new_ostream :: ostream where
  "new_ostream = \<lparr>os_text = [], os_left = False, os_fill = CHR '' '', os_width = 0, os_base = 10,
     os_showpos = False, os_showbase = False, os_upper = False\<rparr>"

type_synonym writer = "ostream \<Rightarrow> ostream"

definition emit :: "writer list \<Rightarrow> writer" where
  "emit ws = fold (\<lambda>w. w) ws"

definition padded :: "ostream \<Rightarrow> string \<Rightarrow> string" where
  "padded st s =
     (let pad = replicate (os_width st - length s) (os_fill st) in if os_left st then s @ pad else pad @ s)"

definition put :: "string \<Rightarrow> writer" where
  "put s st = st\<lparr>os_text := os_text st @ padded st s, os_width := 0\<rparr>"

text \<open>\<open>std::endl\<close> is not formatted.\<close>

definition put_endl :: writer where
  "put_endl st = st\<lparr>os_text := os_text st @ [chr_of 10]\<rparr>"

text \<open>The digits of a number in a base.\<close>

definition any_digit :: "bool \<Rightarrow> nat \<Rightarrow> char" where
  "any_digit upper d = (if d < 10 then chr_of (48 + d) else if upper then chr_of (55 + d) else chr_of (87 + d))"

function base_digits :: "nat \<Rightarrow> nat \<Rightarrow> nat list" where
  "base_digits b n = (if n < b \<or> b < 2 then [n] else base_digits b (n div b) @ [n mod b])"
  by auto
termination by (relation "measure snd") (auto intro: div_less_dividend)

declare base_digits.simps [simp del]

definition show_base :: "bool \<Rightarrow> nat \<Rightarrow> nat \<Rightarrow> string" where
  "show_base upper b n = map (any_digit upper) (base_digits b n)"

text \<open>\<open>os_showbase\<close> gives no prefix to a zero.\<close>

definition base_prefix :: "ostream \<Rightarrow> nat \<Rightarrow> string" where
  "base_prefix st n =
     (if \<not> os_showbase st \<or> n = 0 then []
      else if os_base st = 16 then (if os_upper st then ''0X'' else ''0x'')
      else if os_base st = 8 then ''0'' else [])"

definition put_unsigned :: "nat \<Rightarrow> writer" where
  "put_unsigned n st = put (base_prefix st n @ show_base (os_upper st) (os_base st) n) st"

text \<open>A signed number of \<open>w\<close> bits; in another base than 10 it is printed as an unsigned one.\<close>

definition put_signed :: "nat \<Rightarrow> int \<Rightarrow> writer" where
  "put_signed w i st =
     (if os_base st \<noteq> 10 then put_unsigned (nat (i mod 2 ^ w)) st
      else if i < 0 then put (CHR ''-'' # show_base False 10 (nat (- i))) st
      else put ((if os_showpos st then ''+'' else []) @ show_base False 10 (nat i)) st)"

definition with_width :: "nat \<Rightarrow> writer" where
  "with_width n st = st\<lparr>os_width := n\<rparr>"

definition with_left :: "bool \<Rightarrow> writer" where
  "with_left b st = st\<lparr>os_left := b\<rparr>"

definition with_fill :: "char \<Rightarrow> writer" where
  "with_fill c st = st\<lparr>os_fill := c\<rparr>"

fun separated :: "string \<Rightarrow> writer list \<Rightarrow> writer list" where
  "separated sep [] = []"
| "separated sep [w] = [w]"
| "separated sep (w # ws) = w # put sep # separated sep ws"

section \<open>Values\<close>

text \<open>\<open>Primitive\<close>. A double is its 64 bits, a timestamp its nanoseconds since the epoch.\<close>

datatype primitive =
    P_null
  | P_bool bool
  | P_int u64
  | P_uint u64
  | P_double u64
  | P_string string
  | P_array "primitive list"
  | P_buffer string
  | P_tuple "primitive list"
  | P_record "(string \<times> primitive) list"
  | P_symbolic string u64
  | P_timestamp int
  | P_duration u64

text \<open>\<open>Value\<close>; \<open>Stats\<close> holds a map or a primitive.\<close>

datatype histogram = Histogram (h_lower: "primitive option") (h_labels: "primitive list") (h_counts: "u64 list")

datatype out_value =
    O_primitive primitive
  | O_histogram histogram
  | O_list "out_value list"
  | O_map "(primitive \<times> out_value) list"
  | O_stats_map "(primitive \<times> out_value) list"
  | O_stats primitive
  | O_tseries "(int \<times> primitive) list"

text \<open>
  What the outputs leave to the library: a printed double and \<open>std::to_string\<close> of one, \<open>std::put_time\<close> of
  the local time of a second, a printed time point, the graph of a time series, and whether \<open>char\<close> is
  signed on the machine.
\<close>

record out_env =
  oe_double :: "u64 \<Rightarrow> string"
  oe_double_string :: "u64 \<Rightarrow> string"
  oe_put_time :: "string \<Rightarrow> int \<Rightarrow> string"
  oe_time_point :: "int \<Rightarrow> string"
  oe_graph :: "(int \<times> primitive) list \<Rightarrow> string"
  oe_signed_char :: bool

section \<open>Durations\<close>

datatype display_unit = Unit_ns | Unit_us | Unit_ms | Unit_s

definition duration_str :: "u64 \<Rightarrow> display_unit \<times> u64" where
  "duration_str count =
     (if 1000000000 \<le> count then (Unit_s, 1000000000)
      else if 1000000 \<le> count then (Unit_ms, 1000000)
      else if 1000 \<le> count then (Unit_us, 1000)
      else (Unit_ns, 1))"

fun unit_name :: "display_unit \<Rightarrow> string" where
  "unit_name Unit_ns = ''ns''"
| "unit_name Unit_ms = ''ms''"
| "unit_name Unit_us = [chr_of 206, chr_of 188] @ ''s''"
| "unit_name Unit_s = ''s''"

section \<open>Primitives as text\<close>

text \<open>\<open>time_point_cast\<close> rounds towards zero.\<close>

definition timestamp_text :: "out_env \<Rightarrow> string \<Rightarrow> display_unit \<Rightarrow> int \<Rightarrow> string" where
  "timestamp_text env fmt unit v =
     (let s = sgn v * (\<bar>v\<bar> div 1000000000);
          frac = v - s * 1000000000;
          part = (\<lambda>w n. CHR ''.'' # os_text (emit [with_width w, with_fill (CHR ''0''), put_signed 64 n] new_ostream))
      in oe_put_time env fmt s @
         (case unit of
            Unit_ns \<Rightarrow> part 9 frac
          | Unit_us \<Rightarrow> part 6 (sgn frac * (\<bar>frac\<bar> div 1000))
          | Unit_ms \<Rightarrow> part 3 (sgn frac * (\<bar>frac\<bar> div 1000000))
          | Unit_s \<Rightarrow> []))"

fun text_primitive :: "out_env \<Rightarrow> primitive \<Rightarrow> writer" where
  "text_primitive env P_null = put ''null''"
| "text_primitive env (P_bool b) = put (if b then ''true'' else ''false'')"
| "text_primitive env (P_int n) = put_signed 64 (sint n)"
| "text_primitive env (P_uint n) = put_unsigned (unat n)"
| "text_primitive env (P_double d) = put (oe_double env d)"
| "text_primitive env (P_string s) = put s"
| "text_primitive env (P_array vs) =
     emit ([put ''[''] @ separated '','' (map (text_primitive env) vs) @ [put '']''])"
| "text_primitive env (P_buffer buf) = put (hex_format_buffer buf True True)"
| "text_primitive env (P_tuple vs) =
     emit ([put ''(''] @ separated '', '' (map (text_primitive env) vs) @ [put '')''])"
| "text_primitive env (P_record fs) =
     (if fs = [] then put ''{}''
      else emit ([put ''{ ''] @
        separated '', '' (map (\<lambda>(key, v). emit [put ''.'', put key, put '' = '', text_primitive env v]) fs) @ [put '' }'']))"
| "text_primitive env (P_symbolic s n) = put s"
| "text_primitive env (P_timestamp t) = put (timestamp_text env ''%Y-%m-%dT%H:%M:%S'' Unit_ns t)"
| "text_primitive env (P_duration d) =
     (case duration_str d of (unit, scale) \<Rightarrow> emit [put_unsigned (unat (d div scale)), put (unit_name unit)])"

text \<open>\<open>operator<<\<close> of a primitive into a fresh \<open>std::stringstream\<close>.\<close>

definition primitive_string :: "out_env \<Rightarrow> primitive \<Rightarrow> string" where
  "primitive_string env p = os_text (text_primitive env p new_ostream)"

section \<open>Single precision\<close>

text \<open>
  The bars of a histogram are computed in \<open>float\<close>: numbers of 24 significant bits, rounded to the nearest
  and to even on a tie. Only natural numbers and quotients of them up to 1 arise, and no exponent comes near
  its limits.
\<close>

fun bit_len :: "nat \<Rightarrow> nat" where
  "bit_len n = (if n = 0 then 0 else Suc (bit_len (n div 2)))"

declare bit_len.simps [simp del]

definition round_even_div :: "nat \<Rightarrow> nat \<Rightarrow> nat" where
  "round_even_div n d =
     (let q = n div d; r = n mod d in if 2 * r < d \<or> 2 * r = d \<and> even q then q else q + 1)"

definition fl_nat :: "nat \<Rightarrow> nat" where
  "fl_nat n = (let k = bit_len n - 24 in round_even_div n (2 ^ k) * 2 ^ k)"

text \<open>\<open>a / b\<close> for \<open>0 < a \<le> b\<close>, as a numerator and the exponent of the power of two it is over.\<close>

definition fl_div :: "nat \<Rightarrow> nat \<Rightarrow> nat \<times> nat" where
  "fl_div a b =
     (let k = 24 + bit_len b - bit_len a;
          k = (if 2 ^ 24 \<le> a * 2 ^ k div b then k - 1 else k)
      in (round_even_div (a * 2 ^ k) b, k))"

text \<open>\<open>None\<close>: zero by zero is no number, which an \<open>int\<close> cannot hold.\<close>

definition bar_width :: "u64 \<Rightarrow> u64 \<Rightarrow> nat option" where
  "bar_width count max_value =
     (if max_value = 0 then None
      else if count = 0 then Some 0
      else case fl_div (fl_nat (unat count)) (fl_nat (unat max_value)) of
          (m, k) \<Rightarrow> Some (fl_nat (52 * m) div 2 ^ k))"

section \<open>Histograms\<close>

datatype out_stop = Out_throws | Out_undefined

type_synonym try_writer = "ostream \<Rightarrow> out_stop + ostream"

definition ok :: "writer \<Rightarrow> try_writer" where
  "ok w st = Inr (w st)"

fun try_all :: "try_writer list \<Rightarrow> try_writer" where
  "try_all [] st = Inr st"
| "try_all (w # ws) st = (case w st of Inl e \<Rightarrow> Inl e | Inr st' \<Rightarrow> try_all ws st')"

fun single_value :: "primitive \<Rightarrow> primitive \<Rightarrow> bool" where
  "single_value (P_uint a) (P_uint b) = (a + 1 = b)"
| "single_value (P_int a) (P_int b) = (a + 1 = b)"
| "single_value p q = False"

definition open_below :: "out_env \<Rightarrow> primitive \<Rightarrow> writer list" where
  "open_below env hi = [put ''(..., '', text_primitive env hi, put '')'']"

definition open_above :: "out_env \<Rightarrow> primitive \<Rightarrow> writer list" where
  "open_above env lo = [put ''['', text_primitive env lo, put '', ...)'']"

definition interval :: "out_env \<Rightarrow> primitive \<Rightarrow> primitive \<Rightarrow> writer list" where
  "interval env lo hi =
     (if single_value lo hi then [put ''['', text_primitive env lo, put '']'']
      else [put ''['', text_primitive env lo, put '', '', text_primitive env hi, put '')''])"

definition hist_header :: "out_env \<Rightarrow> histogram \<Rightarrow> nat \<Rightarrow> string" where
  "hist_header env h i =
     os_text (emit
       (if i = 0 then
          (case h_lower h of
             None \<Rightarrow> open_below env (h_labels h ! i)
           | Some lo \<Rightarrow> if h_labels h = [] then open_above env lo else interval env lo (h_labels h ! i))
        else if length (h_labels h) \<le> i then open_above env (h_labels h ! (i - 1))
        else interval env (h_labels h ! (i - 1)) (h_labels h ! i)) new_ostream)"

text \<open>
  One line of a histogram: \<open>counts.at(i)\<close> throws past the end. Two labels are read unchecked: the first
  one where there is no lower bound, and the one before a bucket that is not the first after the last label.
\<close>

definition hist_line :: "out_env \<Rightarrow> histogram \<Rightarrow> u64 \<Rightarrow> nat \<Rightarrow> try_writer" where
  "hist_line env h max_value i st =
     (if length (h_counts h) \<le> i then Inl Out_throws
      else case bar_width (h_counts h ! i) max_value of
          None \<Rightarrow> Inl Out_undefined
        | Some n \<Rightarrow>
            if h_labels h = [] \<and> h_lower h = None \<and> i = 0 \<or> 0 < i \<and> length (h_labels h) < i then Inl Out_undefined
            else Inr (emit [with_width 16, with_left True, put (hist_header env h i), with_width 8, with_left False,
              put_unsigned (unat (h_counts h ! i)), put '' |'', with_width 52, with_left True,
              put (replicate n (CHR ''@'')), put ''|'', put_endl] st))"

definition text_histogram :: "out_env \<Rightarrow> histogram \<Rightarrow> try_writer" where
  "text_histogram env h =
     try_all (map (hist_line env h (fold max (h_counts h) 0)) [0..<max (length (h_counts h)) (length (h_labels h))])"

section \<open>Values and maps\<close>

fun try_separated :: "string \<Rightarrow> try_writer list \<Rightarrow> try_writer list" where
  "try_separated sep [] = []"
| "try_separated sep [w] = [w]"
| "try_separated sep (w # ws) = w # ok (put sep) # try_separated sep ws"

fun text_value :: "out_env \<Rightarrow> out_value \<Rightarrow> try_writer" where
  "text_value env (O_primitive p) = ok (text_primitive env p)"
| "text_value env (O_histogram h) = text_histogram env h"
| "text_value env (O_list vs) =
     try_all ([ok (put ''['')] @ try_separated '','' (map (text_value env) vs) @ [ok (put '']'')])"
| "text_value env (O_map m) =
     try_all (map (\<lambda>(k, v). try_all [ok (put ''[''), ok (text_primitive env k), ok (put '']: ''), text_value env v, ok put_endl]) m)"
| "text_value env (O_stats_map m) =
     try_all (map (\<lambda>(k, v). try_all [ok (put ''[''), ok (text_primitive env k), ok (put '']: ''), text_value env v, ok put_endl]) m)"
| "text_value env (O_stats p) = ok (text_primitive env p)"
| "text_value env (O_tseries ts) = ok (if ts = [] then put ''<no data>'' else put (oe_graph env ts))"

text \<open>A key that is a tuple is printed without its parentheses.\<close>

definition strip_parens :: "string \<Rightarrow> string" where
  "strip_parens s =
     (if 2 \<le> length s \<and> hd s = CHR ''('' \<and> last s = CHR '')'' then butlast (tl s) else s)"

fun is_primitive :: "out_value \<Rightarrow> bool" where
  "is_primitive (O_primitive p) = True"
| "is_primitive v = False"

definition emit_map :: "out_env \<Rightarrow> string \<Rightarrow> (primitive \<times> out_value) list \<Rightarrow> try_writer" where
  "emit_map env name m =
     try_all (map (\<lambda>(k, v). try_all
       ([ok (put name), ok (put ''[''), ok (put (strip_parens (primitive_string env k)))] @
        (if is_primitive v then [ok (put '']: '')] else [ok (put '']:''), ok put_endl]) @
        [text_value env v, ok put_endl])) m)"

definition text_map :: "out_env \<Rightarrow> string \<Rightarrow> out_value \<Rightarrow> try_writer" where
  "text_map env name v =
     (case v of
        O_histogram h \<Rightarrow> try_all [ok (put name), ok (put '':''), ok put_endl, text_value env v, ok put_endl]
      | O_list vs \<Rightarrow> try_all [ok (put name), ok (put '':''), ok put_endl, text_value env v, ok put_endl]
      | O_tseries ts \<Rightarrow> try_all [ok (put name), ok (put '':''), ok put_endl, text_value env v, ok put_endl]
      | O_stats_map m \<Rightarrow> emit_map env name m
      | O_stats p \<Rightarrow> try_all [ok (put name), ok (put '': ''), ok (text_primitive env p), ok put_endl]
      | O_map m \<Rightarrow> emit_map env name m
      | O_primitive p \<Rightarrow> try_all [ok (put name), ok (put '': ''), text_value env v, ok put_endl])"

definition text_output_value :: "out_env \<Rightarrow> out_value \<Rightarrow> try_writer" where
  "text_output_value env v = try_all [text_value env v, ok put_endl]"

section \<open>Messages\<close>

definition text_lost_events :: "u64 \<Rightarrow> writer" where
  "text_lost_events lost = emit [put ''Lost '', put_unsigned (unat lost), put '' events'', put_endl]"

definition text_attached_probes :: "u64 \<Rightarrow> writer" where
  "text_attached_probes n =
     emit [put ''Attached '', put_unsigned (unat n), put (if n = 1 then '' probe'' else '' probes''), put_endl]"

definition colour :: "nat \<Rightarrow> string \<Rightarrow> string" where
  "colour code s = [chr_of 27, CHR ''[''] @ show_nat code @ ''m'' @ s @ [chr_of 27, CHR ''[''] @ ''0m ''"

definition test_or_tests :: "nat \<Rightarrow> string" where
  "test_or_tests n = (if n = 1 then ''test'' else ''tests'')"

definition text_test_result ::
  "string list \<Rightarrow> nat \<Rightarrow> u64 \<Rightarrow> bool list \<Rightarrow> string \<Rightarrow> writer" where
  "text_test_result all_tests index duration passed out =
     emit
       ((if index = 0 then [put (colour 32 ''[==========]''), put ''Running '', put_unsigned (length all_tests),
           put '' tests.'', put_endl] else []) @
        [put (colour 32 ''[ RUN      ]''), put (all_tests ! index), put_endl] @
        (if passed ! index then [put (colour 32 ''[       OK ]''), put (all_tests ! index)]
         else concat (map (\<lambda>line. [put line, put_endl]) (filter (\<lambda>l. l \<noteq> []) (split_string out (chr_of 10) False))) @
           [put (colour 31 ''[  FAILED  ]''), put (all_tests ! index)]) @
        (case duration_str duration of (unit, val) \<Rightarrow>
           [put '' ('', put_unsigned (unat val), put '' '', put (unit_name unit), put '')'', put_endl]) @
        (if index + 1 = length all_tests then
           let failed = length (filter Not passed); ok_count = length (filter id passed)
           in [put (colour 32 ''[==========]''), put_unsigned (length all_tests), put '' '',
               put (test_or_tests (length all_tests)), put '' ran.'', put_endl,
               put (colour 32 ''[  PASSED  ]''), put_unsigned ok_count, put '' '', put (test_or_tests ok_count),
               put ''.'', put_endl] @
              (if 0 < failed then
                 [put (colour 31 ''[  FAILED  ]''), put_unsigned failed, put '' '', put (test_or_tests failed),
                  put '', listed below:'', put_endl] @
                 concat (map (\<lambda>i. if passed ! i then []
                   else [put (colour 31 ''[  FAILED  ]''), put (all_tests ! i), put_endl]) [0..<length all_tests])
               else [])
         else []))"

definition text_benchmark_result :: "string list \<Rightarrow> nat \<Rightarrow> int \<Rightarrow> nat \<Rightarrow> writer" where
  "text_benchmark_result all_benches index average iters =
     (let longest = fold max (map length all_benches) 40;
          cell = (\<lambda>n w. [with_left True, with_width n, with_fill (CHR '' ''), w])
      in emit
        ((if index = 0 then
            cell (longest + 1) (put ''Benchmark'') @ cell 15 (put ''Time(ns)'') @
            [with_left True, put ''Iterations'', put_endl, put (replicate (longest + 1 + 15 + 10) (CHR ''-'')), put_endl]
          else []) @
         cell (longest + 1) (put (all_benches ! index)) @ cell 15 (put_signed 64 average) @
         [with_left True, put_unsigned iters, put_endl]))"

section \<open>Rounding\<close>

lemma bit_len_bounds: "0 < n \<Longrightarrow> 2 ^ (bit_len n - 1) \<le> n \<and> n < 2 ^ bit_len n \<and> 0 < bit_len n"
proof (induction n rule: bit_len.induct)
  case (1 n)
  show ?case
  proof (cases "n div 2 = 0")
    case True
    with 1 have "n = 1" by auto
    then show ?thesis by (simp add: bit_len.simps)
  next
    case False
    with 1 have IH: "2 ^ (bit_len (n div 2) - 1) \<le> n div 2" "n div 2 < 2 ^ bit_len (n div 2)" "0 < bit_len (n div 2)" by auto
    have "bit_len n = Suc (bit_len (n div 2))" using 1 by (subst bit_len.simps) simp
    moreover have "(2::nat) ^ bit_len (n div 2) = 2 * 2 ^ (bit_len (n div 2) - 1)"
      using IH(3) by (metis Suc_pred' power_Suc)
    moreover have "2 * (n div 2) \<le> n" "n < 2 * (n div 2) + 2" by simp_all
    ultimately show ?thesis using IH by (simp only: diff_Suc_1 zero_less_Suc power_Suc simp_thms) linarith
  qed
qed

lemma bit_len_0 [simp]: "bit_len 0 = 0"
  by (simp add: bit_len.simps)

lemma bit_len_less: "n < 2 ^ bit_len n"
  using bit_len_bounds [of n] by (cases "n = 0") auto

lemma bit_len_mono: "n \<le> m \<Longrightarrow> bit_len n \<le> bit_len m"
proof (rule ccontr)
  assume le: "n \<le> m" and "\<not> bit_len n \<le> bit_len m"
  then have lt: "bit_len m \<le> bit_len n - 1" and pos: "0 < n" by (auto intro: gr0I)
  have "m < 2 ^ bit_len m" by (rule bit_len_less)
  also have "\<dots> \<le> 2 ^ (bit_len n - 1)" using lt by simp
  also have "\<dots> \<le> n" using bit_len_bounds [OF pos] by simp
  finally show False using le by simp
qed

lemma bit_len_power: "0 < n \<Longrightarrow> bit_len (n * 2 ^ k) = bit_len n + k"
proof (induction k)
  case (Suc k)
  have "n * 2 ^ Suc k div 2 = n * 2 ^ k" by simp
  with Suc show ?case by (subst bit_len.simps) simp
qed simp

lemma round_even_div_le: "n \<le> x * d \<Longrightarrow> round_even_div n d \<le> x"
proof -
  assume le: "n \<le> x * d"
  show ?thesis
  proof (cases "d = 0")
    case False
    then have q: "n div d \<le> x" using le by (metis div_le_mono div_mult_self_is_m neq0_conv)
    have "n mod d = 0" if "n div d = x"
    proof -
      have "n = x * d + n mod d" using that by (metis div_mult_mod_eq)
      with le show ?thesis by simp
    qed
    with q False show ?thesis by (cases "n div d = x") (auto simp: round_even_div_def Let_def)
  qed (use le in \<open>simp add: round_even_div_def\<close>)
qed

lemma round_even_div_ge: "0 < d \<Longrightarrow> x * d \<le> n \<Longrightarrow> x \<le> round_even_div n d"
proof -
  assume "0 < d" "x * d \<le> n"
  then have "x \<le> n div d" by (metis div_le_mono div_mult_self_is_m)
  then show ?thesis by (auto simp: round_even_div_def Let_def)
qed

lemma round_even_div_exact [simp]: "0 < d \<Longrightarrow> round_even_div (x * d) d = x"
  by (simp add: round_even_div_def)

lemma round_even_div_mono:
  assumes "0 < d" "n \<le> m"
  shows "round_even_div n d \<le> round_even_div m d"
proof (cases "n div d = m div d")
  case True
  have "n = n div d * d + n mod d" "m = n div d * d + m mod d"
    using div_mult_mod_eq [of n d] div_mult_mod_eq [of m d] True by metis+
  with assms(2) have "n mod d \<le> m mod d" by linarith
  with True show ?thesis by (auto simp: round_even_div_def Let_def)
next
  case False
  with assms have lt: "n div d < m div d" by (meson div_le_mono le_neq_implies_less)
  have "(n div d + 1) * d = n div d * d + d" by (simp add: distrib_right)
  with div_mult_mod_eq [of n d] mod_less_divisor [OF assms(1), of n] have "n \<le> (n div d + 1) * d" by linarith
  then have "round_even_div n d \<le> n div d + 1" by (rule round_even_div_le)
  also have "\<dots> \<le> m div d" using lt by simp
  also have "\<dots> \<le> round_even_div m d" by (auto simp: round_even_div_def Let_def)
  finally show ?thesis .
qed

lemma fl_nat_exact:
  assumes "n < 2 ^ 24"
  shows "fl_nat (n * 2 ^ k) = n * 2 ^ k"
proof (cases "n = 0")
  case False
  let ?j = "bit_len (n * 2 ^ k) - 24"
  have "bit_len n \<le> 24"
  proof (rule ccontr)
    assume "\<not> bit_len n \<le> 24"
    then have "(2::nat) ^ 24 \<le> 2 ^ (bit_len n - 1)" by (intro power_increasing) auto
    with bit_len_bounds [of n] False assms show False by simp
  qed
  then have "?j \<le> k" using False by (simp add: bit_len_power)
  then have "n * 2 ^ k = (n * 2 ^ (k - ?j)) * 2 ^ ?j" by (simp add: mult.assoc flip: power_add)
  then show ?thesis unfolding fl_nat_def Let_def by (metis round_even_div_exact zero_less_numeral zero_less_power)
qed (simp add: fl_nat_def round_even_div_def)

lemma fl_nat_mono:
  assumes "n \<le> m"
  shows "fl_nat n \<le> fl_nat m"
proof (cases "bit_len n = bit_len m")
  case True
  then show ?thesis using assms by (simp add: fl_nat_def Let_def round_even_div_mono)
next
  case False
  with bit_len_mono [OF assms] have lt: "bit_len n < bit_len m" by simp
  then have m: "0 < m" by (auto intro: gr0I)
  have "fl_nat n \<le> 2 ^ bit_len n"
  proof -
    let ?k = "bit_len n - 24"
    have "(2::nat) ^ bit_len n = 2 ^ (bit_len n - ?k) * 2 ^ ?k" by (simp flip: power_add)
    then have "n \<le> 2 ^ (bit_len n - ?k) * 2 ^ ?k" using bit_len_less [of n] by simp
    from round_even_div_le [OF this] have "fl_nat n \<le> 2 ^ (bit_len n - ?k) * 2 ^ ?k" by (simp add: fl_nat_def Let_def)
    then show ?thesis by (simp flip: power_add)
  qed
  also have "\<dots> \<le> (2::nat) ^ (bit_len m - 1)" using lt by (intro power_increasing) auto
  also have "\<dots> \<le> fl_nat m"
  proof -
    let ?k = "bit_len m - 24"
    have "?k \<le> bit_len m - 1" using bit_len_bounds [OF m] by linarith
    then have e: "(2::nat) ^ (bit_len m - 1) = 2 ^ (bit_len m - 1 - ?k) * 2 ^ ?k" by (simp flip: power_add)
    then have "2 ^ (bit_len m - 1 - ?k) * 2 ^ ?k \<le> m" using bit_len_bounds [OF m] by simp
    from round_even_div_ge [OF _ this] have "2 ^ (bit_len m - 1 - ?k) * 2 ^ ?k \<le> fl_nat m"
      by (simp add: fl_nat_def Let_def)
    with e show ?thesis by simp
  qed
  finally show ?thesis .
qed

lemma fl_nat_pos: "0 < n \<Longrightarrow> 0 < fl_nat n"
  using fl_nat_mono [of 1 n] fl_nat_exact [of 1 0] by simp

lemma fl_div_le: "a \<le> b \<Longrightarrow> fl_div a b = (m, k) \<Longrightarrow> m \<le> 2 ^ k"
  by (auto simp: fl_div_def Let_def mult.commute split: if_splits intro!: round_even_div_le)

lemma fl_div_self:
  assumes "0 < a"
  shows "fl_div a a = (2 ^ 23, 23)"
proof -
  have "round_even_div (a * 2 ^ 23) a = 2 ^ 23" using round_even_div_exact [OF assms, of "2 ^ 23"] by (simp add: mult.commute)
  with assms show ?thesis by (simp add: fl_div_def)
qed

lemma bar_width_total:
  assumes "count \<le> max_value" "max_value \<noteq> 0"
  shows "\<exists>n \<le> 52. bar_width count max_value = Some n"
proof (cases "count = 0")
  case False
  obtain m k where mk: "fl_div (fl_nat (unat count)) (fl_nat (unat max_value)) = (m, k)" by fastforce
  have "unat count \<le> unat max_value" using assms(1) by (simp add: word_le_nat_alt)
  then have "m \<le> 2 ^ k" using fl_div_le [OF fl_nat_mono mk] by simp
  then have "fl_nat (52 * m) \<le> fl_nat (52 * 2 ^ k)" by (intro fl_nat_mono) simp
  also have "\<dots> = 52 * 2 ^ k" by (rule fl_nat_exact) simp
  finally have "fl_nat (52 * m) div 2 ^ k \<le> 52" by (metis div_le_mono div_mult_self_is_m zero_less_numeral zero_less_power)
  with False assms mk show ?thesis by (simp add: bar_width_def)
qed (use assms in \<open>simp add: bar_width_def\<close>)

text \<open>a bar of a histogram stays inside its frame: with the counts at most the largest one, which is not
  zero, the width computed in single precision exists and is at most 52, and the largest count fills it.\<close>

theorem bar_width_bounds:
  assumes "count \<le> max_value" "max_value \<noteq> 0"
  shows "(\<exists>n \<le> 52. bar_width count max_value = Some n) \<and> bar_width max_value max_value = Some 52"
proof
  show "\<exists>n \<le> 52. bar_width count max_value = Some n" using assms by (rule bar_width_total)
  have "0 < fl_nat (unat max_value)" using assms(2) by (intro fl_nat_pos) (simp add: unat_gt_0)
  from fl_div_self [OF this] have "bar_width max_value max_value = Some (fl_nat (52 * 2 ^ 23) div 2 ^ 23)"
    using assms(2) by (simp add: bar_width_def)
  also have "fl_nat (52 * 2 ^ 23) = 52 * 2 ^ 23" by (rule fl_nat_exact) simp
  finally show "bar_width max_value max_value = Some 52" by simp
qed

theorem bar_width_bounds_witness: "bar_width 7 7 = Some 52"
  using bar_width_bounds [of 3 7] by simp

section \<open>A histogram is printed\<close>

definition hist_ok :: "histogram \<Rightarrow> bool" where
  "hist_ok h \<longleftrightarrow> length (h_labels h) \<le> length (h_counts h) \<and> length (h_counts h) \<le> length (h_labels h) + 1 \<and>
     (\<exists>c\<in>set (h_counts h). c \<noteq> 0) \<and> (h_lower h \<noteq> None \<or> h_labels h \<noteq> [])"

text \<open>A line whose bar stays in its frame.\<close>

definition framed :: "char \<Rightarrow> string \<Rightarrow> bool" where
  "framed fill line \<longleftrightarrow>
     (\<exists>pre n. n \<le> 52 \<and> line = pre @ '' |'' @ replicate n (CHR ''@'') @ replicate (52 - n) fill @ ''|'' @ [chr_of 10])"

lemma fold_max_upper: "x \<in> set xs \<union> {a} \<Longrightarrow> x \<le> fold max xs (a :: u64)"
proof (induction xs arbitrary: a)
  case (Cons y ys)
  have le: "b \<le> fold max ys b" for b :: u64
    by (induction ys arbitrary: b) (auto intro: order_trans [OF max.cobounded2])
  have "y \<le> fold max ys (max y a)" "a \<le> fold max ys (max y a)"
    by (rule order_trans [OF max.cobounded1 le], rule order_trans [OF max.cobounded2 le])
  with Cons show ?case by auto
qed simp

lemma hist_line_printed:
  assumes h: "hist_ok h" and i: "i < length (h_counts h)" and mx: "mx = fold max (h_counts h) 0"
  shows "\<exists>st' line. hist_line env h mx i st = Inr st' \<and> os_text st' = os_text st @ line \<and> framed (os_fill st) line
    \<and> os_fill st' = os_fill st"
proof -
  have "h_counts h ! i \<le> mx" using i fold_max_upper [of "h_counts h ! i" "h_counts h" 0] by (simp add: mx)
  moreover have "mx \<noteq> 0"
  proof -
    from h obtain c where c: "c \<in> set (h_counts h)" "c \<noteq> 0" by (auto simp: hist_ok_def)
    then show ?thesis using fold_max_upper [of c "h_counts h" 0] by (auto simp: mx word_gt_0 [symmetric])
  qed
  ultimately obtain n where n: "bar_width (h_counts h ! i) mx = Some n" "n \<le> 52" using bar_width_total by blast
  have "\<not> (h_labels h = [] \<and> h_lower h = None \<and> i = 0 \<or> 0 < i \<and> length (h_labels h) < i)"
    using h i by (auto simp: hist_ok_def)
  moreover define st1 where "st1 = emit [with_width 16, with_left True, put (hist_header env h i), with_width 8,
      with_left False, put_unsigned (unat (h_counts h ! i))] st"
  ultimately have line: "hist_line env h mx i st = Inr (emit [put '' |'', with_width 52, with_left True,
      put (replicate n (CHR ''@'')), put ''|'', put_endl] st1)"
    using i n by (simp add: hist_line_def emit_def)
  obtain pre where st1: "os_text st1 = os_text st @ pre" "os_fill st1 = os_fill st" "os_width st1 = 0"
    by (simp add: st1_def emit_def put_def put_unsigned_def with_width_def with_left_def)
  have "framed (os_fill st) (pre @ '' |'' @ replicate n (CHR ''@'') @ replicate (52 - n) (os_fill st) @ ''|'' @ [chr_of 10])"
    using n(2) unfolding framed_def by blast
  with st1 line show ?thesis
    by (auto simp: emit_def put_def put_endl_def with_width_def with_left_def padded_def Let_def)
qed

lemma hist_lines_printed:
  assumes h: "hist_ok h" and "mx = fold max (h_counts h) 0" "set is \<subseteq> {..<length (h_counts h)}"
  shows "\<exists>st' lines. try_all (map (hist_line env h mx) is) st = Inr st' \<and> os_text st' = os_text st @ concat lines \<and>
    length lines = length is \<and> (\<forall>line\<in>set lines. framed (os_fill st) line)"
  using assms(3)
proof (induction "is" arbitrary: st)
  case (Cons i "is")
  obtain st1 line where 1: "hist_line env h mx i st = Inr st1" "os_text st1 = os_text st @ line" "framed (os_fill st) line"
    "os_fill st1 = os_fill st"
    using hist_line_printed [OF h _ assms(2), of i env st] Cons.prems by auto
  obtain st2 lines where 2: "try_all (map (hist_line env h mx) is) st1 = Inr st2" "os_text st2 = os_text st1 @ concat lines"
    "length lines = length is" "\<forall>line\<in>set lines. framed (os_fill st1) line"
    using Cons.IH [of st1] Cons.prems by auto
  show ?case using 1 2 by (intro exI [of _ st2] exI [of _ "line # lines"]) simp
qed simp

lemma text_histogram_lines:
  assumes "hist_ok h"
  shows "\<exists>st' lines. text_histogram env h st = Inr st' \<and> os_text st' = os_text st @ concat lines \<and>
    length lines = length (h_counts h) \<and> (\<forall>line\<in>set lines. framed (os_fill st) line)"
proof -
  have "max (length (h_counts h)) (length (h_labels h)) = length (h_counts h)" using assms by (simp add: hist_ok_def)
  moreover have "set [0..<length (h_counts h)] \<subseteq> {..<length (h_counts h)}" by auto
  ultimately show ?thesis using hist_lines_printed [OF assms refl, of "[0..<length (h_counts h)]" env st]
    by (simp add: text_histogram_def)
qed

text \<open>a histogram with a label for each bucket but the last, and some count, is printed: no access goes past
  the end, and there is one line for each bucket, with a bar that stays inside its frame.\<close>

theorem histogram_printed:
  assumes "hist_ok h"
  shows "\<exists>st' lines. text_histogram env h st = Inr st' \<and> os_text st' = os_text st @ concat lines \<and>
    length lines = length (h_counts h) \<and> (\<forall>line\<in>set lines. framed (os_fill st) line)"
  using assms by (rule text_histogram_lines)

definition plain_env :: out_env where
  "plain_env = \<lparr>oe_double = (\<lambda>_. []), oe_double_string = (\<lambda>_. []), oe_put_time = (\<lambda>_ _. []), oe_time_point = (\<lambda>_. []),
     oe_graph = (\<lambda>_. []), oe_signed_char = True\<rparr>"

theorem histogram_printed_witness:
  "\<exists>st'. text_histogram plain_env (Histogram None [P_int 0, P_int 1] [3, 5]) new_ostream = Inr st'"
  using histogram_printed [of "Histogram None [P_int 0, P_int 1] [3, 5]" plain_env new_ostream] by (auto simp: hist_ok_def)

text \<open>A histogram whose counts are all zero, as the division in a \<open>print\<close> can leave them, has no width for its bars.\<close>

lemma empty_histogram_undefined:
  "text_histogram env (Histogram None [P_int 0] [0]) st = Inl Out_undefined"
  by (simp add: text_histogram_def hist_line_def bar_width_def)

text \<open>The time of a test is printed as the scale of its unit.\<close>

lemma test_result_prints_scale:
  "duration_str 5000000 = (Unit_ms, 1000000) \<and>
   text_test_result ts i 5000000 ps out = text_test_result ts i 7000000 ps out"
  by (simp add: text_test_result_def duration_str_def)

end
