(* ===== verification/Json_Output.thy ===== *)
theory Json_Output
  imports Output
begin

text \<open>
  The JSON output, \<open>src/output/json.cpp\<close>: what it prints for values, maps and messages; when that is
  JSON; and what the state of the stream does to it.
\<close>

section \<open>Strings and numbers\<close>

text \<open>A \<open>char\<close> as an \<open>int\<close>.\<close>

definition char_int :: "bool \<Rightarrow> char \<Rightarrow> int" where
  "char_int signed_char c =
     (if signed_char \<and> 128 \<le> char_code c then int (char_code c) - 256 else int (char_code c))"

text \<open>The manipulators of a control character stay set after it, but for the width.\<close>

definition put_hex4 :: "int \<Rightarrow> writer" where
  "put_hex4 i =
     emit [put [CHR 0x5C, CHR ''u''], (\<lambda>st. st\<lparr>os_base := 16\<rparr>), with_width 4, with_fill (CHR ''0''), put_signed 32 i]"

definition json_char :: "out_env \<Rightarrow> char \<Rightarrow> writer" where
  "json_char env c =
     (if c = CHR 0x22 then put [CHR 0x5C, CHR 0x22]
      else if c = CHR 0x5C then put [CHR 0x5C, CHR 0x5C]
      else if c = chr_of 10 then put [CHR 0x5C, CHR ''n'']
      else if c = chr_of 13 then put [CHR 0x5C, CHR ''r'']
      else if c = chr_of 9 then put [CHR 0x5C, CHR ''t'']
      else if char_int (oe_signed_char env) c \<le> 31 then put_hex4 (char_int (oe_signed_char env) c)
      else put [c])"

definition json_string :: "out_env \<Rightarrow> string \<Rightarrow> writer" where
  "json_string env s = emit ([put [CHR 0x22]] @ map (json_char env) s @ [put [CHR 0x22]])"

text \<open>
  Whether a number is a double. Near the top of the range the conversion back is undefined in C++; such a
  number is no double, and is taken as one that the test fails on.
\<close>

fun odd_part :: "nat \<Rightarrow> nat" where
  "odd_part n = (if n = 0 \<or> odd n then n else odd_part (n div 2))"

declare odd_part.simps [simp del]

definition is_double :: "int \<Rightarrow> bool" where
  "is_double i \<longleftrightarrow> odd_part (nat \<bar>i\<bar>) < 2 ^ 53"

definition json_number :: "out_env \<Rightarrow> int \<Rightarrow> writer" where
  "json_number env i = (if is_double i then put (show_int i) else json_string env (show_int i))"

section \<open>Values\<close>

fun json_primitive :: "out_env \<Rightarrow> primitive \<Rightarrow> writer" where
  "json_primitive env P_null = put ''null''"
| "json_primitive env (P_bool b) = put (if b then ''true'' else ''false'')"
| "json_primitive env (P_int n) = json_number env (sint n)"
| "json_primitive env (P_uint n) = json_number env (uint n)"
| "json_primitive env (P_double d) = put (oe_double_string env d)"
| "json_primitive env (P_string s) = json_string env s"
| "json_primitive env (P_array vs) =
     emit ([put ''[''] @ separated '','' (map (json_primitive env) vs) @ [put '']''])"
| "json_primitive env (P_buffer buf) =
     emit ([put ''[''] @ separated '','' (map (\<lambda>c. json_number env (char_int (oe_signed_char env) c)) buf) @ [put '']''])"
| "json_primitive env (P_tuple vs) =
     emit ([put ''[''] @ separated '','' (map (json_primitive env) vs) @ [put '']''])"
| "json_primitive env (P_record fs) =
     emit ([put ''{''] @
       separated '', '' (map (\<lambda>(key, v). emit [json_string env key, put '': '', json_primitive env v]) fs) @ [put ''}''])"
| "json_primitive env (P_symbolic s n) = json_number env (uint n)"
| "json_primitive env (P_timestamp t) = json_string env (oe_time_point env t)"
| "json_primitive env (P_duration d) = json_string env (show_nat (unat d) @ ''ns'')"

fun one_less :: "primitive \<Rightarrow> int option" where
  "one_less (P_symbolic s n) = (if n = 0 then Some (- 1) else Some (sint (n - 1)))"
| "one_less (P_int n) = Some (sint (n - 1))"
| "one_less (P_uint n) = (if n = 0 then Some (- 1) else Some (sint (n - 1)))"
| "one_less p = None"

text \<open>The count is written to the stream as it is, in the base that is set. Labels are read unchecked.\<close>

definition json_bucket :: "out_env \<Rightarrow> histogram \<Rightarrow> nat \<Rightarrow> try_writer" where
  "json_bucket env h i st =
     (if 0 < i \<and> length (h_labels h) < i then Inl Out_undefined
      else Inr (emit
        ([put ''{''] @
         (if i = 0 then
            (case h_lower h of
               None \<Rightarrow> []
             | Some lo \<Rightarrow> [put ([CHR 0x22] @ ''min'' @ [CHR 0x22] @ '': ''), json_primitive env lo, put '', ''])
          else [put ([CHR 0x22] @ ''min'' @ [CHR 0x22] @ '': ''), json_primitive env (h_labels h ! (i - 1)), put '', '']) @
         (if i < length (h_labels h) then
            [put ([CHR 0x22] @ ''max'' @ [CHR 0x22] @ '': ''),
             (case one_less (h_labels h ! i) of
                Some v \<Rightarrow> json_number env v
              | None \<Rightarrow> json_primitive env (h_labels h ! i)),
             put '', '']
          else []) @
         [put ([CHR 0x22] @ ''count'' @ [CHR 0x22] @ '': ''), put_unsigned (unat (h_counts h ! i)), put ''}'']) st))"

definition json_histogram :: "out_env \<Rightarrow> histogram \<Rightarrow> try_writer" where
  "json_histogram env h =
     try_all ([ok (put ''['')] @ try_separated '','' (map (json_bucket env h) [0..<length (h_counts h)]) @ [ok (put '']'')])"

text \<open>The key of a map as a string.\<close>

definition json_key :: "out_env \<Rightarrow> primitive \<Rightarrow> string" where
  "json_key env k = filter (\<lambda>c. c \<noteq> CHR '' '') (strip_parens (primitive_string env k))"

text \<open>The values of a time series are written as text.\<close>

definition json_tseries :: "out_env \<Rightarrow> (int \<times> primitive) list \<Rightarrow> writer" where
  "json_tseries env ts =
     emit ([put ''[''] @
       separated '','' (map (\<lambda>(t, v). emit
         [put (''{'' @ [CHR 0x22] @ ''interval_start'' @ [CHR 0x22] @ '':'' @ [CHR 0x22]), put (oe_time_point env t),
          put ([CHR 0x22] @ '','' @ [CHR 0x22] @ ''value'' @ [CHR 0x22] @ '':''), text_primitive env v, put ''}''])
         (filter (\<lambda>(t, v). v \<noteq> P_null) ts)) @
       [put '']''])"

fun json_value :: "out_env \<Rightarrow> out_value \<Rightarrow> try_writer" where
  "json_value env (O_primitive p) = ok (json_primitive env p)"
| "json_value env (O_histogram h) = json_histogram env h"
| "json_value env (O_list vs) =
     try_all ([ok (put ''['')] @ try_separated '','' (map (json_value env) vs) @ [ok (put '']'')])"
| "json_value env (O_map m) =
     try_all ([ok (put ''{'')] @
       try_separated '', '' (map (\<lambda>(k, v). try_all [ok (json_string env (json_key env k)), ok (put '': ''), json_value env v]) m) @
       [ok (put ''}'')])"
| "json_value env (O_stats_map m) =
     try_all ([ok (put ''{'')] @
       try_separated '', '' (map (\<lambda>(k, v). try_all [ok (json_string env (json_key env k)), ok (put '': ''), json_value env v]) m) @
       [ok (put ''}'')])"
| "json_value env (O_stats p) = ok (json_primitive env p)"
| "json_value env (O_tseries ts) = ok (json_tseries env ts)"

section \<open>Messages\<close>

definition quoted :: "string \<Rightarrow> string" where
  "quoted s = [CHR 0x22] @ s @ [CHR 0x22]"

definition emit_data :: "out_env \<Rightarrow> string \<Rightarrow> string option \<Rightarrow> try_writer \<Rightarrow> try_writer" where
  "emit_data env type name w =
     try_all
       ([ok (put (''{'' @ quoted ''type'' @ '': '' @ [CHR 0x22])), ok (put type),
         ok (put ([CHR 0x22] @ '', '' @ quoted ''data'' @ '': ''))] @
        (case name of None \<Rightarrow> [] | Some n \<Rightarrow> [ok (put ''{''), ok (json_string env n), ok (put '': '')]) @
        [w] @ (case name of None \<Rightarrow> [] | Some n \<Rightarrow> [ok (put ''}'')]) @ [ok (put ''}''), ok put_endl])"

text \<open>\<open>has_type\<close> looks at the first value of a vector or a map.\<close>

fun has_type :: "(out_value \<Rightarrow> bool) \<Rightarrow> out_value \<Rightarrow> bool" where
  "has_type P (O_list (v # vs)) = (P (O_list (v # vs)) \<or> has_type P v)"
| "has_type P (O_map ((k, v) # m)) = (P (O_map ((k, v) # m)) \<or> has_type P v)"
| "has_type P v = P v"

fun is_stats :: "out_value \<Rightarrow> bool" where
  "is_stats (O_stats_map m) = True"
| "is_stats (O_stats p) = True"
| "is_stats v = False"

fun is_tseries :: "out_value \<Rightarrow> bool" where
  "is_tseries (O_tseries ts) = True"
| "is_tseries v = False"

fun is_histogram :: "out_value \<Rightarrow> bool" where
  "is_histogram (O_histogram h) = True"
| "is_histogram v = False"

definition json_map :: "out_env \<Rightarrow> string \<Rightarrow> out_value \<Rightarrow> try_writer" where
  "json_map env name v =
     (if v = O_map [] then ok id
      else emit_data env
        (if has_type is_stats v then ''stats'' else if has_type is_tseries v then ''tseries''
         else if has_type is_histogram v then ''hist'' else ''map'') (Some name) (json_value env v))"

definition json_output_value :: "out_env \<Rightarrow> out_value \<Rightarrow> try_writer" where
  "json_output_value env v = emit_data env ''value'' None (json_value env v)"

text \<open>\<open>printf\<close> without a severity, \<open>time\<close>, \<open>cat\<close>, \<open>join\<close> and \<open>syscall\<close>, which differ in the type only.\<close>

definition json_message :: "out_env \<Rightarrow> string \<Rightarrow> string \<Rightarrow> try_writer" where
  "json_message env type s = emit_data env type None (ok (json_string env s))"

definition json_count :: "string \<Rightarrow> string \<Rightarrow> u64 \<Rightarrow> writer" where
  "json_count type unit n =
     emit [put (''{'' @ quoted ''type'' @ '': '' @ quoted type @ '', '' @ quoted ''count'' @ '': ''), put_unsigned (unat n),
           put ('', '' @ quoted ''data'' @ '': {'' @ quoted unit @ '': ''), put_unsigned (unat n), put ''}}'', put_endl]"

definition json_lost_events :: "u64 \<Rightarrow> writer" where
  "json_lost_events n = json_count ''lost_events'' ''events'' n"

definition json_attached_probes :: "u64 \<Rightarrow> writer" where
  "json_attached_probes n = json_count ''attached_probes'' ''probes'' n"

definition json_test_result :: "out_env \<Rightarrow> string list \<Rightarrow> nat \<Rightarrow> u64 \<Rightarrow> bool list \<Rightarrow> string \<Rightarrow> try_writer" where
  "json_test_result env all_tests index duration passed out =
     emit_data env ''test_result'' (Some (all_tests ! index))
       (ok (json_primitive env (P_record
         [(''duration'', P_int duration), (''passed'', P_bool (passed ! index)), (''output'', P_string out)])))"

definition json_benchmark_result :: "out_env \<Rightarrow> string list \<Rightarrow> nat \<Rightarrow> u64 \<Rightarrow> u64 \<Rightarrow> try_writer" where
  "json_benchmark_result env all_benches index average iters =
     emit_data env ''benchmark_result'' (Some (all_benches ! index))
       (ok (json_primitive env (P_record [(''average'', P_int average), (''iters'', P_uint iters)])))"

section \<open>JSON\<close>

text \<open>
  Texts of RFC 8259, as many of them as are needed: after a comma or a colon there may be one space, and
  numbers are integers. A string is given by what a reader takes from it, its characters and the code units of
  its escapes.
\<close>

fun joined :: "string \<Rightarrow> string list \<Rightarrow> string" where
  "joined sep [] = []"
| "joined sep [x] = x"
| "joined sep (x # xs) = x @ sep @ joined sep xs"

definition is_hex :: "char \<Rightarrow> bool" where
  "is_hex c \<longleftrightarrow> is_digit c \<or> 97 \<le> char_code c \<and> char_code c \<le> 102"

definition hex_unit :: "string \<Rightarrow> (nat \<times> string) option" where
  "hex_unit s =
     (if 4 \<le> length s \<and> list_all is_hex (take 4 s)
      then Some (foldl (\<lambda>n h. 16 * n + hex_value h) 0 (take 4 s), drop 4 s) else None)"

definition json_item :: "string \<Rightarrow> (nat \<times> string) option" where
  "json_item s =
     (case s of
        [] \<Rightarrow> None
      | c # r \<Rightarrow>
          if char_code c < 32 \<or> c = CHR 0x22 then None
          else if c \<noteq> CHR 0x5C then Some (char_code c, r)
          else (case r of
              [] \<Rightarrow> None
            | e # u \<Rightarrow>
                if e = CHR 0x22 \<or> e = CHR 0x5C then Some (char_code e, u)
                else if e = CHR ''n'' then Some (10, u)
                else if e = CHR ''r'' then Some (13, u)
                else if e = CHR ''t'' then Some (9, u)
                else if e = CHR ''u'' then hex_unit u
                else None))"

lemma hex_unit_shorter: "hex_unit s = Some (n, r) \<Longrightarrow> length r < length s"
  by (auto simp: hex_unit_def split: if_splits)

lemma json_item_shorter: "json_item s = Some (n, r) \<Longrightarrow> length r < length s"
  by (auto simp: json_item_def split: list.splits if_splits dest: hex_unit_shorter)

function json_decode :: "string \<Rightarrow> nat list option" where
  "json_decode s =
     (if s = [] then Some []
      else case json_item s of None \<Rightarrow> None | Some (n, r) \<Rightarrow> map_option ((#) n) (json_decode r))"
  by auto
termination by (relation "measure length") (auto simp: json_item_shorter)

declare json_decode.simps [simp del]

definition json_chars :: "string \<Rightarrow> bool" where
  "json_chars s \<longleftrightarrow> json_decode s \<noteq> None"

definition json_nat :: "string \<Rightarrow> bool" where
  "json_nat s \<longleftrightarrow> s \<noteq> [] \<and> list_all is_digit s \<and> (hd s = CHR ''0'' \<longrightarrow> s = ''0'')"

inductive json :: "string \<Rightarrow> bool" and json_member :: "string \<Rightarrow> bool" where
  json_null: "json ''null''"
| json_true: "json ''true''"
| json_false: "json ''false''"
| json_pos: "json_nat s \<Longrightarrow> json s"
| json_neg: "json_nat s \<Longrightarrow> json (CHR ''-'' # s)"
| json_str: "json_chars s \<Longrightarrow> json (quoted s)"
| json_array: "\<forall>x\<in>set xs. json x \<Longrightarrow> json (''['' @ joined '','' xs @ '']'')"
| json_object: "\<forall>x\<in>set xs. json_member x \<Longrightarrow> json (''{'' @ joined '', '' xs @ ''}'')"
| json_pair: "json_chars k \<Longrightarrow> json v \<Longrightarrow> json_member (quoted k @ '': '' @ v)"

lemma json_decode_Nil [simp]: "json_decode [] = Some []"
  by (simp add: json_decode.simps)

lemma hex_unit_append: "hex_unit s = Some (n, r) \<Longrightarrow> hex_unit (s @ t) = Some (n, r @ t)"
  by (auto simp: hex_unit_def split: if_splits)

lemma json_decode_item:
  "json_item s = Some (n, r) \<Longrightarrow> json_decode s = map_option ((#) n) (json_decode r)"
  by (cases "s = []") (simp add: json_item_def, simp add: json_decode.simps [of s])

lemma json_item_append:
  assumes "json_item s = Some (n, r)"
  shows "json_item (s @ t) = Some (n, r @ t)"
proof (cases s)
  case (Cons c u)
  then show ?thesis
    using assms by (cases u) (auto simp add: json_item_def hex_unit_append split: if_split_asm)
qed (use assms in \<open>simp add: json_item_def\<close>)

lemma json_decode_append:
  "json_decode s = Some ns \<Longrightarrow> json_decode (s @ t) = map_option ((@) ns) (json_decode t)"
proof (induction s arbitrary: ns rule: json_decode.induct)
  case (1 s)
  show ?case
  proof (cases "s = []")
    case True
    with 1 show ?thesis by (simp add: option.map_ident)
  next
    case False
    with "1.prems" obtain n r ms where it: "json_item s = Some (n, r)" and d: "json_decode r = Some ms" and ns: "ns = n # ms"
      by (subst (asm) json_decode.simps) (auto split: option.splits)
    have "json_decode (s @ t) = map_option ((#) n) (json_decode (r @ t))"
      using False json_item_append [OF it] by (subst json_decode.simps) simp
    also have "json_decode (r @ t) = map_option ((@) ms) (json_decode t)" using "1.IH" [OF False it _ d] by simp
    finally show ?thesis by (simp add: ns option.map_comp comp_def)
  qed
qed

lemma json_chars_append: "json_chars s \<Longrightarrow> json_chars t \<Longrightarrow> json_chars (s @ t)"
  by (auto simp: json_chars_def json_decode_append)

lemma digits_rev_last: "n \<noteq> 0 \<Longrightarrow> last (digits_rev n) \<noteq> 0"
proof (induction n rule: digits_rev.induct)
  case (1 n)
  then show ?case by (subst digits_rev.simps) auto
qed

lemma json_nat_show_nat: "json_nat (show_nat n)"
proof -
  have "hd (show_nat n) = digit_char (last (digits_rev n))" by (simp add: show_nat_def hd_map hd_rev)
  moreover have "last (digits_rev n) < 10" by (rule digits_rev_bound [of _ n]) simp
  ultimately have "char_code (hd (show_nat n)) = 48 + last (digits_rev n)" by simp
  moreover have "char_code (CHR ''0'') = 48" by code_simp
  ultimately have "hd (show_nat n) = CHR ''0'' \<Longrightarrow> n = 0" using digits_rev_last [of n] by fastforce
  moreover have "show_nat 0 = ''0''" by code_simp
  ultimately show ?thesis using show_nat_digits by (auto simp: json_nat_def list_all_iff)
qed

lemma json_show_int: "json (show_int i)"
  unfolding show_int_def by (auto intro: json_neg json_pos json_nat_show_nat)

section \<open>What is written\<close>

text \<open>On a stream without a width and with the usual flags a writer writes a text with \<open>P\<close>. The base may be any.\<close>

definition calm :: "ostream \<Rightarrow> bool" where
  "calm st \<longleftrightarrow> os_width st = 0 \<and> \<not> os_left st \<and> \<not> os_showbase st \<and> \<not> os_upper st"

definition writes :: "(string \<Rightarrow> bool) \<Rightarrow> writer \<Rightarrow> bool" where
  "writes P w \<longleftrightarrow> (\<forall>st. calm st \<longrightarrow> (\<exists>t. os_text (w st) = os_text st @ t \<and> P t \<and> calm (w st)))"

lemma writes_put: "P s \<Longrightarrow> writes P (put s)"
  by (auto simp: writes_def calm_def put_def padded_def Let_def)

lemma writes_mono: "writes P w \<Longrightarrow> (\<And>t. P t \<Longrightarrow> Q t) \<Longrightarrow> writes Q w"
  unfolding writes_def by blast

lemma emit_Nil [simp]: "emit [] st = st"
  by (simp add: emit_def)

lemma emit_Cons [simp]: "emit (w # ws) st = emit ws (w st)"
  by (simp add: emit_def)

lemma emit_append [simp]: "emit (ws @ vs) st = emit vs (emit ws st)"
  by (simp add: emit_def)

lemma writes_emit_Nil: "P [] \<Longrightarrow> writes P (emit [])"
  unfolding writes_def by auto

lemma writes_emit_Cons:
  assumes "writes P w" "writes Q (emit ws)" "\<And>a b. P a \<Longrightarrow> Q b \<Longrightarrow> R (a @ b)"
  shows "writes R (emit (w # ws))"
  unfolding writes_def
proof (intro allI impI)
  fix st :: ostream assume w: "calm st"
  with assms(1) obtain a where a: "os_text (w st) = os_text st @ a" "P a" "calm (w st)" by (auto simp: writes_def)
  from assms(2) a(3) obtain b where b: "os_text (emit ws (w st)) = os_text (w st) @ b" "Q b" "calm (emit ws (w st))"
    unfolding writes_def by blast
  show "\<exists>t. os_text (emit (w # ws) st) = os_text st @ t \<and> R t \<and> calm (emit (w # ws) st)"
    using a b assms(3) by (intro exI [of _ "a @ b"]) simp
qed

lemma writes_emit_append:
  assumes "writes P (emit ws)" "writes Q (emit vs)" "\<And>a b. P a \<Longrightarrow> Q b \<Longrightarrow> R (a @ b)"
  shows "writes R (emit (ws @ vs))"
proof -
  have "emit (ws @ vs) = emit [emit ws, emit vs]" by (rule ext) simp
  moreover have "writes Q (emit [emit vs])" using assms(2) by (simp add: writes_def)
  with assms(1) have "writes R (emit [emit ws, emit vs])" by (rule writes_emit_Cons) (rule assms(3))
  ultimately show ?thesis by simp
qed

lemma writes_put_then:
  assumes "writes P (emit ws)" "\<And>t. P t \<Longrightarrow> Q (s @ t)"
  shows "writes Q (emit (put s # ws))"
proof (rule writes_emit_Cons [where P = "\<lambda>t. t = s" and Q = P])
  show "writes (\<lambda>t. t = s) (put s)" by (rule writes_put) simp
qed (use assms in auto)

lemma writes_single: "writes P w \<Longrightarrow> writes P (emit [w])"
  by (simp add: writes_def)

lemma writes_separated:
  assumes "\<And>w. w \<in> set ws \<Longrightarrow> writes P w"
  shows "writes (\<lambda>t. \<exists>ts. t = joined sep ts \<and> length ts = length ws \<and> (\<forall>x\<in>set ts. P x)) (emit (separated sep ws))"
  using assms
proof (induction sep ws rule: separated.induct)
  case (1 sep)
  show ?case unfolding separated.simps list.size by (rule writes_emit_Nil) (rule exI [of _ "[]"], simp)
next
  case (2 sep w)
  then have "writes P w" by simp
  then have "writes (\<lambda>t. \<exists>ts. t = joined sep ts \<and> length ts = length [w] \<and> (\<forall>x\<in>set ts. P x)) w"
  proof (rule writes_mono)
    fix t assume "P t"
    then show "\<exists>ts. t = joined sep ts \<and> length ts = length [w] \<and> (\<forall>x\<in>set ts. P x)"
      by (intro exI [of _ "[t]"]) simp
  qed
  then show ?case by (simp add: writes_single)
next
  case (3 sep w v ws)
  let ?Q = "\<lambda>t. \<exists>ts. t = joined sep ts \<and> length ts = length (v # ws) \<and> (\<forall>x\<in>set ts. P x)"
  have "writes ?Q (emit (separated sep (v # ws)))" using 3 by simp
  then have "writes (\<lambda>t. \<exists>u. t = sep @ u \<and> ?Q u) (emit (put sep # separated sep (v # ws)))"
    by (rule writes_put_then) blast
  note rest = this
  have "writes P w" using 3 by simp
  from this rest show ?case unfolding separated.simps
  proof (rule writes_emit_Cons)
    fix a b assume "P a" "\<exists>u. b = sep @ u \<and> ?Q u"
    then obtain ts where ts: "b = sep @ joined sep ts" "length ts = length (v # ws)" "\<forall>x\<in>set ts. P x" by blast
    then have "joined sep (a # ts) = a @ b" by (cases ts) auto
    with ts \<open>P a\<close> show "\<exists>ts. a @ b = joined sep ts \<and> length ts = length (w # v # ws) \<and> (\<forall>x\<in>set ts. P x)"
      by (intro exI [of _ "a # ts"]) auto
  qed
qed

lemma writes_bracketed:
  assumes "\<And>w. w \<in> set ws \<Longrightarrow> writes P w" "\<And>ts. \<forall>x\<in>set ts. P x \<Longrightarrow> R (l @ joined sep ts @ r)"
  shows "writes R (emit ([put l] @ separated sep ws @ [put r]))"
proof -
  have "writes (\<lambda>t. \<exists>ts. t = joined sep ts @ r \<and> (\<forall>x\<in>set ts. P x)) (emit (separated sep ws @ [put r]))"
  proof (rule writes_emit_append)
    show "writes (\<lambda>t. \<exists>ts. t = joined sep ts \<and> length ts = length ws \<and> (\<forall>x\<in>set ts. P x)) (emit (separated sep ws))"
      using assms(1) by (rule writes_separated)
    show "writes (\<lambda>t. t = r) (emit [put r])" by (rule writes_single, rule writes_put) simp
  qed auto
  then have "writes R (emit (put l # separated sep ws @ [put r]))"
    by (rule writes_put_then) (use assms(2) in auto)
  then show ?thesis by simp
qed


section \<open>Characters\<close>

text \<open>A byte that is printed as a character and not as a negative number.\<close>

definition plain_char :: "out_env \<Rightarrow> char \<Rightarrow> bool" where
  "plain_char env c \<longleftrightarrow> (oe_signed_char env \<longrightarrow> char_code c < 128)"

definition hex4 :: "nat \<Rightarrow> string" where
  "hex4 n = (let h = show_base False 16 n in replicate (4 - length h) (CHR ''0'') @ h)"

lemma base_digits_less: "2 \<le> b \<Longrightarrow> d \<in> set (base_digits b n) \<Longrightarrow> d < b"
proof (induction b n rule: base_digits.induct)
  case (1 b n)
  then show ?case by (subst (asm) base_digits.simps) (auto split: if_splits)
qed

lemma is_hex_digit: "d < 16 \<Longrightarrow> is_hex (any_digit False d)"
  by (auto simp: is_hex_def is_digit_def any_digit_def)

lemma hex4_hex: "list_all is_hex (hex4 n)" "4 \<le> length (hex4 n)"
proof -
  have "is_hex (CHR ''0'')" by code_simp
  moreover have "list_all is_hex (show_base False 16 n)"
    using base_digits_less [of 16 _ n] by (auto simp: show_base_def list_all_iff is_hex_digit)
  ultimately show "list_all is_hex (hex4 n)" by (auto simp: hex4_def Let_def list_all_iff)
qed (simp add: hex4_def Let_def)

lemma json_chars_hex: "list_all is_hex s \<Longrightarrow> json_chars s"
proof (induction s)
  case (Cons c s)
  then have "is_hex c" by simp
  moreover have "\<not> is_hex (CHR 0x22)" "\<not> is_hex (CHR 0x5C)" by code_simp+
  ultimately have "json_item (c # s) = Some (char_code c, s)"
    by (auto simp: json_item_def is_hex_def is_digit_def)
  with Cons show ?case by (auto simp: json_chars_def json_decode.simps [of "c # s"])
qed (simp add: json_chars_def)

lemma escape_json: "json_chars ([CHR 0x5C, CHR ''u''] @ hex4 n)"
proof -
  have "json_item ([CHR 0x5C, CHR ''u''] @ hex4 n) = hex_unit (hex4 n)"
    by (simp add: json_item_def char_code_def)
  moreover have "list_all is_hex (take 4 (hex4 n))" "list_all is_hex (drop 4 (hex4 n))"
    using hex4_hex(1) [of n] by (auto simp: list_all_iff dest: in_set_takeD in_set_dropD)
  ultimately have "\<exists>u. json_item ([CHR 0x5C, CHR ''u''] @ hex4 n) = Some (u, drop 4 (hex4 n))"
    using hex4_hex(2) by (simp add: hex_unit_def)
  with json_chars_hex [OF \<open>list_all is_hex (drop 4 (hex4 n))\<close>] show ?thesis
    by (auto simp: json_chars_def json_decode_item simp del: append_Cons)
qed

lemma escape_values: "list_all (\<lambda>n. json_decode ([CHR 0x5C, CHR ''u''] @ hex4 n) = Some [n]) [0..<32]"
  by code_simp

lemma escape_decoded:
  assumes "char_int (oe_signed_char env) c \<le> 31"
  shows "\<exists>ns. json_decode ([CHR 0x5C, CHR ''u''] @ hex4 (nat (char_int (oe_signed_char env) c mod 2 ^ 32))) = Some ns \<and>
    (plain_char env c \<longrightarrow> ns = [char_code c])"
proof -
  have "json_decode ([CHR 0x5C, CHR ''u''] @ hex4 (char_code c)) = Some [char_code c]" if "char_code c < 32"
    using escape_values that by (simp only: list_all_iff set_upt) simp
  moreover have "plain_char env c \<Longrightarrow> char_int (oe_signed_char env) c = int (char_code c)"
    by (auto simp: plain_char_def char_int_def)
  ultimately show ?thesis
    using assms escape_json [of "nat (char_int (oe_signed_char env) c mod 2 ^ 32)"] by (auto simp: json_chars_def)
qed

lemma writes_hex4: "P ([CHR 0x5C, CHR ''u''] @ hex4 (nat (i mod 2 ^ 32))) \<Longrightarrow> writes P (put_hex4 i)"
  by (auto simp: writes_def calm_def put_hex4_def with_width_def with_fill_def put_signed_def put_unsigned_def
      base_prefix_def put_def padded_def Let_def hex4_def)

lemma escaped_items:
  "json_item [CHR 0x5C, CHR 0x22] = Some (char_code (CHR 0x22), [])"
  "json_item [CHR 0x5C, CHR 0x5C] = Some (char_code (CHR 0x5C), [])"
  "json_item [CHR 0x5C, CHR ''n''] = Some (char_code (chr_of 10), [])"
  "json_item [CHR 0x5C, CHR ''r''] = Some (char_code (chr_of 13), [])"
  "json_item [CHR 0x5C, CHR ''t''] = Some (char_code (chr_of 9), [])"
  by code_simp+

lemma escaped_chars:
  "json_char env (CHR 0x22) = put [CHR 0x5C, CHR 0x22]" "json_char env (CHR 0x5C) = put [CHR 0x5C, CHR 0x5C]"
  "json_char env (chr_of 10) = put [CHR 0x5C, CHR ''n'']" "json_char env (chr_of 13) = put [CHR 0x5C, CHR ''r'']"
  "json_char env (chr_of 9) = put [CHR 0x5C, CHR ''t'']"
proof -
  have "\<forall>a\<in>{10, 13, 9}. chr_of a \<noteq> CHR 0x22 \<and> chr_of a \<noteq> CHR 0x5C" "chr_of 10 \<noteq> chr_of 13" "chr_of 10 \<noteq> chr_of 9"
    "chr_of 13 \<noteq> chr_of 9" by code_simp+
  then show "json_char env (CHR 0x22) = put [CHR 0x5C, CHR 0x22]" "json_char env (CHR 0x5C) = put [CHR 0x5C, CHR 0x5C]"
    "json_char env (chr_of 10) = put [CHR 0x5C, CHR ''n'']" "json_char env (chr_of 13) = put [CHR 0x5C, CHR ''r'']"
    "json_char env (chr_of 9) = put [CHR 0x5C, CHR ''t'']"
    by (simp_all add: json_char_def)
qed

lemma writes_json_char:
  "writes (\<lambda>t. \<exists>ns. json_decode t = Some ns \<and> (plain_char env c \<longrightarrow> ns = [char_code c])) (json_char env c)"
proof -
  let ?P = "\<lambda>t. \<exists>ns. json_decode t = Some ns \<and> (plain_char env c \<longrightarrow> ns = [char_code c])"
  have put: "json_item s = Some (char_code c, []) \<Longrightarrow> writes ?P (put s)" for s
    by (rule writes_put) (simp add: json_decode_item)
  have escaped: "json_char env d = put s \<Longrightarrow> json_item s = Some (char_code d, []) \<Longrightarrow> c = d \<Longrightarrow> writes ?P (json_char env c)"
    for d s using put [of s] by simp
  consider "c = CHR 0x22" | "c = CHR 0x5C" | "c = chr_of 10" | "c = chr_of 13" | "c = chr_of 9"
    | (rest) "c \<noteq> CHR 0x22" "c \<noteq> CHR 0x5C" "c \<noteq> chr_of 10" "c \<noteq> chr_of 13" "c \<noteq> chr_of 9" by blast
  then show ?thesis
  proof cases
    case rest
    show ?thesis
    proof (cases "char_int (oe_signed_char env) c \<le> 31")
      case True
      then have "writes ?P (put_hex4 (char_int (oe_signed_char env) c))"
        by (intro writes_hex4 escape_decoded)
      then show ?thesis using rest True by (simp add: json_char_def)
    next
      case False
      then have "32 \<le> char_code c" by (auto simp: char_int_def split: if_splits)
      then have "writes ?P (put [c])" using rest by (intro put) (auto simp: json_item_def)
      then show ?thesis using rest False by (simp add: json_char_def)
    qed
  qed (erule escaped [OF escaped_chars(1) escaped_items(1)] escaped [OF escaped_chars(2) escaped_items(2)]
      escaped [OF escaped_chars(3) escaped_items(3)] escaped [OF escaped_chars(4) escaped_items(4)]
      escaped [OF escaped_chars(5) escaped_items(5)])+
qed


section \<open>The string that is written is the string that was given\<close>

lemma writes_json_chars:
  "writes (\<lambda>t. \<exists>ns. json_decode t = Some ns \<and> (list_all (plain_char env) s \<longrightarrow> ns = map char_code s))
     (emit (map (json_char env) s))"
proof (induction s)
  case Nil
  show ?case unfolding list.map by (rule writes_emit_Nil) simp
next
  case (Cons c s)
  show ?case unfolding list.map
  proof (rule writes_emit_Cons [OF writes_json_char Cons.IH])
    fix a b
    assume "\<exists>ns. json_decode a = Some ns \<and> (plain_char env c \<longrightarrow> ns = [char_code c])"
      "\<exists>ns. json_decode b = Some ns \<and> (list_all (plain_char env) s \<longrightarrow> ns = map char_code s)"
    then show "\<exists>ns. json_decode (a @ b) = Some ns \<and>
        (list_all (plain_char env) (c # s) \<longrightarrow> ns = char_code c # map char_code s)"
      by (auto simp: json_decode_append)
  qed
qed

lemma writes_json_string_decoded:
  "writes (\<lambda>t. \<exists>u ns. t = quoted u \<and> json_decode u = Some ns \<and> (list_all (plain_char env) s \<longrightarrow> ns = map char_code s))
     (json_string env s)"
proof -
  let ?P = "\<lambda>u. \<exists>ns. json_decode u = Some ns \<and> (list_all (plain_char env) s \<longrightarrow> ns = map char_code s)"
  have "writes (\<lambda>t. \<exists>u. t = u @ [CHR 0x22] \<and> ?P u) (emit (map (json_char env) s @ [put [CHR 0x22]]))"
  proof (rule writes_emit_append [OF writes_json_chars])
    show "writes (\<lambda>t. t = [CHR 0x22]) (emit [put [CHR 0x22]])" by (rule writes_single, rule writes_put) simp
  qed blast
  then have "writes (\<lambda>t. \<exists>u. t = quoted u \<and> ?P u) (emit (put [CHR 0x22] # map (json_char env) s @ [put [CHR 0x22]]))"
    by (rule writes_put_then) (auto simp: quoted_def)
  then show ?thesis unfolding json_string_def by (auto elim: writes_mono)
qed

lemma writes_json_string: "writes (\<lambda>t. \<exists>u. t = quoted u \<and> json_chars u) (json_string env s)"
  by (rule writes_mono [OF writes_json_string_decoded]) (auto simp: json_chars_def)

lemma calm_new [simp]: "calm new_ostream"
  by (simp add: calm_def new_ostream_def)

lemma writes_new: "writes P w \<Longrightarrow> P (os_text (w new_ostream))"
  using calm_new by (fastforce simp: writes_def new_ostream_def)


section \<open>Primitives are JSON\<close>

lemma writes_json_number: "writes json (json_number env i)"
proof (cases "is_double i")
  case False
  have "writes json (json_string env s)" for s
    by (rule writes_mono [OF writes_json_string]) (auto intro: json_str)
  with False show ?thesis by (simp add: json_number_def)
qed (simp add: json_number_def writes_put json_show_int)

lemma writes_json_text: "writes json (json_string env s)"
  by (rule writes_mono [OF writes_json_string]) (auto intro: json_str)

fun no_double :: "primitive \<Rightarrow> bool" where
  "no_double (P_double d) = False"
| "no_double (P_array vs) = list_all no_double vs"
| "no_double (P_tuple vs) = list_all no_double vs"
| "no_double (P_record fs) = list_all (\<lambda>(k, v). no_double v) fs"
| "no_double p = True"

lemma writes_json_array:
  assumes "\<And>w. w \<in> set ws \<Longrightarrow> writes json w"
  shows "writes json (emit ([put ''[''] @ separated '','' ws @ [put '']'']))"
  by (rule writes_bracketed) (fact assms, rule json_array)

lemma writes_json_member:
  assumes "writes json w"
  shows "writes json_member (emit [json_string env k, put '': '', w])"
proof (rule writes_emit_Cons [OF writes_json_string])
  show "writes (\<lambda>t. \<exists>v. t = '': '' @ v \<and> json v) (emit [put '': '', w])"
    by (rule writes_put_then [OF writes_single [OF assms]]) blast
  fix a b assume "\<exists>u. a = quoted u \<and> json_chars u" "\<exists>v. b = '': '' @ v \<and> json v"
  then show "json_member (a @ b)" by (auto intro: json_pair simp del: append_Cons append_assoc simp: append_assoc [symmetric])
qed

lemma writes_json_primitive: "no_double p \<Longrightarrow> writes json (json_primitive env p)"
proof (induction env p rule: json_primitive.induct)
  case (2 env b)
  show ?case by (auto intro!: writes_put json_true json_false)
next
  case (7 env vs)
  then show ?case unfolding json_primitive.simps by (intro writes_json_array) (auto simp: list_all_iff)
next
  case (8 env buf)
  show ?case unfolding json_primitive.simps by (intro writes_json_array) (auto simp: writes_json_number)
next
  case (9 env vs)
  then show ?case unfolding json_primitive.simps by (intro writes_json_array) (auto simp: list_all_iff)
next
  case (10 env fs)
  show ?case unfolding json_primitive.simps
  proof (rule writes_bracketed)
    fix w assume "w \<in> set (map (\<lambda>(key, v). emit [json_string env key, put '': '', json_primitive env v]) fs)"
    then obtain k v where "(k, v) \<in> set fs" "w = emit [json_string env k, put '': '', json_primitive env v]" by auto
    with 10 show "writes json_member w" by (force intro: writes_json_member simp: list_all_iff)
  qed (rule json_object)
qed (auto simp: writes_json_number writes_json_text intro: writes_put json_null)

text \<open>C31: What the JSON output writes for a primitive without doubles is JSON: strings with any bytes in them
  (control characters and quotes included), numbers that a double cannot hold, nested arrays, tuples, buffers
  and records, on any machine.
\<close>

theorem json_primitive_is_json:
  assumes "no_double p"
  shows "json (os_text (json_primitive env p new_ostream))"
  by (rule writes_new [OF writes_json_primitive [OF assms]])

text \<open>A machine to compute with.\<close>

definition sample_env :: "bool \<Rightarrow> out_env" where
  "sample_env sc = \<lparr>oe_double = (\<lambda>d. ''0''), oe_double_string = (\<lambda>d. ''0.000000''), oe_put_time = (\<lambda>fmt s. fmt),
     oe_time_point = show_int, oe_graph = (\<lambda>ts. []), oe_signed_char = sc\<rparr>"


theorem json_primitive_is_json_witness:
  "json (os_text (json_primitive (sample_env False) (P_record [(''k'', P_tuple [P_int (-1), P_null])]) new_ostream))"
  by (rule json_primitive_is_json) simp

text \<open>On a machine whose \<open>char\<close> is signed, a byte from 128 on is taken for a control character.\<close>

lemma signed_char_escaped:
  "os_text (json_char (sample_env True) (chr_of 195) new_ostream) = [CHR 0x5C] @ ''uffffffc3''"
  "os_text (json_char (sample_env False) (chr_of 195) new_ostream) = [chr_of 195]"
proof -
  have ne: "chr_of 195 \<noteq> CHR 0x22" "chr_of 195 \<noteq> CHR 0x5C" "chr_of 195 \<noteq> chr_of 10" "chr_of 195 \<noteq> chr_of 13"
    "chr_of 195 \<noteq> chr_of 9" by code_simp+
  have "base_digits 16 4294967235 = [15, 15, 15, 15, 15, 15, 12, 3]" by (simp add: base_digits.simps)
  moreover have "map (any_digit False) [15, 15, 15, 15, 15, 15, 12, 3] = ''ffffffc3''" by code_simp
  ultimately have "show_base False 16 4294967235 = ''ffffffc3''" by (simp only: show_base_def)
  then show "os_text (json_char (sample_env True) (chr_of 195) new_ostream) = [CHR 0x5C] @ ''uffffffc3''"
    using ne by (simp add: json_char_def char_int_def sample_env_def put_hex4_def new_ostream_def put_def padded_def
      Let_def with_width_def with_fill_def put_signed_def put_unsigned_def base_prefix_def)
  show "os_text (json_char (sample_env False) (chr_of 195) new_ostream) = [chr_of 195]"
    using ne by (simp add: json_char_def char_int_def sample_env_def new_ostream_def put_def padded_def)
qed

text \<open>After a control character the stream prints counts in base 16.\<close>

lemma counts_in_base_16:
  "os_text (emit [json_string (sample_env True) [chr_of 1], json_lost_events 26] new_ostream)
     = quoted ([CHR 0x5C] @ ''u0001'') @ ''{'' @ quoted ''type'' @ '': '' @ quoted ''lost_events'' @ '', '' @ quoted ''count'' @
       '': 1a, '' @ quoted ''data'' @ '': {'' @ quoted ''events'' @ '': 1a}}'' @ [chr_of 10]"
  by code_simp

end
