(* ===== verification/Opaque.thy ===== *)
theory Opaque
  imports Output
begin

text \<open>
  Blobs of bytes that come from the kernel, \<open>src/util/opaque.h\<close>, and what is computed from the values of all
  processors in them, \<open>src/util/stats.h\<close> and \<open>src/util/tseries.cpp\<close>.
\<close>

section \<open>Reading and writing integers\<close>

text \<open>
  An \<open>OpaqueValue\<close> is the bytes between its offset and its length. The type a value is read as is its number of
  bytes and whether it is signed; the first argument says whether the machine is big-endian.
\<close>

type_synonym opaque = string

definition bytes_nat :: "bool \<Rightarrow> string \<Rightarrow> nat" where
  "bytes_nat big s = foldr (\<lambda>c v. char_code c + 256 * v) (if big then rev s else s) 0"

definition int_of_bits :: "nat \<Rightarrow> bool \<Rightarrow> nat \<Rightarrow> int" where
  "int_of_bits w sg v = (if sg \<and> 2 ^ (w - 1) \<le> v then int v - 2 ^ w else int v)"

definition opaque_slice :: "opaque \<Rightarrow> nat \<Rightarrow> nat \<Rightarrow> opaque option" where
  "opaque_slice v off len = (if off + len \<le> length v then Some (take len (drop off v)) else None)"

definition opaque_rest :: "opaque \<Rightarrow> nat \<Rightarrow> opaque option" where
  "opaque_rest v off = (if off \<le> length v then Some (drop off v) else None)"

definition opaque_count :: "nat \<Rightarrow> opaque \<Rightarrow> nat" where
  "opaque_count n v = length v div n"

definition bitcast :: "bool \<Rightarrow> nat \<Rightarrow> bool \<Rightarrow> opaque \<Rightarrow> nat \<Rightarrow> int option" where
  "bitcast big n sg v i =
     map_option (\<lambda>s. int_of_bits (8 * n) sg (bytes_nat big s)) (opaque_slice v (n * i) n)"

text \<open>\<open>OpaqueValue::from\<close> of an integer and of a string.\<close>

fun little_bytes :: "nat \<Rightarrow> nat \<Rightarrow> string" where
  "little_bytes 0 v = []"
| "little_bytes (Suc n) v = chr_of (v mod 256) # little_bytes n (v div 256)"

definition opaque_from :: "bool \<Rightarrow> nat \<Rightarrow> int \<Rightarrow> opaque" where
  "opaque_from big n i = (let s = little_bytes n (nat (i mod 2 ^ (8 * n))) in if big then rev s else s)"

definition opaque_string :: "string \<Rightarrow> nat \<Rightarrow> opaque" where
  "opaque_string s sz =
     (let m = min (length s + 1) sz in take m (s @ [chr_of 0]) @ replicate (sz - m) (chr_of 0))"

section \<open>Comparison and printing\<close>

fun memcmp :: "string \<Rightarrow> string \<Rightarrow> int" where
  "memcmp (a # s) (b # t) =
     (if char_code a < char_code b then - 1 else if char_code b < char_code a then 1 else memcmp s t)"
| "memcmp s t = 0"

definition opaque_less :: "opaque \<Rightarrow> opaque \<Rightarrow> bool" where
  "opaque_less a b =
     (let m = min (length a) (length b); c = memcmp (take m a) (take m b)
      in if c \<noteq> 0 then c < 0 else length a < length b)"

definition opaque_equal :: "opaque \<Rightarrow> opaque \<Rightarrow> bool" where
  "opaque_equal a b \<longleftrightarrow> (if length a \<noteq> length b then False else memcmp a b = 0)"

definition opaque_hash :: "opaque \<Rightarrow> u64" where
  "opaque_hash v = foldl (\<lambda>h c. (push_bit 5 h + h) + of_nat (char_code c)) 5381 v"

definition put_opaque :: "opaque \<Rightarrow> writer" where
  "put_opaque v =
     emit (concat (map (\<lambda>c. [(\<lambda>st. st\<lparr>os_base := 16\<rparr>), with_fill (CHR ''0''), with_width 2, put_unsigned (char_code c)]) v))"

section \<open>Values of all processors\<close>

text \<open>
  The values in a blob, one for each processor. Adding unsigned and small signed numbers wraps around; \<open>None\<close> is
  an overflow of \<open>int32_t\<close> or \<open>int64_t\<close>, which is undefined.
\<close>

definition cast_int :: "nat \<Rightarrow> bool \<Rightarrow> int \<Rightarrow> int" where
  "cast_int n sg i = int_of_bits (8 * n) sg (nat (i mod 2 ^ (8 * n)))"

definition in_range :: "nat \<Rightarrow> bool \<Rightarrow> int \<Rightarrow> bool" where
  "in_range n sg i \<longleftrightarrow> (if sg then - (2 ^ (8 * n - 1)) \<le> i \<and> i < 2 ^ (8 * n - 1) else 0 \<le> i \<and> i < 2 ^ (8 * n))"

definition add_int :: "nat \<Rightarrow> bool \<Rightarrow> int \<Rightarrow> int \<Rightarrow> int option" where
  "add_int n sg a b = (if sg \<and> 4 \<le> n \<and> \<not> in_range n sg (a + b) then None else Some (cast_int n sg (a + b)))"

definition elem_at :: "bool \<Rightarrow> nat \<Rightarrow> bool \<Rightarrow> opaque \<Rightarrow> nat \<Rightarrow> int" where
  "elem_at big n sg v i = int_of_bits (8 * n) sg (bytes_nat big (take n (drop (n * i) v)))"

fun sum_ints :: "nat \<Rightarrow> bool \<Rightarrow> int \<Rightarrow> int list \<Rightarrow> int option" where
  "sum_ints n sg acc [] = Some acc"
| "sum_ints n sg acc (x # xs) = Option.bind (add_int n sg acc x) (\<lambda>s. sum_ints n sg s xs)"

definition reduce_value :: "bool \<Rightarrow> nat \<Rightarrow> bool \<Rightarrow> opaque \<Rightarrow> int option" where
  "reduce_value big n sg v = sum_ints n sg 0 (map (elem_at big n sg v) [0..<opaque_count n v])"

definition min_max_step :: "bool \<Rightarrow> int option \<Rightarrow> int \<times> int \<Rightarrow> int option" where
  "min_max_step is_max mm entry =
     (case entry of (val, is_set) \<Rightarrow>
        if is_set = 0 then mm
        else case mm of
            None \<Rightarrow> Some val
          | Some m \<Rightarrow> if is_max \<and> m < val then Some val else if \<not> is_max \<and> val < m then Some val else Some m)"

definition pair_at :: "bool \<Rightarrow> nat \<Rightarrow> bool \<Rightarrow> opaque \<Rightarrow> nat \<Rightarrow> int \<times> int" where
  "pair_at big n sg v i = (elem_at big n sg v (i * 2), elem_at big n sg v (i * 2 + 1))"

definition min_max_value :: "bool \<Rightarrow> nat \<Rightarrow> bool \<Rightarrow> opaque \<Rightarrow> bool \<Rightarrow> int" where
  "min_max_value big n sg v is_max =
     (case foldl (min_max_step is_max) None (map (pair_at big n sg v) [0..<opaque_count n v div 2]) of
        None \<Rightarrow> 0 | Some m \<Rightarrow> m)"

text \<open>The quotient of C++.\<close>

definition quot_int :: "int \<Rightarrow> int \<Rightarrow> int" where
  "quot_int a b = sgn a * sgn b * (\<bar>a\<bar> div \<bar>b\<bar>)"

record stats_t =
  st_total :: int
  st_count :: int
  st_avg :: int

definition stats_value :: "bool \<Rightarrow> nat \<Rightarrow> bool \<Rightarrow> opaque \<Rightarrow> stats_t option" where
  "stats_value big n sg v =
     (let ps = map (pair_at big n sg v) [0..<opaque_count n v div 2] in
      case (sum_ints n sg 0 (map snd ps), sum_ints n sg 0 (map fst ps)) of
        (Some c, Some t) \<Rightarrow> Some \<lparr>st_total = t, st_count = c, st_avg = (if 0 < c then cast_int n sg (quot_int t c) else 0)\<rparr>
      | _ \<Rightarrow> None)"

definition avg_value :: "bool \<Rightarrow> nat \<Rightarrow> bool \<Rightarrow> opaque \<Rightarrow> int option" where
  "avg_value big n sg v = map_option st_avg (stats_value big n sg v)"

section \<open>Time series\<close>

datatype tseries_agg = Agg_none | Agg_avg | Agg_max | Agg_min | Agg_sum

text \<open>\<open>tseries_data\<close>: a value, its count or time, and the epoch it belongs to.\<close>

record tseries_data =
  td_val :: int
  td_meta :: int
  td_epoch :: nat

definition tseries_at :: "bool \<Rightarrow> bool \<Rightarrow> opaque \<Rightarrow> nat \<Rightarrow> tseries_data" where
  "tseries_at big sg v i =
     (let s = take 24 (drop (24 * i) v)
      in \<lparr>td_val = elem_at big 8 sg s 0, td_meta = elem_at big 8 sg s 1, td_epoch = nat (elem_at big 8 False s 2)\<rparr>)"

definition combine_tseries :: "bool \<Rightarrow> tseries_agg \<Rightarrow> tseries_data \<Rightarrow> tseries_data \<Rightarrow> tseries_data option" where
  "combine_tseries sg agg cur d =
     (case agg of
        Agg_none \<Rightarrow> Some (if td_meta cur < td_meta d then cur\<lparr>td_val := td_val d, td_meta := td_meta d\<rparr> else cur)
      | Agg_avg \<Rightarrow> Option.bind (add_int 8 sg (td_val cur) (td_val d)) (\<lambda>v.
          map_option (\<lambda>m. cur\<lparr>td_val := v, td_meta := m\<rparr>) (add_int 8 sg (td_meta cur) (td_meta d)))
      | Agg_max \<Rightarrow> Some (cur\<lparr>td_val := max (td_val cur) (td_val d)\<rparr>)
      | Agg_min \<Rightarrow> Some (cur\<lparr>td_val := min (td_val cur) (td_val d)\<rparr>)
      | Agg_sum \<Rightarrow> map_option (\<lambda>v. cur\<lparr>td_val := v\<rparr>) (add_int 8 sg (td_val cur) (td_val d)))"

definition tseries_step ::
  "bool \<Rightarrow> tseries_agg \<Rightarrow> (nat \<rightharpoonup> tseries_data) \<times> nat \<Rightarrow> tseries_data \<Rightarrow> ((nat \<rightharpoonup> tseries_data) \<times> nat) option" where
  "tseries_step sg agg acc d =
     (case acc of (m, latest) \<Rightarrow>
        if td_epoch d = 0 then Some (m, latest)
        else let latest = max (td_epoch d) latest in
          (case m (td_epoch d) of
             None \<Rightarrow> Some (m(td_epoch d \<mapsto> d), latest)
           | Some cur \<Rightarrow> map_option (\<lambda>c. (m(td_epoch d \<mapsto> c), latest)) (combine_tseries sg agg cur d)))"

fun tseries_fold ::
  "bool \<Rightarrow> tseries_agg \<Rightarrow> (nat \<rightharpoonup> tseries_data) \<times> nat \<Rightarrow> tseries_data list \<Rightarrow> ((nat \<rightharpoonup> tseries_data) \<times> nat) option" where
  "tseries_fold sg agg acc [] = Some acc"
| "tseries_fold sg agg acc (d # ds) = Option.bind (tseries_step sg agg acc d) (\<lambda>acc. tseries_fold sg agg acc ds)"

text \<open>An average over a count of zero, and the one quotient that overflows, are undefined.\<close>

definition tseries_latest :: "bool \<Rightarrow> tseries_agg \<Rightarrow> tseries_data \<Rightarrow> int option" where
  "tseries_latest sg agg d =
     (if agg \<noteq> Agg_avg then Some (td_val d)
      else if td_meta d = 0 \<or> \<not> in_range 8 sg (quot_int (td_val d) (td_meta d)) then None
      else Some (quot_int (td_val d) (td_meta d)))"

definition reduce_tseries :: "bool \<Rightarrow> bool \<Rightarrow> tseries_agg \<Rightarrow> opaque \<Rightarrow> (nat \<times> int) option" where
  "reduce_tseries big sg agg v =
     Option.bind (tseries_fold sg agg (Map.empty, 0) (map (tseries_at big sg v) [0..<opaque_count 24 v])) (\<lambda>(m, latest).
       if latest = 0 then Some (0, 0)
       else case m latest of
           None \<Rightarrow> None
         | Some d \<Rightarrow> map_option (Pair (td_epoch d)) (tseries_latest sg agg d))"

definition reduce_tseries_value :: "bool \<Rightarrow> opaque \<Rightarrow> bool \<Rightarrow> tseries_agg \<Rightarrow> (nat \<times> opaque) option" where
  "reduce_tseries_value big v sg agg =
     map_option (\<lambda>(epoch, i). (epoch, opaque_from big 8 i)) (reduce_tseries big sg agg v)"


section \<open>Integers are read back\<close>

lemma bytes_nat_little: "bytes_nat False (little_bytes n v) = v mod 256 ^ n"
proof (induction n arbitrary: v)
  case (Suc n)
  have "bytes_nat False (little_bytes (Suc n) v) = v mod 256 + 256 * (v div 256 mod 256 ^ n)"
    using Suc [of "v div 256"] by (simp add: bytes_nat_def)
  then show ?case by (simp add: mod_mult2_eq [of v 256 "256 ^ n"] add.commute mult.commute)
qed (simp add: bytes_nat_def)

lemma length_little_bytes [simp]: "length (little_bytes n v) = n"
  by (induction n arbitrary: v) auto

lemma bytes_nat_from: "bytes_nat big (opaque_from big n i) = nat (i mod 2 ^ (8 * n))"
proof -
  have "bytes_nat big (opaque_from big n i) = nat (i mod 2 ^ (8 * n)) mod 256 ^ n"
    using bytes_nat_little by (auto simp: opaque_from_def bytes_nat_def Let_def)
  moreover have "(256 :: nat) ^ n = 2 ^ (8 * n)" by (simp add: power_mult)
  moreover have "nat (i mod 2 ^ (8 * n)) < 2 ^ (8 * n)" by (simp add: nat_less_iff)
  ultimately show ?thesis by simp
qed

lemma int_of_bits_mod:
  assumes "in_range n sg i" "0 < n"
  shows "int_of_bits (8 * n) sg (nat (i mod 2 ^ (8 * n))) = i"
proof -
  have half: "(2 :: int) ^ (8 * n) = 2 * 2 ^ (8 * n - 1)" using assms(2) by (subst power_Suc [symmetric]) simp
  have nonneg: "0 \<le> i mod 2 ^ (8 * n)" by simp
  show ?thesis
  proof (cases "i < 0")
    case True
    with assms(1) have sg: "sg" "- (2 ^ (8 * n - 1)) \<le> i" by (auto simp: in_range_def split: if_splits)
    have "i mod 2 ^ (8 * n) = (i + 2 ^ (8 * n)) mod 2 ^ (8 * n)" by simp
    also have "\<dots> = i + 2 ^ (8 * n)" using True sg half by (intro mod_pos_pos_trivial) auto
    finally have "i mod 2 ^ (8 * n) = i + 2 ^ (8 * n)" .
    then show ?thesis using True sg half by (simp add: int_of_bits_def nat_le_iff le_nat_iff)
  next
    case False
    with assms(1) half have "i mod 2 ^ (8 * n) = i" by (auto simp: in_range_def split: if_splits)
    with False assms(1) show ?thesis by (auto simp: int_of_bits_def in_range_def le_nat_iff split: if_splits)
  qed
qed

text \<open>An integer that its type can hold is read back from the bytes it is written to, on machines of both byte
  orders.\<close>

theorem bitcast_from:
  assumes "in_range n sg i" "0 < n"
  shows "bitcast big n sg (opaque_from big n i) 0 = Some i"
proof -
  have "length (opaque_from big n i) = n" by (simp add: opaque_from_def Let_def)
  then show ?thesis by (simp add: bitcast_def opaque_slice_def bytes_nat_from int_of_bits_mod [OF assms])
qed

theorem bitcast_from_witness: "bitcast True 4 True (opaque_from True 4 (- 7)) 0 = Some (- 7)"
  by (rule bitcast_from) (simp_all add: in_range_def)

lemma bitcast_elem: "n * i + n \<le> length v \<Longrightarrow> bitcast big n sg v i = Some (elem_at big n sg v i)"
  by (simp add: bitcast_def opaque_slice_def elem_at_def)

lemma length_opaque_from [simp]: "length (opaque_from big n i) = n"
  by (simp add: opaque_from_def Let_def)

definition opaque_list :: "bool \<Rightarrow> nat \<Rightarrow> int list \<Rightarrow> opaque" where
  "opaque_list big n xs = concat (map (opaque_from big n) xs)"

lemma opaque_list_Nil [simp]: "opaque_list big n [] = []"
  and opaque_list_Cons [simp]: "opaque_list big n (x # xs) = opaque_from big n x @ opaque_list big n xs"
  by (simp_all add: opaque_list_def)

lemma length_opaque_list [simp]: "length (opaque_list big n xs) = n * length xs"
  by (induction xs) auto

lemma drop_opaque_list: "drop (n * k) (opaque_list big n xs) = opaque_list big n (drop k xs)"
proof (induction k arbitrary: xs)
  case (Suc k)
  then show ?case by (cases xs) (simp_all add: add.commute)
qed simp

lemma take_opaque_list: "take (n * k) (opaque_list big n xs) = opaque_list big n (take k xs)"
proof (induction k arbitrary: xs)
  case (Suc k)
  then show ?case by (cases xs) simp_all
qed simp

lemma elem_at_opaque_list:
  assumes "i < length xs" "in_range n sg (xs ! i)" "0 < n"
  shows "elem_at big n sg (opaque_list big n xs) i = xs ! i"
proof -
  have "drop i xs = xs ! i # drop (Suc i) xs" using assms(1) by (rule Cons_nth_drop_Suc [symmetric])
  then have "take n (drop (n * i) (opaque_list big n xs)) = opaque_from big n (xs ! i)" by (simp add: drop_opaque_list)
  then show ?thesis using assms by (simp add: elem_at_def bytes_nat_from int_of_bits_mod)
qed

section \<open>The order of the keys of a map\<close>

lemma opaque_less_simps [simp]:
  "\<not> opaque_less a []" "opaque_less [] (y # b)"
  "opaque_less (x # a) (y # b) \<longleftrightarrow> char_code x < char_code y \<or> x = y \<and> opaque_less a b"
  by (auto simp: opaque_less_def Let_def)

lemma opaque_less_lexordp: "opaque_less a b \<longleftrightarrow> ord_class.lexordp (map char_code a) (map char_code b)"
proof (induction a arbitrary: b)
  case Nil
  show ?case by (cases b) auto
next
  case (Cons x a)
  then show ?case by (cases b) auto
qed

lemma memcmp_equal: "length a = length b \<Longrightarrow> memcmp a b = 0 \<longleftrightarrow> a = b"
  by (induction a b rule: list_induct2) (auto simp: antisym_conv3)

lemma opaque_equal_iff: "opaque_equal a b \<longleftrightarrow> a = b"
  by (auto simp: opaque_equal_def memcmp_equal)

text \<open>The comparison of keys is the lexicographic order of their bytes, a strict total order in which keys that
  are not equal are told apart: the condition that \<open>std::map\<close> puts on it.\<close>

theorem opaque_less_total_order:
  "(\<forall>a. \<not> opaque_less a a) \<and> (\<forall>a b c. opaque_less a b \<and> opaque_less b c \<longrightarrow> opaque_less a c) \<and>
   (\<forall>a b. opaque_less a b \<or> opaque_equal a b \<or> opaque_less b a)"
proof (intro conjI allI impI)
  fix a b c
  show "\<not> opaque_less a a" by (simp add: opaque_less_lexordp lexordp_irreflexive)
  show "opaque_less a c" if "opaque_less a b \<and> opaque_less b c"
    using that unfolding opaque_less_lexordp by (blast intro: lexordp_trans)
  have "map char_code a = map char_code b \<longleftrightarrow> a = b" by (rule inj_map_eq_map) (simp add: inj_def)
  then show "opaque_less a b \<or> opaque_equal a b \<or> opaque_less b a"
    using lexordp_linear [of "map char_code a" "map char_code b"] by (auto simp: opaque_less_lexordp opaque_equal_iff)
qed

section \<open>Sums, minima and maxima over processors\<close>

lemma cast_int_unsigned: "cast_int n False i = i mod 2 ^ (8 * n)"
  by (simp add: cast_int_def int_of_bits_def)

lemma cast_int_in_range: "in_range n sg i \<Longrightarrow> 0 < n \<Longrightarrow> cast_int n sg i = i"
  by (simp add: cast_int_def int_of_bits_mod)

lemma sum_ints_unsigned: "sum_ints n False (a mod 2 ^ (8 * n)) xs = Some ((a + sum_list xs) mod 2 ^ (8 * n))"
proof (induction xs arbitrary: a)
  case (Cons x xs)
  have "add_int n False (a mod 2 ^ (8 * n)) x = Some ((a + x) mod 2 ^ (8 * n))"
    by (simp add: add_int_def cast_int_unsigned mod_add_left_eq)
  then show ?case using Cons [of "a + x"] by (simp add: add.assoc)
qed simp

lemma sum_ints_signed: "sum_ints n True a xs = Some s \<Longrightarrow> 4 \<le> n \<Longrightarrow> s = a + sum_list xs"
proof (induction xs arbitrary: a)
  case (Cons x xs)
  from Cons.prems obtain b where b: "add_int n True a x = Some b" "sum_ints n True b xs = Some s" by (auto simp: bind_eq_Some_conv)
  then have "b = a + x" using Cons.prems(2) by (auto simp: add_int_def cast_int_in_range split: if_splits)
  with Cons.IH [OF b(2) Cons.prems(2)] show ?case by simp
qed simp

definition elems :: "bool \<Rightarrow> nat \<Rightarrow> bool \<Rightarrow> opaque \<Rightarrow> int list" where
  "elems big n sg v = map (elem_at big n sg v) [0..<opaque_count n v]"

lemma reduce_unsigned: "reduce_value big n False v = Some (sum_list (elems big n False v) mod 2 ^ (8 * n))"
  using sum_ints_unsigned [of n 0] by (simp add: reduce_value_def elems_def)

text \<open>The counter of a map that every processor has its own value of is the sum of these values: modulo the size of
  the type when it is unsigned, and exactly when it is signed with at least 32 bits and a result is defined.\<close>

theorem reduce_value_is_sum:
  "reduce_value big n False v = Some (sum_list (elems big n False v) mod 2 ^ (8 * n)) \<and>
   (reduce_value big n True v = Some s \<and> 4 \<le> n \<longrightarrow> s = sum_list (elems big n True v))"
  using reduce_unsigned sum_ints_signed [of n 0] by (auto simp: reduce_value_def elems_def)

lemma elems_opaque_list: "0 < n \<Longrightarrow> list_all (in_range n sg) xs \<Longrightarrow> elems big n sg (opaque_list big n xs) = xs"
  by (rule nth_equalityI) (simp_all add: elems_def opaque_count_def elem_at_opaque_list list_all_length)

theorem reduce_value_is_sum_witness:
  "reduce_value False 4 True (opaque_list False 4 [5, - 7]) = Some (- 2) \<and>
   - 2 = sum_list (elems False 4 True (opaque_list False 4 [5, - 7]))"
proof -
  have "elems False 4 True (opaque_list False 4 [5, - 7]) = [5, - 7]" by (rule elems_opaque_list) (simp_all add: in_range_def)
  then have "reduce_value False 4 True (opaque_list False 4 [5, - 7]) = Some (- 2)"
    by (simp add: reduce_value_def elems_def [symmetric] add_int_def cast_int_in_range in_range_def)
  with reduce_value_is_sum [of False 4 _ "- 2"] show ?thesis by simp
qed

lemma extremum_insert:
  "finite S \<Longrightarrow> (if b then Max else Min) (insert (if b then max m x else min m x) S) =
    (if b then Max else Min) (insert m (insert (x :: int) S))"
  by (cases "S = {}") (simp_all add: max.assoc min.assoc)

lemma min_max_fold:
  "foldl (min_max_step is_max) (Some m) ps =
    Some ((if is_max then Max else Min) (insert m (fst ` set (filter (\<lambda>p. snd p \<noteq> 0) ps))))"
proof (induction ps arbitrary: m)
  case (Cons p ps)
  let ?S = "fst ` set (filter (\<lambda>p. snd p \<noteq> 0) ps)"
  obtain x b where p: "p = (x, b)" by (cases p)
  have "min_max_step is_max (Some m) p = Some (if b = 0 then m else if is_max then max m x else min m x)"
    by (auto simp: min_max_step_def p max_def min_def)
  moreover have "finite ?S" by simp
  note extremum_insert [OF this, of is_max m x]
  ultimately show ?case using Cons by (cases "b = 0") (simp_all only: p foldl_Cons if_True if_False refl filter.simps
      snd_conv simp_thms list.set image_insert fst_conv)
qed auto

text \<open>The minimum and maximum of a map are those of the values that a processor has set, and zero when none has.\<close>

theorem min_max_value_is_extremum:
  "min_max_value big n sg v is_max =
    (let S = {val. \<exists>i < opaque_count n v div 2. val = elem_at big n sg v (i * 2) \<and> elem_at big n sg v (i * 2 + 1) \<noteq> 0}
     in if S = {} then 0 else if is_max then Max S else Min S)"
proof -
  let ?ps = "map (pair_at big n sg v) [0..<opaque_count n v div 2]"
  let ?S = "fst ` set (filter (\<lambda>p. snd p \<noteq> 0) ?ps)"
  have S: "?S = {val. \<exists>i < opaque_count n v div 2. val = elem_at big n sg v (i * 2) \<and> elem_at big n sg v (i * 2 + 1) \<noteq> 0}"
    by (force simp: pair_at_def)
  have fold: "foldl (min_max_step is_max) None ps = (let T = fst ` set (filter (\<lambda>p. snd p \<noteq> 0) ps) in
      if T = {} then None else Some ((if is_max then Max else Min) T))" for ps
  proof (induction ps)
    case (Cons p ps)
    obtain x b where p: "p = (x, b)" by (cases p)
    show ?case
    proof (cases "b = 0")
      case True
      then have "min_max_step is_max None p = None" by (simp add: min_max_step_def p)
      with Cons True show ?thesis by (simp only: p foldl_Cons filter.simps snd_conv simp_thms if_False)
    next
      case False
      then have "min_max_step is_max None p = Some x" by (simp add: min_max_step_def p)
      with False show ?thesis by (simp add: p min_max_fold Let_def)
    qed
  qed simp
  show ?thesis unfolding min_max_value_def fold Let_def S [symmetric] by auto
qed

section \<open>Time series\<close>

fun combine_list :: "bool \<Rightarrow> tseries_agg \<Rightarrow> tseries_data \<Rightarrow> tseries_data list \<Rightarrow> tseries_data option" where
  "combine_list sg agg cur [] = Some cur"
| "combine_list sg agg cur (d # ds) = Option.bind (combine_tseries sg agg cur d) (\<lambda>c. combine_list sg agg c ds)"

fun combine_new :: "bool \<Rightarrow> tseries_agg \<Rightarrow> tseries_data list \<Rightarrow> tseries_data option" where
  "combine_new sg agg [] = None"
| "combine_new sg agg (d # ds) = combine_list sg agg d ds"

definition of_epoch :: "nat \<Rightarrow> tseries_data list \<Rightarrow> tseries_data list" where
  "of_epoch e ds = filter (\<lambda>d. td_epoch d = e) ds"

lemma tseries_fold_entries:
  assumes "tseries_fold sg agg (m, l) ds = Some (m', l')" "0 < e"
  shows "m' e = (case m e of None \<Rightarrow> combine_new sg agg (of_epoch e ds) | Some cur \<Rightarrow> combine_list sg agg cur (of_epoch e ds))"
  using assms(1)
proof (induction ds arbitrary: m l)
  case Nil
  then show ?case by (auto simp: of_epoch_def split: option.splits)
next
  case (Cons d ds)
  from Cons.prems obtain m1 l1 where step: "tseries_step sg agg (m, l) d = Some (m1, l1)"
    and rest: "tseries_fold sg agg (m1, l1) ds = Some (m', l')" by (auto simp: bind_eq_Some_conv)
  note IH = Cons.IH [OF rest]
  show ?case
  proof (cases "td_epoch d = e")
    case False
    from step False have "m1 e = m e" by (auto simp: tseries_step_def Let_def split: if_splits option.splits)
    have same: "of_epoch e (d # ds) = of_epoch e ds" using False by (simp add: of_epoch_def)
    from IH show ?thesis unfolding same \<open>m1 e = m e\<close> .
  next
    case True
    with step assms(2) show ?thesis using IH
      by (auto simp: tseries_step_def Let_def of_epoch_def split: option.splits)
  qed
qed

lemma tseries_fold_latest:
  "tseries_fold sg agg (m, l) ds = Some (m', l') \<Longrightarrow> l' = Max (insert l (td_epoch ` set ds))"
proof (induction ds arbitrary: m l)
  case (Cons d ds)
  from Cons.prems obtain m1 l1 where step: "tseries_step sg agg (m, l) d = Some (m1, l1)"
    and rest: "tseries_fold sg agg (m1, l1) ds = Some (m', l')" by (auto simp: bind_eq_Some_conv)
  from step have "l1 = max (td_epoch d) l" by (auto simp: tseries_step_def Let_def split: if_splits option.splits)
  with Cons.IH [OF rest] show ?case
    by (cases "td_epoch ` set ds = {}") (simp_all add: max.assoc max.commute max.left_commute)
qed simp

text \<open>C33: Reducing a bucket of a time series gives the latest epoch that any processor used and the combination, in the
  order of the processors, of the entries of that epoch only; an unused bucket gives zero.\<close>

theorem reduce_tseries_latest:
  assumes "reduce_tseries big sg agg v = Some (e, x)"
  defines "ds \<equiv> map (tseries_at big sg v) [0..<opaque_count 24 v]"
  shows "if \<forall>d\<in>set ds. td_epoch d = 0 then e = 0 \<and> x = 0
    else e = Max (td_epoch ` set ds) \<and> (\<exists>d. combine_new sg agg (of_epoch e ds) = Some d \<and> tseries_latest sg agg d = Some x)"
proof -
  obtain m l where run: "tseries_fold sg agg (Map.empty, 0) ds = Some (m, l)"
    and res: "if l = 0 then (e, x) = (0, 0) else \<exists>d. m l = Some d \<and> map_option (Pair (td_epoch d)) (tseries_latest sg agg d) = Some (e, x)"
    using assms by (auto simp: reduce_tseries_def ds_def bind_eq_Some_conv split: if_splits option.splits)
  have l: "l = Max (insert 0 (td_epoch ` set ds))" using tseries_fold_latest [OF run] .
  show ?thesis
  proof (cases "\<forall>d\<in>set ds. td_epoch d = 0")
    case True
    then have "td_epoch ` set ds \<subseteq> {0}" by auto
    then have "insert 0 (td_epoch ` set ds) = {0}" by blast
    with l have "l = 0" by simp
    with res True show ?thesis by simp
  next
    case False
    then obtain d0 where d0: "d0 \<in> set ds" "0 < td_epoch d0" by auto
    then have "td_epoch d0 \<le> l" unfolding l by simp
    with d0 have pos: "0 < l" by simp
    have lM: "l = Max (td_epoch ` set ds)" using l d0 by (cases "td_epoch ` set ds = {}") (auto simp: max_def)
    from pos res obtain d where d: "m l = Some d" "tseries_latest sg agg d = Some x" "e = td_epoch d" by auto
    have "m l = combine_new sg agg (of_epoch l ds)" using tseries_fold_entries [OF run pos] by simp
    moreover have "td_epoch d = l" if new: "combine_new sg agg (of_epoch l ds) = Some d" for d
    proof -
      have keep: "combine_list sg agg c r = Some d \<Longrightarrow> td_epoch d = td_epoch c" for c r
      proof (induction r arbitrary: c)
        case (Cons y r)
        then obtain c' where "combine_tseries sg agg c y = Some c'" "combine_list sg agg c' r = Some d"
          by (auto simp: bind_eq_Some_conv)
        moreover from this(1) have "td_epoch c' = td_epoch c"
          by (cases agg) (auto simp: combine_tseries_def bind_eq_Some_conv)
        ultimately show ?case using Cons.IH by simp
      qed simp
      obtain c r where cr: "of_epoch l ds = c # r" using new by (cases "of_epoch l ds") auto
      then have "c \<in> set (of_epoch l ds)" by simp
      then have "td_epoch c = l" by (simp add: of_epoch_def)
      with keep new cr show ?thesis by simp
    qed
    ultimately show ?thesis using False d lM by auto
  qed
qed

lemma tseries_at_opaque_list:
  assumes "3 * i + 2 < length xs" "in_range 8 sg (xs ! (3 * i))" "in_range 8 sg (xs ! (3 * i + 1))" "in_range 8 False (xs ! (3 * i + 2))"
  shows "tseries_at big sg (opaque_list big 8 xs) i =
    \<lparr>td_val = xs ! (3 * i), td_meta = xs ! (3 * i + 1), td_epoch = nat (xs ! (3 * i + 2))\<rparr>"
proof -
  have "take 24 (drop (24 * i) (opaque_list big 8 xs)) = opaque_list big 8 (take 3 (drop (3 * i) xs))"
    using drop_opaque_list [of 8 "3 * i" big xs] take_opaque_list [of 8 3 big "drop (3 * i) xs"] by simp
  then show ?thesis using assms by (simp add: tseries_at_def elem_at_opaque_list)
qed

theorem reduce_tseries_latest_witness:
  "reduce_tseries False True Agg_sum (opaque_list False 8 [5, 0, 3, 40, 0, 2, - 9, 0, 3]) = Some (3, - 4) \<and>
   3 = Max (td_epoch ` set (map (tseries_at False True (opaque_list False 8 [5, 0, 3, 40, 0, 2, - 9, 0, 3])) [0..<3]))"
proof -
  let ?v = "opaque_list False 8 [5, 0, 3, 40, 0, 2, - 9, 0, 3]"
  have c: "opaque_count 24 ?v = 3" by (simp add: opaque_count_def)
  have "[0..<3] = [0, 1, 2 :: nat]" by code_simp
  then have ds: "map (tseries_at False True ?v) [0..<3] =
      [\<lparr>td_val = 5, td_meta = 0, td_epoch = 3\<rparr>, \<lparr>td_val = 40, td_meta = 0, td_epoch = 2\<rparr>, \<lparr>td_val = - 9, td_meta = 0, td_epoch = 3\<rparr>]"
    by (simp add: tseries_at_opaque_list in_range_def del: opaque_list_Cons)
  have r: "reduce_tseries False True Agg_sum ?v = Some (3, - 4)"
    by (simp add: reduce_tseries_def c ds tseries_step_def combine_tseries_def add_int_def in_range_def cast_int_in_range
        tseries_latest_def del: opaque_list_Cons)
  from reduce_tseries_latest [OF r] show ?thesis unfolding c ds using r by simp
qed

end
