(* ===== verification/Hist_Format.thy ===== *)
theory Hist_Format
  imports Output
begin

text \<open>
  The histograms of \<open>src/types_format.cpp\<close>: from the counts of the buckets of a map to labels and counts for
  the outputs.
\<close>

section \<open>Labels of powers of two\<close>

text \<open>
  The interval an index stands for starts at \<open>2 ^ power * (n + interval)\<close>. \<open>None\<close>: the assertion that the
  index is not below \<open>n\<close> fails or a shift is too wide. The analyser lets \<open>k\<close> be at most 5; the model stops at 30,
  where shifts of an \<open>int\<close> by \<open>k\<close> leave its range.
\<close>

definition hist_suffix :: "nat \<Rightarrow> string" where
  "hist_suffix decade = (if decade = 0 \<or> decade = 7 then [] else [''0KMGTPE'' ! decade])"

definition hist_index_label :: "nat \<Rightarrow> nat \<Rightarrow> primitive option" where
  "hist_index_label index k =
     (if 30 \<le> k \<or> index < 2 ^ k then None
      else let power = index div 2 ^ k - 1; base = 2 ^ k + index mod 2 ^ k in
        if 64 \<le> power then None
        else Some (P_symbolic
          (show_nat ((2 ^ (power mod 10) * base) mod 2 ^ 64) @ hist_suffix (power div 10))
          (of_nat (2 ^ power * base))))"

section \<open>Which buckets are printed\<close>

text \<open>The counts are converted to \<open>int\<close> before they are compared with 0.\<close>

definition counts_as_positive :: "u64 \<Rightarrow> bool" where
  "counts_as_positive v \<longleftrightarrow> (let r = unat v mod 2 ^ 32 in 0 < r \<and> r < 2 ^ 31)"

fun indices_from :: "nat \<Rightarrow> u64 list \<Rightarrow> (nat \<times> nat) option \<Rightarrow> (nat \<times> nat) option" where
  "indices_from i [] acc = acc"
| "indices_from i (v # vs) acc =
     indices_from (i + 1) vs
       (if counts_as_positive v then (case acc of None \<Rightarrow> Some (i, i) | Some (a, b) \<Rightarrow> Some (a, i)) else acc)"

definition indices :: "u64 list \<Rightarrow> (nat \<times> nat) option" where
  "indices values = indices_from 0 values None"

section \<open>Histograms\<close>

definition bucket_label :: "nat \<Rightarrow> nat \<Rightarrow> primitive option" where
  "bucket_label k i = (if 30 \<le> k then None else if i \<le> 2 * 2 ^ k then Some (P_int (of_nat i)) else hist_index_label i k)"

text \<open>A division by zero traps; the labels of index 0 and of small indices are the same number.\<close>

definition build_histogram :: "u64 list \<Rightarrow> u32 \<Rightarrow> nat \<Rightarrow> histogram option" where
  "build_histogram values divisor k =
     (case indices values of
        None \<Rightarrow> Some (Histogram None [] [])
      | Some (a, b) \<Rightarrow>
          if divisor = 0 then None
          else case (if a = 0 then Some None else map_option Some (bucket_label k (a - 1)),
                     those (map (bucket_label k) [a..<b + 1])) of
              (Some lower, Some labels) \<Rightarrow>
                Some (Histogram lower labels (map (\<lambda>i. values ! i div ucast divisor) [a..<b + 1]))
            | _ \<Rightarrow> None)"

section \<open>Linear histograms\<close>

definition fits_int :: "int \<Rightarrow> bool" where
  "fits_int i \<longleftrightarrow> - (2 ^ 31) \<le> i \<and> i < 2 ^ 31"

definition lhist_index_label :: "int \<Rightarrow> int \<Rightarrow> primitive" where
  "lhist_index_label number step =
     (if step mod 1024 \<noteq> 0 then P_int (of_int number)
      else P_symbolic
        (if number = 0 then show_int number
         else if number mod (1024 * 1024) = 0 then show_int (number div (1024 * 1024)) @ ''M''
         else if number mod 1024 = 0 then show_int (number div 1024) @ ''K''
         else show_int number) (of_int number))"

text \<open>The number at an index, \<open>min + i * step\<close> in \<open>int\<close>; an overflow is undefined.\<close>

definition lhist_number :: "int \<Rightarrow> int \<Rightarrow> nat \<Rightarrow> int option" where
  "lhist_number mn step i =
     (if fits_int (int i * step) \<and> fits_int (mn + int i * step) then Some (mn + int i * step) else None)"

definition build_linear_histogram :: "u64 list \<Rightarrow> int \<Rightarrow> int \<Rightarrow> int \<Rightarrow> histogram option" where
  "build_linear_histogram values mn mx step =
     (case indices values of
        None \<Rightarrow> Some (Histogram None [] [])
      | Some (a, b) \<Rightarrow>
          (case (if a = 0 then Some None else map_option (\<lambda>x. Some (lhist_index_label x step)) (lhist_number mn step (a - 1)),
                 those (map (lhist_number mn step) [a..<b + 1])) of
             (Some lower, Some numbers) \<Rightarrow>
               Some (Histogram lower (map (\<lambda>x. lhist_index_label x step) (filter (\<lambda>x. x \<le> mx) numbers))
                 (map (\<lambda>i. values ! i) [a..<b + 1]))
           | _ \<Rightarrow> None))"


section \<open>The labels are the ends of intervals\<close>

definition hist_value :: "nat \<Rightarrow> nat \<Rightarrow> nat" where
  "hist_value k i = 2 ^ (i div 2 ^ k - 1) * (2 ^ k + i mod 2 ^ k)"

definition label_number :: "nat \<Rightarrow> nat \<Rightarrow> nat" where
  "label_number k i = (if i \<le> 2 * 2 ^ k then i else hist_value k i)"

lemma hist_value_Suc:
  assumes "2 ^ k \<le> i"
  shows "hist_value k (Suc i) = hist_value k i + 2 ^ (i div 2 ^ k - 1)"
proof (cases "Suc (i mod 2 ^ k) = 2 ^ k")
  case True
  then have "Suc i div 2 ^ k = Suc (i div 2 ^ k)" "Suc i mod 2 ^ k = 0"
    by (simp_all add: div_Suc mod_Suc)
  moreover have "0 < i div 2 ^ k" using assms by (simp add: div_greater_zero_iff)
  then have "(2::nat) ^ (i div 2 ^ k) = 2 * 2 ^ (i div 2 ^ k - 1)" by (subst power_Suc [symmetric]) simp
  ultimately have "hist_value k (Suc i) = 2 ^ (i div 2 ^ k - 1) * (2 ^ k + 2 ^ k)" by (simp add: hist_value_def)
  also have "(2::nat) ^ k + 2 ^ k = 2 ^ k + i mod 2 ^ k + 1" using True by simp
  also have "2 ^ (i div 2 ^ k - 1) * (2 ^ k + i mod 2 ^ k + 1) = hist_value k i + 2 ^ (i div 2 ^ k - 1)"
    by (simp only: hist_value_def distrib_left mult_1_right)
  finally show ?thesis .
next
  case False
  then have "Suc i div 2 ^ k = i div 2 ^ k" "Suc i mod 2 ^ k = Suc (i mod 2 ^ k)" by (simp_all add: div_Suc mod_Suc)
  then show ?thesis by (simp add: hist_value_def)
qed

lemma hist_value_small: "2 ^ k \<le> i \<Longrightarrow> i \<le> 2 * 2 ^ k \<Longrightarrow> hist_value k i = i"
proof (induction i rule: dec_induct)
  case base
  show ?case by (simp add: hist_value_def)
next
  case (step i)
  then have "i div 2 ^ k = 1" by (intro div_nat_eqI) simp_all
  with step show ?case by (simp add: hist_value_Suc)
qed

lemma label_number_Suc: "label_number k i < label_number k (Suc i)"
proof (cases "i < 2 * 2 ^ k")
  case False
  then have i: "2 ^ k \<le> i" "2 * 2 ^ k \<le> i" by simp_all
  have "label_number k i = hist_value k i" using False hist_value_small [OF i(1)] by (auto simp: label_number_def)
  then show ?thesis using False hist_value_Suc [OF i(1)] by (simp add: label_number_def)
qed (simp add: label_number_def)

lemma label_number_mono: "i < j \<Longrightarrow> label_number k i < label_number k j"
  by (induction rule: less_Suc_induct) (auto intro: label_number_Suc order_less_trans)

lemma hist_value_top: "k < 30 \<Longrightarrow> hist_value k ((64 - k) * 2 ^ k) = 2 ^ 63"
  by (simp add: hist_value_def power_add [symmetric])

lemma label_number_bound:
  assumes "k < 30" "i \<le> (64 - k) * 2 ^ k"
  shows "label_number k i \<le> 2 ^ 63"
proof -
  have "2 * 2 ^ k < (64 - k) * (2::nat) ^ k" using assms(1) by (intro mult_strict_right_mono) simp_all
  then have "label_number k ((64 - k) * 2 ^ k) = 2 ^ 63" using hist_value_top [OF assms(1)] by (simp add: label_number_def)
  moreover have "label_number k i \<le> label_number k ((64 - k) * 2 ^ k)"
    using assms(2) label_number_mono [of i "(64 - k) * 2 ^ k" k] by (cases "i = (64 - k) * 2 ^ k") auto
  ultimately show ?thesis by simp
qed

fun label_value :: "primitive \<Rightarrow> nat" where
  "label_value (P_int n) = unat n"
| "label_value (P_symbolic s n) = unat n"
| "label_value p = 0"

lemma unat_of_nat_small: "n < 2 ^ 64 \<Longrightarrow> unat (of_nat n :: u64) = n"
  by (simp add: unat_of_nat take_bit_eq_mod)

lemma power_bound: "k < 30 \<Longrightarrow> i \<le> (64 - k) * 2 ^ k \<Longrightarrow> i div 2 ^ k - 1 < 64"
proof -
  assume "k < 30" "i \<le> (64 - k) * 2 ^ k"
  then have "i div 2 ^ k \<le> (64 - k) * 2 ^ k div 2 ^ k" by (intro div_le_mono)
  then show ?thesis by simp
qed

lemma bucket_label_number:
  assumes "k < 30" "i \<le> (64 - k) * 2 ^ k"
  shows "\<exists>p. bucket_label k i = Some p \<and> label_value p = label_number k i"
proof -
  have b: "label_number k i < 2 ^ 64" using label_number_bound [OF assms] by (rule order_le_less_trans) simp
  show ?thesis
  proof (cases "i \<le> 2 * 2 ^ k")
    case True
    with b have "i < 2 ^ 64" by (simp add: label_number_def)
    with True assms(1) show ?thesis by (simp add: bucket_label_def label_number_def unat_of_nat take_bit_eq_mod)
  next
    case False
    with b have "hist_value k i < 2 ^ 64" by (simp add: label_number_def)
    moreover have "\<not> i < 2 ^ k" "i div 2 ^ k - 1 < 64" using False power_bound [OF assms] by simp_all
    moreover from this have "\<exists>t. bucket_label k i = Some (P_symbolic t (of_nat (hist_value k i)))" using False assms(1)
      by (simp add: bucket_label_def hist_index_label_def Let_def hist_value_def del: of_nat_mult of_nat_add of_nat_power)
    ultimately show ?thesis using False by (auto simp: label_number_def unat_of_nat_small)
  qed
qed

section \<open>The buckets that are kept\<close>

lemma indices_from_spec:
  "indices_from i vs acc =
    (let ps = filter (\<lambda>j. counts_as_positive (vs ! j)) [0..<length vs] in
     if ps = [] then acc else Some (case acc of None \<Rightarrow> i + hd ps | Some (a, b) \<Rightarrow> a, i + last ps))"
proof (induction vs arbitrary: i acc)
  case (Cons v vs)
  let ?ps = "filter (\<lambda>j. counts_as_positive (vs ! j)) [0..<length vs]"
  have "[0..<length (v # vs)] = 0 # map Suc [0..<length vs]" by (simp add: upt_conv_Cons map_Suc_upt del: upt_Suc)
  then have "filter (\<lambda>j. counts_as_positive ((v # vs) ! j)) [0..<length (v # vs)] =
      (if counts_as_positive v then [0] else []) @ map Suc ?ps" by (simp add: filter_map comp_def)
  then show ?case
    by (cases "?ps = []"; cases acc) (auto simp: Cons Let_def hd_map last_map hd_append split: prod.splits)
qed simp

lemma indices_None: "indices vs = None \<longleftrightarrow> (\<forall>v\<in>set vs. \<not> counts_as_positive v)"
  by (auto simp: indices_def indices_from_spec Let_def filter_empty_conv all_set_conv_all_nth)

lemma indices_Some:
  assumes "indices vs = Some (a, b)"
  shows "a \<le> b" "b < length vs" "counts_as_positive (vs ! a)" "counts_as_positive (vs ! b)"
    "\<And>i. i < length vs \<Longrightarrow> counts_as_positive (vs ! i) \<Longrightarrow> a \<le> i \<and> i \<le> b"
proof -
  let ?ps = "filter (\<lambda>j. counts_as_positive (vs ! j)) [0..<length vs]"
  have ne: "?ps \<noteq> []" and a: "a = hd ?ps" and b: "b = last ?ps"
    using assms by (auto simp: indices_def indices_from_spec Let_def split: if_splits)
  have srt: "sorted ?ps" by (rule sorted_wrt_filter) simp
  have in_ps: "hd ?ps \<in> set ?ps" "last ?ps \<in> set ?ps" using ne by (rule hd_in_set, rule last_in_set)
  then show "b < length vs" "counts_as_positive (vs ! a)" "counts_as_positive (vs ! b)" by (auto simp: a b)
  have le: "a \<le> i \<and> i \<le> b" if mem: "i \<in> set ?ps" for i
  proof -
    obtain j where "j < length ?ps" "?ps ! j = i" using mem unfolding in_set_conv_nth by blast
    then show ?thesis
      using sorted_nth_mono [OF srt, of 0 j] sorted_nth_mono [OF srt, of j "length ?ps - 1"] ne
      by (simp add: a b hd_conv_nth last_conv_nth)
  qed
  then show "a \<le> b" using in_ps by (auto simp: a b)
  show "\<And>i. i < length vs \<Longrightarrow> counts_as_positive (vs ! i) \<Longrightarrow> a \<le> i \<and> i \<le> b" using le by simp
qed


lemma those_map: "(\<And>x. x \<in> set xs \<Longrightarrow> f x = Some (g x)) \<Longrightarrow> those (map f xs) = Some (map g xs)"
  by (induction xs) auto

definition label_of :: "nat \<Rightarrow> nat \<Rightarrow> primitive" where
  "label_of k i = the (bucket_label k i)"

lemma bucket_label_of:
  "k < 30 \<Longrightarrow> i \<le> (64 - k) * 2 ^ k \<Longrightarrow> bucket_label k i = Some (label_of k i) \<and> label_value (label_of k i) = label_number k i"
  using bucket_label_number [of k i] by (auto simp: label_of_def)

lemma build_histogram_value:
  assumes "k < 30" "d \<noteq> 0" "\<And>i. i < length vs \<Longrightarrow> counts_as_positive (vs ! i) \<Longrightarrow> i \<le> (64 - k) * 2 ^ k"
    "indices vs = Some (a, b)"
  shows "build_histogram vs d k = Some (Histogram (if a = 0 then None else Some (label_of k (a - 1)))
    (map (label_of k) [a..<b + 1]) (map (\<lambda>i. vs ! i div ucast d) [a..<b + 1]))"
proof -
  note ab = indices_Some [OF assms(4)]
  have b: "b \<le> (64 - k) * 2 ^ k" using assms(3) ab(2,4) by blast
  have "bucket_label k i = Some (label_of k i)" if "i \<le> b" for i
    using bucket_label_of [OF assms(1)] that b by (meson order_trans)
  then have "those (map (bucket_label k) [a..<b + 1]) = Some (map (label_of k) [a..<b + 1])"
    and "0 < a \<Longrightarrow> bucket_label k (a - 1) = Some (label_of k (a - 1))"
    using ab(1) by (auto intro!: those_map simp del: upt_Suc)
  then show ?thesis using assms(2,4) by (auto simp: build_histogram_def simp del: upt_Suc)
qed

text \<open>From counts in the buckets that the kernel uses, a histogram is built with one label for each count; the
  lower bound and the labels are strictly increasing numbers, the ends of adjacent intervals.\<close>

theorem histogram_labels_increase:
  assumes "k < 30" "d \<noteq> 0" "\<forall>i<length vs. counts_as_positive (vs ! i) \<longrightarrow> i \<le> (64 - k) * 2 ^ k"
  shows "\<exists>h. build_histogram vs d k = Some h \<and> length (h_labels h) = length (h_counts h) \<and>
    sorted_wrt (<) (map label_value (case h_lower h of None \<Rightarrow> h_labels h | Some p \<Rightarrow> p # h_labels h))"
proof (cases "indices vs")
  case None
  then show ?thesis by (simp add: build_histogram_def)
next
  case (Some ab)
  then obtain a b where ab: "indices vs = Some (a, b)" by (cases ab) auto
  note spec = indices_Some [OF ab]
  have b: "b \<le> (64 - k) * 2 ^ k" using assms(3) spec(2,4) by blast
  have num: "label_value (label_of k i) = label_number k i" if "i \<le> b" for i
    using bucket_label_of [OF assms(1)] that b by (meson order_trans)
  have inc: "sorted_wrt (<) (map label_value (map (label_of k) [i..<b + 1]))" for i
    using num label_number_mono by (auto simp: sorted_wrt_map sorted_wrt_iff_nth_less simp del: upt_Suc)
  show ?thesis
  proof (cases "a = 0")
    case True
    then show ?thesis using build_histogram_value [OF assms(1,2) _ ab] assms(3) inc by (simp del: upt_Suc)
  next
    case False
    have "[a - 1..<b + 1] = (a - 1) # [Suc (a - 1)..<b + 1]" using spec(1) by (intro upt_conv_Cons) simp
    then have "label_of k (a - 1) # map (label_of k) [a..<b + 1] = map (label_of k) [a - 1..<b + 1]" using False by (simp del: upt_Suc)
    then show ?thesis using build_histogram_value [OF assms(1,2) _ ab] assms(3) inc [of "a - 1"] False
      by (simp del: upt_Suc list.map)
  qed
qed


theorem histogram_labels_increase_witness:
  "\<exists>h. build_histogram [0, 0, 3, 0, 0, 2] 1 0 = Some h \<and> length (h_labels h) = length (h_counts h) \<and>
    sorted_wrt (<) (map label_value (case h_lower h of None \<Rightarrow> h_labels h | Some p \<Rightarrow> p # h_labels h))"
  by (rule histogram_labels_increase) auto


section \<open>What the text of a label says\<close>

text \<open>The text of a label is the start of its interval exactly: a number and the suffix of a power of 1024.\<close>

theorem hist_label_exact:
  assumes "hist_index_label index k = Some p"
  shows "\<exists>m decade. decade < 7 \<and> p = P_symbolic (show_nat m @ hist_suffix decade) (of_nat (m * 1024 ^ decade)) \<and>
    m * 1024 ^ decade = hist_value k index"
proof -
  define power where "power = index div 2 ^ k - 1"
  define base where "base = 2 ^ k + index mod 2 ^ k"
  from assms have k: "k < 30" and pw: "power < 64"
    and p: "p = P_symbolic (show_nat ((2 ^ (power mod 10) * base) mod 2 ^ 64) @ hist_suffix (power div 10)) (of_nat (2 ^ power * base))"
    by (auto simp: hist_index_label_def Let_def power_def base_def split: if_splits)
  have "base < 2 ^ k + 2 ^ k" unfolding base_def by simp
  also have "\<dots> = (2::nat) ^ (k + 1)" by simp
  also have "\<dots> \<le> 2 ^ 30" using k by (intro power_increasing) simp_all
  finally have "base < 2 ^ 30" .
  moreover have "(2::nat) ^ (power mod 10) \<le> 2 ^ 9" by (intro power_increasing) simp_all
  ultimately have "2 ^ (power mod 10) * base < 2 ^ 9 * 2 ^ 30" by (intro mult_le_less_imp_less) simp_all
  then have small: "(2 ^ (power mod 10) * base) mod 2 ^ 64 = 2 ^ (power mod 10) * base" by simp
  have "(2::nat) ^ power = 2 ^ (power mod 10) * 1024 ^ (power div 10)"
    by (subst div_mult_mod_eq [of power 10, symmetric]) (simp only: power_add power_mult mult.commute, simp)
  then have eq: "2 ^ power * base = 2 ^ (power mod 10) * base * 1024 ^ (power div 10)" by simp
  moreover have "power div 10 < 7" using pw by simp
  moreover have "hist_value k index = 2 ^ power * base" by (simp add: hist_value_def power_def base_def)
  ultimately show ?thesis using p by (intro exI [of _ "2 ^ (power mod 10) * base"] exI [of _ "power div 10"]) (simp only: small simp_thms)
qed

theorem hist_label_exact_witness:
  "\<exists>m decade. decade < 7 \<and> the (hist_index_label 13 0) = P_symbolic (show_nat m @ hist_suffix decade) (of_nat (m * 1024 ^ decade)) \<and>
    m * 1024 ^ decade = hist_value 0 13"
  by (rule hist_label_exact) (simp add: hist_index_label_def)

section \<open>Linear histograms\<close>

lemma those_Some: "those xs = Some ys \<Longrightarrow> length ys = length xs \<and> (\<forall>i<length xs. xs ! i = Some (ys ! i))"
proof (induction xs arbitrary: ys)
  case (Cons x xs)
  then obtain y zs where "x = Some y" "those xs = Some zs" "ys = y # zs" by (auto split: option.splits)
  with Cons.IH [of zs] show ?case by (auto simp: nth_Cons')
qed simp

text \<open>A linear histogram over the buckets of a range has a label for every count but at most the last one, so that
  the text output prints it.\<close>

theorem linear_histogram_prints:
  assumes "0 < step \<and> mn \<le> mx" "\<forall>v\<in>set vs. unat v < 2 ^ 31" "\<exists>v\<in>set vs. v \<noteq> 0"
    "\<forall>i<length vs. vs ! i \<noteq> 0 \<longrightarrow> mn + int i * step \<le> mx + step"
    "build_linear_histogram vs mn mx step = Some h"
  shows "\<exists>st'. text_histogram env h st = Inr st'"
proof -
  have pos: "counts_as_positive v \<longleftrightarrow> v \<noteq> 0" if "v \<in> set vs" for v
    using assms(2) that by (auto simp: counts_as_positive_def Let_def word_neq_0_conv unat_gt_0)
  obtain a b where ab: "indices vs = Some (a, b)" using assms(3) pos by (cases "indices vs") (auto simp: indices_None)
  note spec = indices_Some [OF ab]
  from assms(5) ab obtain lower numbers where num: "those (map (lhist_number mn step) [a..<b + 1]) = Some numbers"
    and low: "a \<noteq> 0 \<Longrightarrow> lower \<noteq> None"
    and h: "h = Histogram lower (map (\<lambda>x. lhist_index_label x step) (filter (\<lambda>x. x \<le> mx) numbers)) (map (\<lambda>i. vs ! i) [a..<b + 1])"
    by (auto simp: build_linear_histogram_def simp del: upt_Suc split: option.splits if_splits)
  have len: "length numbers = b + 1 - a" and nth: "\<And>i. i < b + 1 - a \<Longrightarrow> numbers ! i = mn + int (a + i) * step"
    using those_Some [OF num] by (auto simp: lhist_number_def simp del: upt_Suc split: if_splits)
  have last: "vs ! b \<noteq> 0" using spec(2,4) pos by (metis nth_mem)
  have below: "x \<le> mx" if bl: "x \<in> set (butlast numbers)" for x
  proof -
    obtain j where j: "j < b - a" "x = numbers ! j"
      using bl spec(1) by (auto simp: in_set_conv_nth len nth_butlast)
    then have "x = mn + int (a + j) * step" using nth [of j] by simp
    moreover have "int (a + j) * step + step \<le> int b * step"
    proof -
      have "(int (a + j) + 1) * step \<le> int b * step" using j spec(1) assms(1) by (intro mult_right_mono) auto
      then show ?thesis by (simp add: distrib_right)
    qed
    moreover have "mn + int b * step \<le> mx + step" using assms(4) spec(2) last by blast
    ultimately show ?thesis by simp
  qed
  have ne: "numbers \<noteq> []" using len spec(1) by auto
  then have "filter (\<lambda>x. x \<le> mx) numbers = butlast numbers @ filter (\<lambda>x. x \<le> mx) [List.last numbers]"
    using below by (subst append_butlast_last_id [OF ne, symmetric]) (simp only: filter_append, simp add: filter_id_conv)
  then have labels: "b - a \<le> length (filter (\<lambda>x. x \<le> mx) numbers)" by (simp add: len)
  have "length (filter (\<lambda>x. x \<le> mx) numbers) \<le> b + 1 - a" using length_filter_le [of "\<lambda>x. x \<le> mx" numbers] len by simp
  moreover have "\<exists>c\<in>set (h_counts h). c \<noteq> 0" using last spec(1) by (auto simp: h intro!: bexI [of _ b])
  moreover have "h_lower h \<noteq> None \<or> h_labels h \<noteq> []"
  proof (cases "a = 0")
    case True
    then have "numbers ! 0 = mn" using nth [of 0] by simp
    with assms(1) ne have "mn \<in> set (filter (\<lambda>x. x \<le> mx) numbers)" by (auto simp: in_set_conv_nth intro!: exI [of _ 0])
    then show ?thesis using list.set_intros by (auto simp: h filter_empty_conv)
  qed (use low h in simp)
  ultimately have "hist_ok h" using labels spec(1) by (simp add: hist_ok_def h del: upt_Suc)
  then show ?thesis using text_histogram_lines by blast
qed

theorem linear_histogram_prints_witness:
  "\<exists>st'. text_histogram plain_env (the (build_linear_histogram [0, 2, 5, 1] 0 20 10)) new_ostream = Inr st'"
proof (rule linear_histogram_prints)
  have "indices [0, 2, 5, 1] = Some (1, 3)" by (simp add: indices_def counts_as_positive_def)
  then show "build_linear_histogram [0, 2, 5, 1] 0 20 10 = Some (the (build_linear_histogram [0, 2, 5, 1] 0 20 10))"
    by (simp add: build_linear_histogram_def lhist_number_def fits_int_def upt_conv_Cons)
  show "\<forall>i<length [0, 2, 5, 1 :: u64]. [0, 2, 5, 1 :: u64] ! i \<noteq> 0 \<longrightarrow> 0 + int i * 10 \<le> 20 + 10"
    by (auto simp: less_Suc_eq)
qed simp_all

section \<open>Counts that are lost\<close>

text \<open>A count of \<open>2 ^ 31\<close> or of \<open>2 ^ 32\<close> is not positive as an \<open>int\<close>: its bucket is left out.\<close>

lemma large_counts_lost:
  "build_histogram [2147483648, 4294967296] 1 0 = Some (Histogram None [] [])"
  by (simp add: build_histogram_def indices_def counts_as_positive_def)

text \<open>A divisor above all counts leaves a histogram that cannot be printed.\<close>

lemma divided_histogram_undefined:
  "\<exists>h. build_histogram [0, 5] 10 0 = Some h \<and> text_histogram env h st = Inl Out_undefined"
  by (simp add: build_histogram_def indices_def counts_as_positive_def bucket_label_def text_histogram_def hist_line_def bar_width_def)

end
