(* ===== verification/Format_String.thy ===== *)
theory Format_String
  imports Output Sized_Types Int_Parser
begin

text \<open>
  Format strings, \<open>src/format_string.h\<close> and \<open>src/format_string.cpp\<close>: parsing a string into fragments and
  specifications, checking it against the types of the arguments, and formatting values.
\<close>

section \<open>Matching a specification\<close>

text \<open>The nine groups of the regular expression.\<close>

datatype spec_match = Spec_match bool bool bool bool bool string string string string

text \<open>
  Each optional part starts with a character that no later part can start with, but for the \<open>0\<close> before the
  digits of the width, which the match ends behind either way. So the first way the matcher tries is
  the only one that can succeed, and no backtracking is needed.
\<close>

fun match_flag :: "char \<Rightarrow> string \<Rightarrow> bool \<times> string" where
  "match_flag f [] = (False, [])"
| "match_flag f (c # s) = (if c = f then (True, s) else (False, c # s))"

fun match_amount :: "string \<Rightarrow> string \<times> string" where
  "match_amount [] = ([], [])"
| "match_amount (c # s) =
     (if c = CHR ''*'' then ([c], s) else (takeWhile is_digit (c # s), dropWhile is_digit (c # s)))"

fun match_precision :: "string \<Rightarrow> string \<times> string" where
  "match_precision [] = ([], [])"
| "match_precision (c # s) =
     (if c = CHR ''.'' then (case match_amount s of (p, r) \<Rightarrow> if p = [] then ([], c # s) else (p, r)) else ([], c # s))"

definition is_length :: "char \<Rightarrow> bool" where
  "is_length c \<longleftrightarrow> c \<in> set ''hlLjzt''"

definition single_specifiers :: string where
  "single_specifiers = ''diouxXeEfFgGaAcspn%''"

fun match_specifier :: "string \<Rightarrow> (string \<times> string) option" where
  "match_specifier [] = None"
| "match_specifier (c # s) =
     (if c \<in> set single_specifiers then Some ([c], s)
      else if c = CHR ''r'' then
        (case s of
           [] \<Rightarrow> Some (''r'', [])
         | d # u \<Rightarrow> if d = CHR ''h'' \<or> d = CHR ''x'' then Some ([c, d], u) else Some (''r'', s))
      else None)"

definition match_after_percent :: "string \<Rightarrow> (spec_match \<times> string) option" where
  "match_after_percent s =
     (let (left, s) = match_flag (CHR ''-'') s;
          (sign, s) = match_flag (CHR ''+'') s;
          (space, s) = match_flag (CHR '' '') s;
          (alt, s) = match_flag (CHR ''#'') s;
          (zeros, s) = match_flag (CHR ''0'') s;
          (width, s) = match_amount s;
          (precision, s) = match_precision s;
          (len, s) = (takeWhile is_length s, dropWhile is_length s)
      in case match_specifier s of
           None \<Rightarrow> None
         | Some (specifier, r) \<Rightarrow> Some (Spec_match left sign space alt zeros width precision len specifier, r))"

fun match_spec :: "string \<Rightarrow> (spec_match \<times> string) option" where
  "match_spec [] = None"
| "match_spec (c # s) = (if c = CHR ''%'' then match_after_percent s else None)"

declare match_spec.simps(2) [simp del]

section \<open>Specifications\<close>

text \<open>A precision that is not given is -1 in the code.\<close>

record format_spec =
  fs_left :: bool
  fs_sign :: bool
  fs_space :: bool
  fs_alternate :: bool
  fs_zeros :: bool
  fs_width :: nat
  fs_precision :: "nat option"
  fs_length :: string
  fs_specifier :: string

text \<open>\<open>std::stoi\<close> of digits, which throws when an \<open>int\<close> cannot hold the value.\<close>

definition stoi_digits :: "string \<Rightarrow> nat option" where
  "stoi_digits s =
     (let n = digits_value 10 s in if n < 2 ^ 31 then Some n else None)"

definition amount :: "string \<Rightarrow> nat option option" where
  "amount s = (if s \<noteq> [] \<and> s \<noteq> ''*'' then map_option Some (stoi_digits s) else Some None)"

fun new_spec :: "spec_match \<Rightarrow> format_spec option" where
  "new_spec (Spec_match left sign space alt zeros width precision len specifier) =
     (case amount width of
        None \<Rightarrow> None
      | Some w \<Rightarrow>
          (case amount precision of
             None \<Rightarrow> None
           | Some p \<Rightarrow> Some \<lparr>fs_left = left, fs_sign = sign, fs_space = space, fs_alternate = alt, fs_zeros = zeros,
               fs_width = (case w of None \<Rightarrow> 0 | Some n \<Rightarrow> n), fs_precision = p, fs_length = len,
               fs_specifier = specifier\<rparr>))"

section \<open>Parsing\<close>

lemma match_flag_length: "length (snd (match_flag f s)) \<le> length s"
  by (cases s) auto

lemma match_amount_length: "length (snd (match_amount s)) \<le> length s"
  by (cases s) (auto simp: length_dropWhile_le le_SucI)

lemma match_precision_length: "length (snd (match_precision s)) \<le> length s"
proof (cases s)
  case (Cons c u)
  then show ?thesis using match_amount_length [of u] by (cases "match_amount u") auto
qed simp

lemma match_specifier_length: "match_specifier s = Some (p, r) \<Longrightarrow> length r < length s"
  by (cases s) (auto split: if_splits list.splits)

lemma match_after_percent_length:
  assumes "match_after_percent s = Some (m, r)"
  shows "length r < length s"
proof -
  define s1 where "s1 = snd (match_flag (CHR ''-'') s)"
  define s2 where "s2 = snd (match_flag (CHR ''+'') s1)"
  define s3 where "s3 = snd (match_flag (CHR '' '') s2)"
  define s4 where "s4 = snd (match_flag (CHR ''#'') s3)"
  define s5 where "s5 = snd (match_flag (CHR ''0'') s4)"
  define s6 where "s6 = snd (match_amount s5)"
  define s7 where "s7 = snd (match_precision s6)"
  obtain p where "match_specifier (dropWhile is_length s7) = Some (p, r)"
    using assms by (auto simp: match_after_percent_def s1_def s2_def s3_def s4_def s5_def s6_def s7_def Let_def
        split: prod.splits option.splits)
  then have "length r < length (dropWhile is_length s7)" by (rule match_specifier_length)
  moreover have "length (dropWhile is_length s7) \<le> length s7" by (rule length_dropWhile_le)
  moreover have "length s7 \<le> length s6" unfolding s7_def by (rule match_precision_length)
  moreover have "length s6 \<le> length s5" unfolding s6_def by (rule match_amount_length)
  moreover have "length s5 \<le> length s4" "length s4 \<le> length s3" "length s3 \<le> length s2" "length s2 \<le> length s1"
    "length s1 \<le> length s" by (simp_all add: s5_def s4_def s3_def s2_def s1_def match_flag_length)
  ultimately show ?thesis by linarith
qed

lemma match_spec_length: "match_spec s = Some (m, r) \<Longrightarrow> length r < length s"
  by (cases s) (auto simp: match_spec.simps(2) dest: match_after_percent_length split: if_splits)

text \<open>
  The loop over the matches, a character at a time; the second argument is the fragment collected so far.
  A number that \<open>std::stoi\<close> refuses is an exception, which nobody catches.
\<close>

function parse_format :: "string \<Rightarrow> string \<Rightarrow> (string list \<times> format_spec list) option" where
  "parse_format [] fragment = Some ([fragment], [])"
| "parse_format (c # s) fragment =
     (case match_spec (c # s) of
        None \<Rightarrow> parse_format s (fragment @ [c])
      | Some (m, r) \<Rightarrow>
          (case new_spec m of
             None \<Rightarrow> None
           | Some spec \<Rightarrow>
               if fs_specifier spec = ''%'' then parse_format r (fragment @ ''%'')
               else map_option (\<lambda>(frags, specs). (fragment # frags, spec # specs)) (parse_format r [])))"
  by pat_completeness auto
termination
  by (relation "measure (\<lambda>(s, fragment). length s)") (auto dest: match_spec_length)

declare parse_format.simps(2) [simp del]

record format_string =
  fmt_fragments :: "string list"
  fmt_specs :: "format_spec list"
  fmt_text :: string

definition format_string_of :: "string \<Rightarrow> format_string option" where
  "format_string_of s =
     (case parse_format s [] of
        None \<Rightarrow> None
      | Some (frags, specs) \<Rightarrow> Some \<lparr>fmt_fragments = frags, fmt_specs = specs, fmt_text = s\<rparr>)"

section \<open>Checking\<close>

definition any_integer :: "kind list" where
  "any_integer = [Ty_integer, Ty_boolean, Ty_pointer]"

definition required_type :: "string \<Rightarrow> kind list option" where
  "required_type = map_of
     [(''d'', any_integer), (''i'', any_integer), (''u'', any_integer), (''o'', any_integer), (''x'', any_integer),
      (''X'', any_integer), (''c'', any_integer), (''r'', [Ty_buffer]), (''rx'', [Ty_buffer]), (''rh'', [Ty_buffer]),
      (''s'', []), (''p'', any_integer)]"

definition check_spec :: "format_spec \<Rightarrow> sized_type \<Rightarrow> string option" where
  "check_spec spec t =
     (if ty t = Ty_none then Some (''unable to print none type for specifier: '' @ fs_specifier spec)
      else case required_type (fs_specifier spec) of
          None \<Rightarrow> Some (''unsupported format specifier: '' @ fs_specifier spec)
        | Some allowed \<Rightarrow>
            if allowed = [] \<or> ty t \<in> set allowed then None
            else Some (''unsupported format specifier for type '' @ [CHR 0x27] @ typestr t @ [CHR 0x27] @ '': '' @
              fs_specifier spec))"

fun check_specs :: "format_spec list \<Rightarrow> sized_type list \<Rightarrow> string option" where
  "check_specs (spec # specs) (t # ts) = (case check_spec spec t of Some e \<Rightarrow> Some e | None \<Rightarrow> check_specs specs ts)"
| "check_specs specs ts = None"

definition check_format :: "format_string \<Rightarrow> sized_type list \<Rightarrow> string option" where
  "check_format fs args =
     (let expected = show_nat (length (fmt_specs fs)); supplied = show_nat (length args) in
      if length args < length (fmt_specs fs) then
        Some (''not enough arguments for format string ('' @ supplied @ '' supplied, '' @ expected @ '' expected)'')
      else if length (fmt_specs fs) < length args then
        Some (''too many arguments for format string ('' @ supplied @ '' supplied, '' @ expected @ '' expected)'')
      else check_specs (fmt_specs fs) args)"

section \<open>Formatting\<close>

text \<open>
  What is left to the implementation of the language: the output environment, the conversion of a double to an
  integer (undefined where the integer cannot hold it), and the printed form of a floating point number under a
  specification.
\<close>

datatype number = Num_int int | Num_double u64

record format_env =
  fe_out :: out_env
  fe_truncate :: "u64 \<Rightarrow> int"
  fe_float :: "format_spec \<Rightarrow> number \<Rightarrow> string"

fun number_of :: "primitive \<Rightarrow> number option" where
  "number_of (P_symbolic s n) = Some (Num_int (uint n))"
| "number_of (P_int n) = Some (Num_int (sint n))"
| "number_of (P_uint n) = Some (Num_int (uint n))"
| "number_of (P_double d) = Some (Num_double d)"
| "number_of (P_bool b) = Some (Num_int (if b then 1 else 0))"
| "number_of p = None"

fun number_int :: "format_env \<Rightarrow> number \<Rightarrow> int" where
  "number_int env (Num_int i) = i"
| "number_int env (Num_double d) = fe_truncate env d"

definition as_number :: "format_env \<Rightarrow> (number \<Rightarrow> writer) \<Rightarrow> primitive \<Rightarrow> ostream \<Rightarrow> string + ostream" where
  "as_number env put_number p st =
     (case number_of p of
        Some n \<Rightarrow> Inr (put_number n st)
      | None \<Rightarrow> Inl (''invalid integer conversion: '' @ primitive_string (fe_out env) p))"

text \<open>The casts of the length modifiers. A \<open>char\<close> is signed or not.\<close>

definition cast_bits :: "string \<Rightarrow> nat" where
  "cast_bits m =
     (if m = ''hh'' then 8 else if m = ''h'' then 16
      else if m \<in> {''l'', ''ll'', ''j'', ''z'', ''t''} then 64 else 32)"

definition signed_cast :: "nat \<Rightarrow> int \<Rightarrow> int" where
  "signed_cast w i = (let r = i mod 2 ^ w in if 2 ^ (w - 1) \<le> r then r - 2 ^ w else r)"

definition as_signed_integer :: "format_env \<Rightarrow> string \<Rightarrow> primitive \<Rightarrow> ostream \<Rightarrow> string + ostream" where
  "as_signed_integer env m =
     as_number env (\<lambda>n. put_signed 64
       (if m = ''hh'' \<and> \<not> oe_signed_char (fe_out env) then number_int env n mod 256
        else signed_cast (cast_bits m) (number_int env n)))"

definition as_unsigned_integer :: "format_env \<Rightarrow> string \<Rightarrow> primitive \<Rightarrow> ostream \<Rightarrow> string + ostream" where
  "as_unsigned_integer env m =
     as_number env (\<lambda>n. put_unsigned (nat (number_int env n mod 2 ^ cast_bits m)))"

text \<open>\<open>as_signed_integer<char>\<close>, where every cast keeps the low byte, and \<open>as_unsigned_integer<void*>\<close>.\<close>

definition as_character :: "format_env \<Rightarrow> primitive \<Rightarrow> ostream \<Rightarrow> string + ostream" where
  "as_character env = as_number env (\<lambda>n. put [chr_of (nat (number_int env n mod 256))])"

text \<open>A pointer is written in base 16 with a prefix, as libstdc++ does, and the flags are restored.\<close>

definition put_pointer :: "nat \<Rightarrow> writer" where
  "put_pointer n st =
     (put_unsigned n (st\<lparr>os_base := 16, os_showbase := True, os_upper := False\<rparr>))
       \<lparr>os_base := os_base st, os_showbase := os_showbase st, os_upper := os_upper st\<rparr>"

definition as_pointer :: "format_env \<Rightarrow> primitive \<Rightarrow> ostream \<Rightarrow> string + ostream" where
  "as_pointer env = as_number env (\<lambda>n. put_pointer (nat (number_int env n mod 2 ^ 64)))"

definition as_floating_point :: "format_env \<Rightarrow> format_spec \<Rightarrow> primitive \<Rightarrow> ostream \<Rightarrow> string + ostream" where
  "as_floating_point env spec = as_number env (\<lambda>n. put (fe_float env spec n))"

definition as_string_value :: "format_env \<Rightarrow> primitive \<Rightarrow> ostream \<Rightarrow> string + ostream" where
  "as_string_value env p st = Inr (text_primitive (fe_out env) p st)"

definition as_buffer :: "format_env \<Rightarrow> bool \<Rightarrow> bool \<Rightarrow> primitive \<Rightarrow> ostream \<Rightarrow> string + ostream" where
  "as_buffer env keep_ascii escape_hex p st =
     (case p of
        P_buffer buf \<Rightarrow> Inr (put (hex_format_buffer buf keep_ascii escape_hex) st)
      | _ \<Rightarrow> as_string_value env p st)"

definition specifier_dispatch :: "format_env \<Rightarrow> format_spec \<Rightarrow> primitive \<Rightarrow> ostream \<Rightarrow> string + ostream" where
  "specifier_dispatch env spec =
     (let s = fs_specifier spec; m = fs_length spec in
      if s \<in> {''d'', ''i''} then as_signed_integer env m
      else if s \<in> {''u'', ''o'', ''x'', ''X''} then as_unsigned_integer env m
      else if s \<in> {''f'', ''F'', ''e'', ''E'', ''g'', ''G'', ''a'', ''A''} then as_floating_point env spec
      else if s = ''c'' then as_character env
      else if s = ''r'' then as_buffer env True True
      else if s = ''rx'' then as_buffer env False True
      else if s = ''rh'' then as_buffer env False False
      else if s = ''p'' then as_pointer env
      else as_string_value env)"

definition spec_stream :: "format_spec \<Rightarrow> ostream" where
  "spec_stream spec =
     (let s = fs_specifier spec in
      new_ostream\<lparr>os_left := fs_left spec, os_width := fs_width spec,
        os_fill := (if fs_zeros spec then CHR ''0'' else CHR '' ''),
        os_base := (if s = ''o'' then 8 else if s = ''x'' \<or> s = ''X'' then 16 else 10),
        os_upper := (s = ''X''), os_showbase := fs_alternate spec, os_showpos := fs_sign spec\<rparr>)"

definition apply_spec :: "format_env \<Rightarrow> format_spec \<Rightarrow> primitive \<Rightarrow> string + string" where
  "apply_spec env spec p = map_sum id os_text (specifier_dispatch env spec p (spec_stream spec))"

definition format_arg :: "format_env \<Rightarrow> format_spec \<Rightarrow> primitive \<Rightarrow> string" where
  "format_arg env spec p = (case apply_spec env spec p of Inr s \<Rightarrow> s | Inl e \<Rightarrow> ''!{'' @ e @ ''}'')"

text \<open>More arguments than specifications are read past the end of the vectors.\<close>

definition format_args :: "format_env \<Rightarrow> format_string \<Rightarrow> primitive list \<Rightarrow> string option" where
  "format_args env fs args =
     (if length (fmt_specs fs) < length args \<or> fmt_fragments fs = [] then None
      else Some (concat (map (\<lambda>i. fmt_fragments fs ! i @ format_arg env (fmt_specs fs ! i) (args ! i)) [0..<length args]) @
        last (fmt_fragments fs)))"


section \<open>Printing a format string\<close>

definition escape_percent :: "string \<Rightarrow> string" where
  "escape_percent f = concat (map (\<lambda>c. if c = CHR ''%'' then ''%%'' else [c]) f)"

definition render_spec :: "format_spec \<Rightarrow> string" where
  "render_spec spec =
     [CHR ''%''] @ (if fs_left spec then ''-'' else []) @ (if fs_sign spec then ''+'' else []) @
     (if fs_space spec then '' '' else []) @ (if fs_alternate spec then ''#'' else []) @
     (if fs_zeros spec then ''0'' else []) @ (if 0 < fs_width spec then show_nat (fs_width spec) else []) @
     (case fs_precision spec of None \<Rightarrow> [] | Some n \<Rightarrow> CHR ''.'' # show_nat n) @ fs_length spec @ fs_specifier spec"

fun render_format :: "string list \<Rightarrow> format_spec list \<Rightarrow> string" where
  "render_format (f # fs) (spec # specs) = escape_percent f @ render_spec spec @ render_format fs specs"
| "render_format (f # fs) [] = escape_percent f"
| "render_format [] specs = []"

definition is_specifier :: "string \<Rightarrow> bool" where
  "is_specifier s \<longleftrightarrow> (\<exists>c\<in>set single_specifiers. c \<noteq> CHR ''%'' \<and> s = [c]) \<or> s \<in> {''r'', ''rh'', ''rx''}"

definition wf_spec :: "format_spec \<Rightarrow> bool" where
  "wf_spec spec \<longleftrightarrow> fs_width spec < 2 ^ 31 \<and> (case fs_precision spec of None \<Rightarrow> True | Some n \<Rightarrow> n < 2 ^ 31) \<and>
     list_all is_length (fs_length spec) \<and> is_specifier (fs_specifier spec)"

text \<open>An \<open>h\<close> or \<open>x\<close> right after \<open>%r\<close> would be taken into the specification.\<close>

definition may_follow :: "format_spec \<Rightarrow> string \<Rightarrow> bool" where
  "may_follow spec f \<longleftrightarrow> (fs_specifier spec = ''r'' \<longrightarrow> f = [] \<or> hd f \<noteq> CHR ''h'' \<and> hd f \<noteq> CHR ''x'')"

fun wf_format :: "string list \<Rightarrow> format_spec list \<Rightarrow> bool" where
  "wf_format [f] [] = True"
| "wf_format (f # g # fs) (spec # specs) = (wf_spec spec \<and> may_follow spec g \<and> wf_format (g # fs) specs)"
| "wf_format fs specs = False"

section \<open>Matching what was printed\<close>

text \<open>The parts of a specification in order; a text \<open>starts n\<close> when its first character belongs to part \<open>n\<close> or later.\<close>

definition part :: "char \<Rightarrow> nat" where
  "part c =
     (if c = CHR ''-'' then 0 else if c = CHR ''+'' then 1 else if c = CHR '' '' then 2 else if c = CHR ''#'' then 3
      else if c = CHR ''0'' then 4 else if is_digit c \<or> c = CHR ''*'' then 5 else if c = CHR ''.'' then 6
      else if is_length c then 7 else 8)"

fun starts :: "nat \<Rightarrow> string \<Rightarrow> bool" where
  "starts n [] = False"
| "starts n (c # s) = (n \<le> part c)"

lemma starts_mono: "starts n s \<Longrightarrow> m \<le> n \<Longrightarrow> starts m s"
  by (cases s) auto

lemma part_flags: "part CHR ''-'' = 0" "part CHR ''+'' = 1" "part CHR '' '' = 2" "part CHR ''#'' = 3" "part CHR ''0'' = 4"
  "part CHR ''*'' = 5" "part CHR ''.'' = 6"
  by code_simp+

lemma match_flag_printed:
  "starts (Suc (part f)) s \<Longrightarrow> match_flag f ((if b then [f] else []) @ s) = (b, s)"
  by (cases s) auto

lemma starts_flag: "starts (Suc (part f)) s \<Longrightarrow> starts (part f) ((if b then [f] else []) @ s)"
  by (cases s) auto

lemma starts_digit: "starts 6 s \<Longrightarrow> takeWhile is_digit (show_nat n @ s) = show_nat n \<and> dropWhile is_digit (show_nat n @ s) = s"
proof -
  assume s: "starts 6 s"
  have d: "\<forall>x\<in>set (show_nat n). is_digit x" using show_nat_digits by blast
  have "takeWhile is_digit s = []" "dropWhile is_digit s = s"
    using s by (cases s; auto simp: part_def split: if_splits)+
  with d show ?thesis by (simp add: takeWhile_append2 dropWhile_append2)
qed

lemma digit_not_star: "is_digit c \<Longrightarrow> c \<noteq> CHR ''*''"
  by (auto simp: is_digit_def char_code_def)

lemma match_amount_show_nat: "starts 6 s \<Longrightarrow> match_amount (show_nat n @ s) = (show_nat n, s)"
  using starts_digit [of s n] show_nat_Cons [of n] by (auto simp: digit_not_star)

lemma match_amount_none: "starts 6 s \<Longrightarrow> match_amount s = ([], s)"
  by (cases s) (auto simp: part_def split: if_splits)

lemma match_width_printed:
  "starts 6 s \<Longrightarrow> match_amount ((if 0 < w then show_nat w else []) @ s) = (if 0 < w then show_nat w else [], s)"
  by (simp add: match_amount_show_nat match_amount_none)

lemma starts_width: "starts 6 s \<Longrightarrow> starts 5 ((if 0 < w then show_nat w else []) @ s)"
proof (cases "0 < w")
  case True
  then obtain c cs where c: "show_nat w = c # cs" "is_digit c" "49 \<le> char_code c" using show_nat_Cons [of w] by auto
  then have "c \<noteq> CHR ''0''" "c \<noteq> CHR ''-''" "c \<noteq> CHR ''+''" "c \<noteq> CHR '' ''" "c \<noteq> CHR ''#''"
    by (auto simp: char_code_def)
  with c True show ?thesis by (simp add: part_def)
qed (simp add: starts_mono)

lemma match_precision_printed:
  assumes "starts 7 s"
  shows "match_precision ((case p of None \<Rightarrow> [] | Some n \<Rightarrow> CHR ''.'' # show_nat n) @ s) =
    ((case p of None \<Rightarrow> [] | Some n \<Rightarrow> show_nat n), s)"
proof (cases p)
  case None
  with assms show ?thesis by (cases s) (auto simp: part_flags)
next
  case (Some n)
  with assms show ?thesis using match_amount_show_nat [of s n] by (simp add: starts_mono)
qed

lemma starts_precision: "starts 7 s \<Longrightarrow> starts 6 ((case p of None \<Rightarrow> [] | Some n \<Rightarrow> CHR ''.'' # show_nat n) @ s)"
  by (cases p) (auto simp: part_flags starts_mono)

lemma length_printed:
  assumes "starts 8 s" "list_all is_length l"
  shows "takeWhile is_length (l @ s) = l" "dropWhile is_length (l @ s) = s"
proof -
  have "takeWhile is_length s = []" "dropWhile is_length s = s"
    using assms(1) by (cases s; auto simp: part_def split: if_splits)+
  then show "takeWhile is_length (l @ s) = l" "dropWhile is_length (l @ s) = s"
    using assms(2) by (simp_all add: list_all_iff takeWhile_append2 dropWhile_append2)
qed

lemma length_parts: "list_all (\<lambda>c. part c = 7) ''hlLjzt''"
  by code_simp

lemma specifier_parts: "list_all (\<lambda>c. part c = 8) (CHR ''r'' # single_specifiers)"
  by code_simp

lemma starts_length:
  assumes "starts 8 s" "list_all is_length l"
  shows "starts 7 (l @ s)"
proof (cases l)
  case (Cons c u)
  with assms(2) have "c \<in> set ''hlLjzt''" by (simp add: is_length_def)
  then have "part c = 7" using length_parts by (simp only: list_all_iff)
  with Cons show ?thesis by simp
qed (use assms in \<open>simp add: starts_mono\<close>)

lemma starts_specifier:
  assumes "is_specifier s"
  shows "starts 8 (s @ t)"
proof -
  have "\<exists>c u. s = c # u \<and> c \<in> set (CHR ''r'' # single_specifiers)" using assms by (auto simp: is_specifier_def)
  then show ?thesis using specifier_parts by (auto simp: list_all_iff)
qed

lemma r_not_single: "CHR ''r'' \<notin> set single_specifiers"
  by code_simp

lemma match_specifier_printed:
  assumes "is_specifier s" "s = ''r'' \<longrightarrow> t = [] \<or> hd t \<noteq> CHR ''h'' \<and> hd t \<noteq> CHR ''x''"
  shows "match_specifier (s @ t) = Some (s, t)"
  using assms r_not_single by (cases t) (auto simp: is_specifier_def)

lemma amount_show_nat: "n < 2 ^ 31 \<Longrightarrow> amount (show_nat n) = Some (Some n)"
proof -
  assume "n < 2 ^ 31"
  moreover have "\<not> is_digit (CHR ''*'')" by code_simp
  then have "show_nat n \<noteq> ''*''" using show_nat_Cons [of n] by auto
  ultimately show ?thesis by (simp add: amount_def stoi_digits_def)
qed

lemma amount_Nil: "amount [] = Some None"
  by (simp add: amount_def)

lemma match_spec_printed:
  assumes "wf_spec spec" "fs_specifier spec = ''r'' \<longrightarrow> t = [] \<or> hd t \<noteq> CHR ''h'' \<and> hd t \<noteq> CHR ''x''"
  shows "\<exists>m. match_spec (render_spec spec @ t) = Some (m, t) \<and> new_spec m = Some spec"
proof -
  define w where "w = (if 0 < fs_width spec then show_nat (fs_width spec) else [])"
  define p where "p = (case fs_precision spec of None \<Rightarrow> [] | Some n \<Rightarrow> CHR ''.'' # show_nat n)"
  define q where "q = (case fs_precision spec of None \<Rightarrow> [] | Some n \<Rightarrow> show_nat n)"
  define s9 where "s9 = fs_specifier spec @ t"
  define s8 where "s8 = fs_length spec @ s9"
  define s7 where "s7 = p @ s8"
  define s6 where "s6 = w @ s7"
  define s5 where "s5 = (if fs_zeros spec then [CHR ''0''] else []) @ s6"
  define s4 where "s4 = (if fs_alternate spec then [CHR ''#''] else []) @ s5"
  define s3 where "s3 = (if fs_space spec then [CHR '' ''] else []) @ s4"
  define s2 where "s2 = (if fs_sign spec then [CHR ''+''] else []) @ s3"
  define s1 where "s1 = (if fs_left spec then [CHR ''-''] else []) @ s2"
  have wf: "list_all is_length (fs_length spec)" "is_specifier (fs_specifier spec)" using assms(1) by (auto simp: wf_spec_def)
  have st: "starts 8 s9" unfolding s9_def by (rule starts_specifier [OF wf(2)])
  then have st8: "starts 7 s8" unfolding s8_def using wf(1) by (rule starts_length)
  then have st7: "starts 6 s7" unfolding s7_def p_def by (rule starts_precision)
  then have st6: "starts 5 s6" unfolding s6_def w_def by (rule starts_width)
  then have st5: "starts 4 s5" unfolding s5_def using starts_flag [of "CHR ''0''"] by (simp add: part_flags)
  then have st4: "starts 3 s4" unfolding s4_def using starts_flag [of "CHR ''#''"] by (simp add: part_flags)
  then have st3: "starts 2 s3" unfolding s3_def using starts_flag [of "CHR '' ''"] by (simp add: part_flags)
  then have st2: "starts 1 s2" unfolding s2_def using starts_flag [of "CHR ''+''"] by (simp add: part_flags numeral_2_eq_2)
  have "match_flag (CHR ''-'') s1 = (fs_left spec, s2)" unfolding s1_def
    by (rule match_flag_printed) (use st2 in \<open>simp add: part_flags\<close>)
  moreover have "match_flag (CHR ''+'') s2 = (fs_sign spec, s3)" unfolding s2_def
    by (rule match_flag_printed) (use st3 in \<open>simp add: part_flags numeral_2_eq_2\<close>)
  moreover have "match_flag (CHR '' '') s3 = (fs_space spec, s4)" unfolding s3_def
    by (rule match_flag_printed) (use st4 in \<open>simp add: part_flags\<close>)
  moreover have "match_flag (CHR ''#'') s4 = (fs_alternate spec, s5)" unfolding s4_def
    by (rule match_flag_printed) (use st5 in \<open>simp add: part_flags\<close>)
  moreover have "match_flag (CHR ''0'') s5 = (fs_zeros spec, s6)" unfolding s5_def
    by (rule match_flag_printed) (use st6 in \<open>simp add: part_flags\<close>)
  moreover have "match_amount s6 = (w, s7)" unfolding s6_def w_def by (rule match_width_printed [OF st7])
  moreover have "match_precision s7 = (q, s8)" unfolding s7_def p_def q_def by (rule match_precision_printed [OF st8])
  moreover have "takeWhile is_length s8 = fs_length spec" "dropWhile is_length s8 = s9"
    unfolding s8_def by (rule length_printed [OF st wf(1)])+
  moreover have "match_specifier s9 = Some (fs_specifier spec, t)"
    unfolding s9_def by (rule match_specifier_printed [OF wf(2) assms(2)])
  ultimately have "match_after_percent s1 = Some (Spec_match (fs_left spec) (fs_sign spec) (fs_space spec)
      (fs_alternate spec) (fs_zeros spec) w q (fs_length spec) (fs_specifier spec), t)"
    by (simp add: match_after_percent_def)
  moreover have "render_spec spec @ t = CHR ''%'' # s1"
    by (simp add: render_spec_def s1_def s2_def s3_def s4_def s5_def s6_def s7_def s8_def s9_def w_def p_def)
  moreover have "amount w = Some (if 0 < fs_width spec then Some (fs_width spec) else None)"
    using assms(1) by (simp add: w_def amount_show_nat amount_Nil wf_spec_def)
  moreover have "amount q = Some (fs_precision spec)"
    using assms(1) by (cases "fs_precision spec") (simp_all add: q_def amount_show_nat amount_Nil wf_spec_def)
  ultimately show ?thesis by (simp add: match_spec.simps(2))
qed

lemma match_double_percent: "match_spec (CHR ''%'' # CHR ''%'' # s) =
   Some (Spec_match False False False False False [] [] [] ''%'', s)"
proof -
  have "\<not> is_digit (CHR ''%'')" "\<not> is_length (CHR ''%'')" "CHR ''%'' \<in> set single_specifiers" by code_simp+
  then show ?thesis by (simp add: match_spec.simps(2) match_after_percent_def Let_def)
qed

lemma parse_escaped: "parse_format (escape_percent f @ t) acc = parse_format t (acc @ f)"
proof (induction f arbitrary: acc)
  case Nil
  show ?case by (simp add: escape_percent_def)
next
  case (Cons c f)
  show ?case
  proof (cases "c = CHR ''%''")
    case True
    then have "escape_percent (c # f) @ t = CHR ''%'' # CHR ''%'' # escape_percent f @ t" by (simp add: escape_percent_def)
    with Cons.IH True show ?thesis
      by (simp add: parse_format.simps(2) match_double_percent amount_Nil)
  next
    case False
    then have "escape_percent (c # f) @ t = c # escape_percent f @ t" by (simp add: escape_percent_def)
    with Cons.IH False show ?thesis by (simp add: parse_format.simps(2) match_spec.simps(2))
  qed
qed

lemma specifier_not_percent: "is_specifier s \<Longrightarrow> s \<noteq> ''%''"
  by (auto simp: is_specifier_def)

lemma hd_render_format:
  "may_follow spec f \<Longrightarrow> fs_specifier spec = ''r'' \<longrightarrow>
    render_format (f # fs) specs = [] \<or> hd (render_format (f # fs) specs) \<noteq> CHR ''h'' \<and> hd (render_format (f # fs) specs) \<noteq> CHR ''x''"
  by (cases f; cases specs) (auto simp: may_follow_def escape_percent_def render_spec_def)

lemma parse_rendered: "wf_format frags specs \<Longrightarrow> parse_format (render_format frags specs) [] = Some (frags, specs)"
proof (induction frags specs rule: wf_format.induct)
  case (1 f)
  show ?case using parse_escaped [of f "[]" "[]"] by simp
next
  case (2 f g fs spec specs)
  then have wf: "wf_spec spec" "may_follow spec g" "wf_format (g # fs) specs" by auto
  let ?t = "render_format (g # fs) specs"
  obtain m where m: "match_spec (render_spec spec @ ?t) = Some (m, ?t)" "new_spec m = Some spec"
    using match_spec_printed [OF wf(1) hd_render_format [OF wf(2)]] by blast
  have "parse_format (render_format (f # g # fs) (spec # specs)) [] = parse_format (render_spec spec @ ?t) f"
    using parse_escaped [of f "render_spec spec @ ?t" "[]"] by simp
  moreover obtain r where r: "render_spec spec @ ?t = CHR ''%'' # r" by (simp add: render_spec_def)
  moreover have "parse_format (CHR ''%'' # r) f = map_option (\<lambda>(frags, specs). (f # frags, spec # specs)) (parse_format ?t [])"
    using m wf(1) specifier_not_percent by (subst parse_format.simps(2)) (simp add: r wf_spec_def)
  ultimately show ?case using "2.IH" wf(3) by simp
qed auto

text \<open>C8: A format string that is printed from fragments and specifications parses back into them: every flag, width,
  precision, length modifier and specifier is recovered, and a percent sign in a fragment is doubled and read
  back as one.\<close>

theorem format_string_roundtrip:
  assumes "wf_format frags specs"
  shows "format_string_of (render_format frags specs) =
    Some \<lparr>fmt_fragments = frags, fmt_specs = specs, fmt_text = render_format frags specs\<rparr>"
  by (simp add: format_string_of_def parse_rendered [OF assms])

definition sample_spec :: "string \<Rightarrow> format_spec" where
  "sample_spec s = \<lparr>fs_left = False, fs_sign = False, fs_space = False, fs_alternate = False, fs_zeros = False,
     fs_width = 0, fs_precision = None, fs_length = [], fs_specifier = s\<rparr>"

theorem format_string_roundtrip_witness:
  "format_string_of (render_format [''100% of '', '' in ''] [(sample_spec ''d'')\<lparr>fs_left := True, fs_width := 12, fs_length := ''ll''\<rparr>]) =
    Some \<lparr>fmt_fragments = [''100% of '', '' in ''],
      fmt_specs = [(sample_spec ''d'')\<lparr>fs_left := True, fs_width := 12, fs_length := ''ll''\<rparr>],
      fmt_text = ''100%% of %-12lld in ''\<rparr>"
proof -
  have "wf_format [''100% of '', '' in ''] [(sample_spec ''d'')\<lparr>fs_left := True, fs_width := 12, fs_length := ''ll''\<rparr>]"
    by (simp add: sample_spec_def wf_spec_def is_specifier_def single_specifiers_def is_length_def may_follow_def)
  moreover have "render_format [''100% of '', '' in ''] [(sample_spec ''d'')\<lparr>fs_left := True, fs_width := 12, fs_length := ''ll''\<rparr>]
    = ''100%% of %-12lld in ''" by code_simp
  ultimately show ?thesis using format_string_roundtrip by metis
qed


section \<open>What parsing gives\<close>

lemma stoi_digits_bound: "stoi_digits s = Some n \<Longrightarrow> n < 2 ^ 31"
  by (auto simp: stoi_digits_def Let_def split: if_splits)

lemma amount_bound: "amount s = Some (Some n) \<Longrightarrow> n < 2 ^ 31"
  by (auto simp: amount_def dest: stoi_digits_bound split: if_splits)

lemma match_specifier_parsed:
  assumes "match_specifier s = Some (p, r)"
  shows "p = ''%'' \<or> is_specifier p" "p = ''r'' \<longrightarrow> r = [] \<or> hd r \<noteq> CHR ''h'' \<and> hd r \<noteq> CHR ''x''"
proof -
  obtain c u where s: "s = c # u" using assms by (cases s) auto
  show "p = ''%'' \<or> is_specifier p"
  proof (cases "c \<in> set single_specifiers")
    case True
    with assms s show ?thesis by (auto simp: is_specifier_def)
  next
    case False
    with assms s show ?thesis by (cases u) (auto simp: is_specifier_def split: if_splits)
  qed
  show "p = ''r'' \<longrightarrow> r = [] \<or> hd r \<noteq> CHR ''h'' \<and> hd r \<noteq> CHR ''x''"
    using assms s r_not_single by (cases u) (auto split: if_splits)
qed

lemma match_spec_parsed:
  assumes "match_spec s = Some (m, r)" "new_spec m = Some spec"
  shows "fs_specifier spec = ''%'' \<or> wf_spec spec" "may_follow spec r"
proof -
  obtain u where "match_after_percent u = Some (m, r)"
    using assms(1) by (cases s) (auto simp: match_spec.simps(2) split: if_splits)
  then obtain lf sg sp al z w pr l p v where m: "m = Spec_match lf sg sp al z w pr (takeWhile is_length l) p"
    and p: "match_specifier v = Some (p, r)"
    by (auto simp: match_after_percent_def Let_def split: prod.splits option.splits)
  from assms(2) m have spec: "fs_specifier spec = p" "fs_length spec = takeWhile is_length l" "fs_width spec < 2 ^ 31"
    "amount pr = Some (fs_precision spec)"
    by (auto dest: amount_bound split: option.splits)
  then have "case fs_precision spec of None \<Rightarrow> True | Some n \<Rightarrow> n < 2 ^ 31"
    using amount_bound [of pr] by (cases "fs_precision spec") auto
  have "list_all is_length (takeWhile is_length l)" by (auto simp: list_all_iff dest: set_takeWhileD)
  then show "fs_specifier spec = ''%'' \<or> wf_spec spec"
    using match_specifier_parsed(1) [OF p] spec \<open>case fs_precision spec of None \<Rightarrow> True | Some n \<Rightarrow> n < 2 ^ 31\<close>
    unfolding wf_spec_def by auto
  show "may_follow spec r"
    using match_specifier_parsed(2) [OF p] spec unfolding may_follow_def by auto
qed

lemma may_follow_hd: "may_follow spec r \<Longrightarrow> f = [] \<or> r \<noteq> [] \<and> hd f = hd r \<Longrightarrow> may_follow spec f"
  by (auto simp: may_follow_def)

lemma parse_format_wf:
  "parse_format s acc = Some (frags, specs) \<Longrightarrow>
    wf_format frags specs \<and> (\<exists>f fs. frags = (acc @ f) # fs \<and> (f = [] \<or> s \<noteq> [] \<and> hd f = hd s))"
proof (induction s acc arbitrary: frags specs rule: parse_format.induct)
  case (1 fragment)
  then show ?case by auto
next
  case (2 c s fragment)
  show ?case
  proof (cases "match_spec (c # s)")
    case None
    with "2.prems" have "parse_format s (fragment @ [c]) = Some (frags, specs)" by (simp add: parse_format.simps(2))
    with "2.IH"(1) [OF None] obtain f fs where "wf_format frags specs" "frags = ((fragment @ [c]) @ f) # fs" by blast
    then show ?thesis by (intro conjI exI [of _ "c # f"] exI [of _ fs]) auto
  next
    case (Some mr)
    then obtain m r where m: "match_spec (c # s) = Some (m, r)" by (cases mr) auto
    then have c: "c = CHR ''%''" by (auto simp: match_spec.simps(2) split: if_splits)
    from "2.prems" m obtain spec where spec: "new_spec m = Some spec"
      by (auto simp: parse_format.simps(2) split: option.splits)
    show ?thesis
    proof (cases "fs_specifier spec = ''%''")
      case True
      with "2.prems" m spec have "parse_format r (fragment @ ''%'') = Some (frags, specs)" by (simp add: parse_format.simps(2))
      with "2.IH"(2) [OF m refl spec True] obtain f fs where "wf_format frags specs" "frags = ((fragment @ ''%'') @ f) # fs" by blast
      with c show ?thesis by (intro conjI exI [of _ "CHR ''%'' # f"] exI [of _ fs]) auto
    next
      case False
      with "2.prems" m spec obtain frags' specs' where p: "parse_format r [] = Some (frags', specs')"
        and res: "frags = fragment # frags'" "specs = spec # specs'"
        by (auto simp: parse_format.simps(2))
      from "2.IH"(3) [OF m refl spec False p] obtain f fs where wf: "wf_format frags' specs'" "frags' = f # fs"
        "f = [] \<or> r \<noteq> [] \<and> hd f = hd r" by auto
      moreover have "wf_spec spec" using match_spec_parsed(1) [OF m spec] False by blast
      moreover have "may_follow spec f" using match_spec_parsed(2) [OF m spec] wf(3) by (rule may_follow_hd)
      ultimately show ?thesis using res by auto
    qed
  qed
qed

lemma wf_format_length: "wf_format frags specs \<Longrightarrow> length frags = Suc (length specs)"
  by (induction frags specs rule: wf_format.induct) auto

lemma parsed_format_wf: "format_string_of s = Some fs \<Longrightarrow> wf_format (fmt_fragments fs) (fmt_specs fs)"
  by (auto simp: format_string_of_def dest: parse_format_wf split: option.splits)

text \<open>A parsed format string has one fragment more than specifications, its specifications are well formed, and
  printing it again gives a string that parses to the same fragments and specifications.\<close>

theorem parsed_format_normal:
  assumes "format_string_of s = Some fs"
  shows "length (fmt_fragments fs) = Suc (length (fmt_specs fs)) \<and> wf_format (fmt_fragments fs) (fmt_specs fs) \<and>
    map_option (\<lambda>g. (fmt_fragments g, fmt_specs g)) (format_string_of (render_format (fmt_fragments fs) (fmt_specs fs))) =
      Some (fmt_fragments fs, fmt_specs fs)"
  using parsed_format_wf [OF assms] by (simp add: wf_format_length format_string_of_def parse_rendered)

section \<open>The width\<close>

definition appends :: "writer \<Rightarrow> bool" where
  "appends w \<longleftrightarrow> (\<forall>st. \<exists>t. os_text (w st) = os_text st @ t)"

definition fills :: "writer \<Rightarrow> bool" where
  "fills w \<longleftrightarrow> (\<forall>st. \<exists>t. os_text (w st) = os_text st @ t \<and> os_width st \<le> length t)"

lemma fills_appends: "fills w \<Longrightarrow> appends w"
  unfolding fills_def appends_def by blast

lemma fills_put: "fills (put s)"
  by (auto simp: fills_def put_def Output.padded_def Let_def)

lemma fills_put_unsigned: "fills (put_unsigned n)"
  using fills_put by (auto simp: fills_def put_unsigned_def)

lemma fills_put_signed: "fills (put_signed w i)"
  using fills_put fills_put_unsigned by (auto simp: fills_def put_signed_def)

lemma appends_emit:
  assumes "\<And>w. w \<in> set ws \<Longrightarrow> appends w"
  shows "appends (emit ws)"
  unfolding appends_def
proof
  show "\<exists>t. os_text (emit ws st) = os_text st @ t" for st
    using assms
  proof (induction ws arbitrary: st)
    case (Cons w ws)
    then obtain a b where "os_text (w st) = os_text st @ a" "os_text (emit ws (w st)) = os_text (w st) @ b"
      unfolding appends_def by (metis list.set_intros)
    then show ?case by (simp add: emit_def)
  qed (simp add: emit_def)
qed

lemma fills_emit:
  assumes "fills w" "\<And>w. w \<in> set ws \<Longrightarrow> appends w"
  shows "fills (emit (w # ws))"
  unfolding fills_def
proof
  fix st
  obtain a where a: "os_text (w st) = os_text st @ a" "os_width st \<le> length a" using assms(1) unfolding fills_def by blast
  obtain b where "os_text (emit ws (w st)) = os_text (w st) @ b"
    using appends_emit [of ws] assms(2) unfolding appends_def by blast
  with a show "\<exists>t. os_text (emit (w # ws) st) = os_text st @ t \<and> os_width st \<le> length t"
    by (intro exI [of _ "a @ b"]) (simp add: emit_def)
qed

lemma set_separated: "w \<in> set (separated sep ws) \<Longrightarrow> w \<in> set ws \<or> w = put sep"
  by (induction sep ws rule: separated.induct) auto

lemma appends_separated: "(\<And>w. w \<in> set ws \<Longrightarrow> appends w) \<Longrightarrow> w \<in> set (separated sep ws @ [put r]) \<Longrightarrow> appends w"
  using set_separated [of w sep ws] by (auto intro: fills_appends fills_put)

lemma fills_text_primitive: "fills (text_primitive env p)"
proof (induction env p rule: text_primitive.induct)
  case (7 env vs)
  then show ?case unfolding text_primitive.simps append_Cons append_Nil
    by (intro fills_emit fills_put) (erule appends_separated [rotated], auto intro: fills_appends)
next
  case (9 env vs)
  then show ?case unfolding text_primitive.simps append_Cons append_Nil
    by (intro fills_emit fills_put) (erule appends_separated [rotated], auto intro: fills_appends)
next
  case (10 env fs)
  show ?case
  proof (cases "fs = []")
    case False
    have "appends w" if "w \<in> set (map (\<lambda>(key, v). emit [put ''.'', put key, put '' = '', text_primitive env v]) fs)" for w
    proof -
      from that obtain k v where kv: "(k, v) \<in> set fs" "w = emit [put ''.'', put k, put '' = '', text_primitive env v]" by auto
      with 10 False have "fills (text_primitive env v)" by force
      with kv show ?thesis by (auto intro!: appends_emit intro: fills_appends [OF fills_put] fills_appends)
    qed
    then have "fills (emit (put ''{ '' # separated '', '' (map (\<lambda>(key, v). emit [put ''.'', put key, put '' = '', text_primitive env v]) fs) @ [put '' }'']))"
      by (intro fills_emit fills_put) (erule appends_separated [rotated], blast)
    with False show ?thesis by simp
  qed (simp add: fills_put)
next
  case (13 env d)
  then show ?case
    by (cases "duration_str d") (auto intro!: fills_emit intro: fills_put_unsigned fills_appends [OF fills_put])
qed (auto intro: fills_put fills_put_signed fills_put_unsigned)

lemma fills_put_pointer: "fills (put_pointer n)"
  unfolding fills_def
proof
  fix st :: ostream
  show "\<exists>t. os_text (put_pointer n st) = os_text st @ t \<and> os_width st \<le> length t"
    using fills_put_unsigned [of n, unfolded fills_def, rule_format, of "st\<lparr>os_base := 16, os_showbase := True, os_upper := False\<rparr>"]
    by (simp add: put_pointer_def)
qed

lemma fills_text: "fills w \<Longrightarrow> os_text st = [] \<Longrightarrow> os_width st \<le> length (os_text (w st))"
  unfolding fills_def by (metis append_Nil)

lemma spec_stream_text: "os_text (spec_stream spec) = []" "os_width (spec_stream spec) = fs_width spec"
  by (simp_all add: spec_stream_def new_ostream_def Let_def)

lemma as_number_fills:
  assumes "as_number env put_number p st = Inr st'" "\<And>n. fills (put_number n)"
  shows "\<exists>w. fills w \<and> st' = w st"
  using assms by (auto simp: as_number_def split: option.splits)

lemma fills_here: "fills w \<Longrightarrow> \<exists>v. fills v \<and> w st = v st"
  by blast

lemma as_buffer_fills: "as_buffer env a b p st = Inr st' \<Longrightarrow> \<exists>w. fills w \<and> st' = w st"
  by (cases p) (auto simp: as_buffer_def as_string_value_def simp del: text_primitive.simps
      intro: fills_here [OF fills_put] fills_here [OF fills_text_primitive])

lemma as_string_fills: "as_string_value env p st = Inr st' \<Longrightarrow> \<exists>w. fills w \<and> st' = w st"
  by (auto simp: as_string_value_def intro: fills_here [OF fills_text_primitive])

lemma dispatch_fills: "specifier_dispatch env spec p st = Inr st' \<Longrightarrow> \<exists>w. fills w \<and> st' = w st"
  by (auto simp: specifier_dispatch_def Let_def as_signed_integer_def as_unsigned_integer_def as_floating_point_def as_character_def
      as_pointer_def
      intro: fills_put fills_put_signed fills_put_unsigned fills_put_pointer
      dest!: as_number_fills as_buffer_fills as_string_fills split: if_splits)

text \<open>C32: What a specification writes for a value is at least as wide as its width.\<close>

theorem formatted_width:
  assumes "apply_spec env spec p = Inr t"
  shows "fs_width spec \<le> length t"
proof -
  from assms obtain st where "specifier_dispatch env spec p (spec_stream spec) = Inr st" "t = os_text st"
    by (cases "specifier_dispatch env spec p (spec_stream spec)") (auto simp: apply_spec_def)
  with dispatch_fills fills_text spec_stream_text show ?thesis by metis
qed

section \<open>Checked arguments are formatted\<close>

text \<open>What the check needs of the value of an argument: integers, booleans and pointers are read as numbers.\<close>

definition represents :: "sized_type \<Rightarrow> primitive \<Rightarrow> bool" where
  "represents t p \<longleftrightarrow> (ty t \<in> set any_integer \<longrightarrow> number_of p \<noteq> None)"

lemma number_total: "number_of p \<noteq> None \<Longrightarrow> \<exists>st'. as_number env w p st = Inr st'"
  by (auto simp: as_number_def)

lemma buffer_total: "\<exists>st'. as_buffer env a b p st = Inr st'"
  by (cases p) (auto simp: as_buffer_def as_string_value_def)

lemma check_spec_cases:
  assumes "check_spec spec t = None"
  shows "fs_specifier spec \<in> {''r'', ''rx'', ''rh'', ''s''} \<or>
    fs_specifier spec \<in> {''d'', ''i'', ''u'', ''o'', ''x'', ''X'', ''c'', ''p''} \<and> ty t \<in> set any_integer"
proof -
  obtain allowed where "required_type (fs_specifier spec) = Some allowed" "allowed = [] \<or> ty t \<in> set allowed"
    using assms by (auto simp: check_spec_def split: if_splits option.splits)
  then show ?thesis by (auto simp: required_type_def any_integer_def split: if_splits)
qed

lemma checked_applies:
  assumes "check_spec spec t = None" "represents t p"
  shows "\<exists>s. apply_spec env spec p = Inr s"
proof -
  have "\<exists>st'. specifier_dispatch env spec p (spec_stream spec) = Inr st'"
    using check_spec_cases [OF assms(1)]
  proof
    assume "fs_specifier spec \<in> {''r'', ''rx'', ''rh'', ''s''}"
    then show ?thesis by (auto simp: specifier_dispatch_def buffer_total as_string_value_def)
  next
    assume s: "fs_specifier spec \<in> {''d'', ''i'', ''u'', ''o'', ''x'', ''X'', ''c'', ''p''} \<and> ty t \<in> set any_integer"
    with assms(2) have n: "number_of p \<noteq> None" by (simp add: represents_def)
    from s show ?thesis
      by (auto simp: specifier_dispatch_def Let_def as_signed_integer_def as_unsigned_integer_def as_character_def as_pointer_def
          intro: number_total [OF n])
  qed
  then show ?thesis by (auto simp: apply_spec_def)
qed

lemma check_specs_all:
  "check_specs specs ts = None \<Longrightarrow> length specs = length ts \<Longrightarrow> i < length ts \<Longrightarrow> check_spec (specs ! i) (ts ! i) = None"
  by (induction specs ts arbitrary: i rule: check_specs.induct) (auto split: option.splits simp: nth_Cons')

lemma checked_format_applies:
  assumes "format_string_of s = Some fs" "check_format fs ts = None" "list_all2 represents ts args"
  shows "\<exists>texts. length texts = length args \<and> (\<forall>i<length args. apply_spec env (fmt_specs fs ! i) (args ! i) = Inr (texts ! i)) \<and>
    format_args env fs args = Some (concat (map (\<lambda>i. fmt_fragments fs ! i @ texts ! i) [0..<length args]) @ last (fmt_fragments fs))"
proof -
  have len: "length ts = length args" using assms(3) by (rule list_all2_lengthD)
  have specs: "length (fmt_specs fs) = length ts" "check_specs (fmt_specs fs) ts = None"
    using assms(2) by (auto simp: check_format_def Let_def split: if_splits)
  have frags: "length (fmt_fragments fs) = Suc (length (fmt_specs fs))" using parsed_format_wf [OF assms(1)] by (rule wf_format_length)
  have ok: "\<exists>t. apply_spec env (fmt_specs fs ! i) (args ! i) = Inr t" if "i < length args" for i
    using checked_applies check_specs_all [OF specs(2,1)] assms(3) that len by (metis list_all2_nthD2)
  define texts where "texts = map (\<lambda>i. projr (apply_spec env (fmt_specs fs ! i) (args ! i))) [0..<length args]"
  have t: "apply_spec env (fmt_specs fs ! i) (args ! i) = Inr (texts ! i)" if "i < length args" for i
    using ok [OF that] that by (auto simp: texts_def)
  then have eq: "map (\<lambda>i. fmt_fragments fs ! i @ format_arg env (fmt_specs fs ! i) (args ! i)) [0..<length args] =
      map (\<lambda>i. fmt_fragments fs ! i @ texts ! i) [0..<length args]"
    by (simp add: format_arg_def)
  have "\<not> (length (fmt_specs fs) < length args \<or> fmt_fragments fs = [])" using specs len frags by auto
  then have "format_args env fs args = Some (concat (map (\<lambda>i. fmt_fragments fs ! i @ texts ! i) [0..<length args]) @ last (fmt_fragments fs))"
    by (simp only: format_args_def eq if_False)
  then show ?thesis using t by (intro exI [of _ texts]) (simp add: texts_def)
qed


text \<open>C9: When the check accepts the types of the arguments, formatting values of these types reads nothing past the
  end and puts no error text into the output: the result is the fragments with the formatted values between them.\<close>

theorem checked_format_has_no_errors:
  assumes "format_string_of s = Some fs" "check_format fs ts = None" "list_all2 represents ts args"
  shows "\<exists>texts. length texts = length args \<and> (\<forall>i<length args. apply_spec env (fmt_specs fs ! i) (args ! i) = Inr (texts ! i)) \<and>
    format_args env fs args = Some (concat (map (\<lambda>i. fmt_fragments fs ! i @ texts ! i) [0..<length args]) @ last (fmt_fragments fs))"
  using assms by (rule checked_format_applies)

section \<open>At concrete inputs\<close>

definition sample_fenv :: format_env where
  "sample_fenv = \<lparr>fe_out = \<lparr>oe_double = (\<lambda>d. ''0''), oe_double_string = (\<lambda>d. ''0.000000''), oe_put_time = (\<lambda>fmt s. fmt),
     oe_time_point = show_int, oe_graph = (\<lambda>ts. []), oe_signed_char = True\<rparr>, fe_truncate = (\<lambda>d. 0), fe_float = (\<lambda>spec n. ''0'')\<rparr>"

definition sample_format :: "string \<Rightarrow> format_string" where
  "sample_format s = the (format_string_of s)"

lemma parse_samples:
  "parse_format ''x=%3d'' [] = Some ([''x='', []], [(sample_spec ''d'')\<lparr>fs_width := 3\<rparr>])"
  "parse_format ''%05d'' [] = Some ([[], []], [(sample_spec ''d'')\<lparr>fs_zeros := True, fs_width := 5\<rparr>])"
  "parse_format ''%-05d'' [] = Some ([[], []], [(sample_spec ''d'')\<lparr>fs_left := True, fs_zeros := True, fs_width := 5\<rparr>])"
  using parse_rendered [of "[''x='', []]" "[(sample_spec ''d'')\<lparr>fs_width := 3\<rparr>]"]
    parse_rendered [of "[[], []]" "[(sample_spec ''d'')\<lparr>fs_zeros := True, fs_width := 5\<rparr>]"]
    parse_rendered [of "[[], []]" "[(sample_spec ''d'')\<lparr>fs_left := True, fs_zeros := True, fs_width := 5\<rparr>]"]
  by (simp_all add: sample_spec_def wf_spec_def is_specifier_def single_specifiers_def is_length_def may_follow_def
      render_spec_def escape_percent_def)

theorem parsed_format_normal_witness:
  "length (fmt_fragments (sample_format ''x=%3d'')) = 2"
proof -
  have "format_string_of ''x=%3d'' = Some (sample_format ''x=%3d'')"
    by (simp only: sample_format_def format_string_of_def parse_samples option.case prod.case option.sel)
  from parsed_format_normal [OF this] have "length (fmt_fragments (sample_format ''x=%3d'')) = Suc (length (fmt_specs (sample_format ''x=%3d'')))"
    by blast
  then show ?thesis by (simp add: sample_format_def format_string_of_def parse_samples)
qed

lemma minus_five: "uint (- 5 :: u64) = 2 ^ 64 - 5" "sint (- 5 :: u64) = - 5"
  by simp_all

lemma zeros_before_sign:
  "apply_spec sample_fenv ((sample_spec ''d'')\<lparr>fs_zeros := True, fs_width := 5\<rparr>) (P_int (- 5)) = Inr ''000-5''"
  "apply_spec sample_fenv ((sample_spec ''d'')\<lparr>fs_left := True, fs_zeros := True, fs_width := 5\<rparr>) (P_int 5) = Inr ''50000''"
proof -
  have b: "base_digits 10 5 = [5]" by code_simp
  have c: "any_digit False 5 = CHR ''5''" by code_simp
  have r: "replicate 3 (CHR ''0'') = ''000''" "replicate 4 (CHR ''0'') = ''0000''" by code_simp+
  show "apply_spec sample_fenv ((sample_spec ''d'')\<lparr>fs_zeros := True, fs_width := 5\<rparr>) (P_int (- 5)) = Inr ''000-5''"
    "apply_spec sample_fenv ((sample_spec ''d'')\<lparr>fs_left := True, fs_zeros := True, fs_width := 5\<rparr>) (P_int 5) = Inr ''50000''"
    by (simp_all add: apply_spec_def specifier_dispatch_def sample_spec_def as_signed_integer_def as_number_def cast_bits_def
        signed_cast_def spec_stream_def new_ostream_def put_signed_def put_def Output.padded_def show_base_def b c
        minus_five sample_fenv_def Let_def r)
qed

theorem formatted_width_witness: "fs_width ((sample_spec ''d'')\<lparr>fs_zeros := True, fs_width := 5\<rparr>) \<le> length ''000-5''"
  by (rule formatted_width [OF zeros_before_sign(1)])

theorem checked_format_has_no_errors_witness:
  "\<exists>t. format_args sample_fenv (sample_format ''x=%3d'') [P_int 7] = Some (''x='' @ t)"
proof -
  have f: "format_string_of ''x=%3d'' = Some (sample_format ''x=%3d'')"
    by (simp only: sample_format_def format_string_of_def parse_samples option.case prod.case option.sel)
  have frags: "fmt_fragments (sample_format ''x=%3d'') = [''x='', []]"
    "fmt_specs (sample_format ''x=%3d'') = [(sample_spec ''d'')\<lparr>fs_width := 3\<rparr>]"
    by (simp_all add: sample_format_def format_string_of_def parse_samples)
  have "check_format (sample_format ''x=%3d'') [int_type 32 True] = None"
    by (simp add: check_format_def frags check_spec_def sample_spec_def required_type_def any_integer_def int_type_def)
  moreover have "list_all2 represents [int_type 32 True] [P_int 7]" by (simp add: represents_def)
  ultimately show ?thesis
    using checked_format_has_no_errors [OF f, of "[int_type 32 True]" "[P_int 7]" sample_fenv] by (auto simp: frags)
qed

text \<open>The width of a tuple goes to its first parenthesis.\<close>

lemma tuple_width: "apply_spec sample_fenv ((sample_spec ''s'')\<lparr>fs_width := 4\<rparr>) (P_tuple [P_string ''a'']) = Inr ''   (a)''"
  by code_simp

lemma huge_width_throws: "format_string_of ''%2147483648d'' = None"
proof -
  have "amount ''2147483648'' = None"
    by (simp add: amount_def stoi_digits_def digits_value_def digit_val_def is_digit_def char_code_def)
  moreover have "match_spec ''%2147483648d'' = Some (Spec_match False False False False False ''2147483648'' [] [] ''d'', [])"
    by code_simp
  ultimately show ?thesis by (simp add: format_string_of_def parse_format.simps(2))
qed

end
