(* ===== verification/Type_Format.thy ===== *)
theory Type_Format
  imports Opaque Format_String
begin

text \<open>
  From the bytes of a value and its type to a value that can be printed: the first \<open>format\<close> of
  \<open>src/types_format.cpp\<close>.
\<close>

section \<open>What ends it early\<close>

text \<open>
  A \<open>TypeFormatError\<close> with the name of the type, an exception of a read past the end, undefined behaviour, a
  \<open>LOG(BUG)\<close>, a nesting of types beyond the fuel, a \<open>BpfMapError\<close> with the operation and the error number, and a loop
  that does not end.
\<close>

datatype fmt_stop =
    Fmt_error string | Fmt_throws | Fmt_undefined | Fmt_bug | Fmt_deep | Fmt_map_error string int | Fmt_forever

definition or_throw :: "'a option \<Rightarrow> fmt_stop + 'a" where
  "or_throw r = (case r of Some x \<Rightarrow> Inr x | None \<Rightarrow> Inl Fmt_throws)"

definition or_undefined :: "'a option \<Rightarrow> fmt_stop + 'a" where
  "or_undefined r = (case r of Some x \<Rightarrow> Inr x | None \<Rightarrow> Inl Fmt_undefined)"

fun collect :: "(fmt_stop + 'a) list \<Rightarrow> fmt_stop + 'a list" where
  "collect [] = Inr []"
| "collect (r # rs) = (case r of Inl e \<Rightarrow> Inl e | Inr x \<Rightarrow> map_sum id ((#) x) (collect rs))"

text \<open>
  What is asked of the rest of the program and of the machine: its byte order and the sign of its \<open>char\<close>, the table of
  structs, the enumerators, the trailer of truncated strings, and the resolution of stacks, symbols,
  addresses, users, times and cgroups.
\<close>

record fmt_world =
  fw_big :: bool
  fw_signed_char :: bool
  fw_structs :: "string \<Rightarrow> struct_t option"
  fw_enums :: "string \<Rightarrow> (nat \<Rightarrow> string option) option"
  fw_trailer :: string
  fw_stack :: "bool \<Rightarrow> stack_type \<Rightarrow> int \<Rightarrow> int \<Rightarrow> int \<Rightarrow> int \<Rightarrow> string"
  fw_ksym :: "int \<Rightarrow> string"
  fw_usym :: "int \<Rightarrow> int \<Rightarrow> int \<Rightarrow> string"
  fw_inet :: "int \<Rightarrow> string \<Rightarrow> string"
  fw_uid :: "int \<Rightarrow> string"
  fw_strftime :: "int \<Rightarrow> int \<Rightarrow> int \<Rightarrow> string"
  fw_cgroup :: "int \<Rightarrow> int \<Rightarrow> string"

section \<open>Pieces\<close>

text \<open>\<open>std::hex\<close> of a number, and \<open>%02X\<close> of an \<open>int\<close>.\<close>

definition hex_text :: "nat \<Rightarrow> string" where
  "hex_text n = show_base False 16 n"

definition hex_two :: "int \<Rightarrow> string" where
  "hex_two i = (let h = show_base True 16 (nat (i mod 2 ^ 32)) in replicate (2 - length h) (CHR ''0'') @ h)"

text \<open>The bytes of the address are of type \<open>char\<close>; \<open>snprintf\<close> writes at most 17 characters.\<close>

definition char_to_int :: "fmt_world \<Rightarrow> char \<Rightarrow> int" where
  "char_to_int w c = (if fw_signed_char w \<and> 128 \<le> char_code c then int (char_code c) - 256 else int (char_code c))"

definition resolve_mac_address :: "fmt_world \<Rightarrow> opaque \<Rightarrow> string option" where
  "resolve_mac_address w v =
     (if length v < 6 then None
      else Some (take 17 (str_join (map (\<lambda>i. hex_two (char_to_int w (v ! i))) [0..<6]) '':'')))"

text \<open>A string up to its NUL; the bytes are read up to the size of the type, past the end of the value if need be.\<close>

definition read_string :: "fmt_world \<Rightarrow> nat \<Rightarrow> opaque \<Rightarrow> string option" where
  "read_string w sz v =
     (let s = takeWhile (\<lambda>c. c \<noteq> chr_of 0) (take sz v) in
      if length s = length v \<and> length v < sz then None
      else Some (if length s = sz then s @ fw_trailer w else s))"

text \<open>Divisions of C++: by zero they trap, and so do those whose result leaves \<open>int32_t\<close> or \<open>int64_t\<close>.\<close>

definition div_int :: "int \<Rightarrow> int \<Rightarrow> fmt_stop + int" where
  "div_int a b = (if b = 0 then Inl Fmt_undefined else Inr (quot_int a b))"

definition div_checked :: "nat \<Rightarrow> int \<Rightarrow> int \<Rightarrow> fmt_stop + int" where
  "div_checked n a b =
     (if b = 0 \<or> 4 \<le> n \<and> \<not> in_range n True (quot_int a b) then Inl Fmt_undefined else Inr (quot_int a b))"

definition prim_int :: "fmt_stop + int \<Rightarrow> fmt_stop + primitive" where
  "prim_int r = map_sum id (\<lambda>i. P_int (of_int i)) r"

definition prim_uint :: "fmt_stop + int \<Rightarrow> fmt_stop + primitive" where
  "prim_uint r = map_sum id (\<lambda>i. P_uint (of_int i)) r"

definition prim_signed :: "bool \<Rightarrow> fmt_stop + int \<Rightarrow> fmt_stop + primitive" where
  "prim_signed sg r = (if sg then prim_int r else prim_uint r)"

section \<open>Integers\<close>

definition format_enum :: "fmt_world \<Rightarrow> sized_type \<Rightarrow> opaque \<Rightarrow> fmt_stop + primitive" where
  "format_enum w t v =
     (if size_bits t \<in> {64, 32, 16, 8} then
        result_bind (or_throw (bitcast (fw_big w) (size_bits t div 8) False v 0)) (\<lambda>n.
          Inr (P_symbolic
            (case fw_enums w (tname t) of
               None \<Rightarrow> show_int n
             | Some def \<Rightarrow> (case def (nat n) of None \<Rightarrow> show_int n | Some s \<Rightarrow> s))
            (of_int n)))
      else Inl (Fmt_error (typestr t)))"

text \<open>For a signed type the divisor is cast to that type first.\<close>

definition format_integer :: "fmt_world \<Rightarrow> sized_type \<Rightarrow> opaque \<Rightarrow> u32 \<Rightarrow> fmt_stop + primitive" where
  "format_integer w t v d =
     (if size_bits t \<in> {64, 32, 16, 8} then
        (let n = size_bits t div 8 in
         result_bind (or_undefined (reduce_value (fw_big w) n (is_signed t) v)) (\<lambda>r.
           if is_signed t then prim_int (div_checked n r (cast_int n True (uint d)))
           else prim_uint (div_int r (uint d))))
      else Inl (Fmt_error (typestr t)))"

text \<open>The sum of a signed counter is divided as an \<open>int64_t\<close>; the result is in range.\<close>

definition format_counter :: "fmt_world \<Rightarrow> bool \<Rightarrow> opaque \<Rightarrow> u32 \<Rightarrow> fmt_stop + primitive" where
  "format_counter w sg v d =
     result_bind (or_undefined (reduce_value (fw_big w) 8 sg v)) (\<lambda>r. prim_signed sg (div_int r (uint d)))"

definition format_single :: "fmt_world \<Rightarrow> bool \<Rightarrow> opaque \<Rightarrow> u32 \<Rightarrow> fmt_stop + primitive" where
  "format_single w sg v d =
     result_bind (or_throw (bitcast (fw_big w) 8 sg v 0)) (\<lambda>r. prim_signed sg (div_int r (uint d)))"

definition format_min_max :: "fmt_world \<Rightarrow> sized_type \<Rightarrow> opaque \<Rightarrow> u32 \<Rightarrow> fmt_stop + primitive" where
  "format_min_max w t v d =
     (if opaque_count 8 v = 1 then format_single w (is_signed t) v d
      else prim_signed (is_signed t)
        (div_int (min_max_value (fw_big w) 8 (is_signed t) v (ty t = Ty_max_t)) (uint d)))"

definition format_stats :: "fmt_world \<Rightarrow> sized_type \<Rightarrow> opaque \<Rightarrow> u32 \<Rightarrow> fmt_stop + primitive" where
  "format_stats w t v d =
     (if ty t = Ty_avg_t \<and> opaque_count 8 v = 1 then format_single w (is_signed t) v d
      else result_bind (or_undefined (stats_value (fw_big w) 8 (is_signed t) v)) (\<lambda>st.
        result_bind (prim_signed (is_signed t) (div_int (st_avg st) (uint d))) (\<lambda>average.
          if ty t = Ty_stats_t then
            result_bind (prim_signed (is_signed t) (Inr (st_count st))) (\<lambda>count.
            result_bind (prim_signed (is_signed t) (Inr (st_total st))) (\<lambda>total.
              Inr (P_record [(''count'', count), (''average'', average), (''total'', total)])))
          else Inr average)))"

section \<open>All types\<close>

text \<open>The fields of a record or a tuple; an expired or missing struct is a null pointer.\<close>

definition type_fields :: "fmt_world \<Rightarrow> sized_type \<Rightarrow> field list option" where
  "type_fields w t =
     (case inner t of NoStruct \<Rightarrow> None | Owned st \<Rightarrow> Some (struct_t.fields st) | Managed m \<Rightarrow> map_option struct_t.fields (fw_structs w m))"

definition field_bytes :: "opaque \<Rightarrow> field \<Rightarrow> fmt_stop + opaque" where
  "field_bytes v f =
     (if f_offset f < 0 then Inl Fmt_throws else or_throw (opaque_slice v (nat (f_offset f)) (get_size (f_type f))))"

text \<open>The fuel bounds how deep types are nested.\<close>

primrec format_value :: "nat \<Rightarrow> fmt_world \<Rightarrow> sized_type \<Rightarrow> opaque \<Rightarrow> u32 \<Rightarrow> fmt_stop + primitive" where
  "format_value 0 w t v d = Inl Fmt_deep"
| "format_value (Suc n) w t v d =
     (let rd = (\<lambda>k sg u i. or_throw (bitcast (fw_big w) k sg u i)) in
      case ty t of
        Ty_stack_mode \<Rightarrow> Inl (Fmt_error (typestr t))
      | Ty_timestamp_mode \<Rightarrow> Inl (Fmt_error (typestr t))
      | Ty_hist_t \<Rightarrow> Inl (Fmt_error (typestr t))
      | Ty_lhist_t \<Rightarrow> Inl (Fmt_error (typestr t))
      | Ty_tseries_t \<Rightarrow> Inl (Fmt_error (typestr t))
      | Ty_none \<Rightarrow> Inr P_null
      | Ty_voidtype \<Rightarrow> Inr P_null
      | Ty_boolean \<Rightarrow> map_sum id (\<lambda>b. P_bool (b \<noteq> 0)) (rd 1 False v 0)
      | Ty_pointer \<Rightarrow> map_sum id (\<lambda>p. P_symbolic (''0x'' @ hex_text (nat p)) (of_int p)) (rd 8 False v 0)
      | Ty_kstack_t \<Rightarrow>
          result_bind (rd 8 False v 0) (\<lambda>a. result_bind (rd 8 False v 1) (\<lambda>b.
            Inr (P_string (fw_stack w False (stack_type (attrs t)) a b (- 1) (- 1)))))
      | Ty_ustack_t \<Rightarrow>
          result_bind (rd 8 False v 0) (\<lambda>a. result_bind (rd 8 False v 1) (\<lambda>b.
          result_bind (or_throw (opaque_rest v 16)) (\<lambda>u. result_bind (rd 4 True u 0) (\<lambda>pid.
          result_bind (rd 4 True u 1) (\<lambda>probe.
            Inr (P_string (fw_stack w True (stack_type (attrs t)) a b pid probe)))))))
      | Ty_ksym_t \<Rightarrow> map_sum id (\<lambda>a. P_string (fw_ksym w a)) (rd 8 False v 0)
      | Ty_usym_t \<Rightarrow>
          result_bind (rd 8 False v 0) (\<lambda>a.
          result_bind (or_throw (opaque_slice v 8 4)) (\<lambda>u. result_bind (rd 4 True u 0) (\<lambda>pid.
          result_bind (or_throw (opaque_slice v 12 4)) (\<lambda>u. result_bind (rd 4 True u 0) (\<lambda>probe.
            Inr (P_string (fw_usym w a pid probe)))))))
      | Ty_inet \<Rightarrow>
          result_bind (rd 8 False v 0) (\<lambda>af. map_sum id (\<lambda>u. P_string (fw_inet w af u)) (or_throw (opaque_rest v 8)))
      | Ty_username \<Rightarrow> map_sum id (\<lambda>a. P_string (fw_uid w a)) (rd 8 False v 0)
      | Ty_buffer \<Rightarrow>
          result_bind (rd 4 False v 0) (\<lambda>len. map_sum id P_buffer (or_throw (opaque_slice v 4 (nat len))))
      | Ty_string \<Rightarrow> map_sum id P_string (or_undefined (read_string w (get_size t) v))
      | Ty_array \<Rightarrow>
          (case element t of
             None \<Rightarrow> Inl Fmt_undefined
           | Some e \<Rightarrow> map_sum id P_array (collect (map (\<lambda>i.
               result_bind (or_throw (opaque_slice v (i * get_size e) (get_size e))) (\<lambda>u. format_value n w e u d))
               [0..<num_elements t])))
      | Ty_record \<Rightarrow>
          (case type_fields w t of
             None \<Rightarrow> Inl Fmt_undefined
           | Some fs \<Rightarrow> map_sum id P_record (collect (map (\<lambda>f.
               map_sum id (Pair (f_name f)) (result_bind (field_bytes v f) (\<lambda>u. format_value n w (f_type f) u d))) fs)))
      | Ty_tuple \<Rightarrow>
          (case type_fields w t of
             None \<Rightarrow> Inl Fmt_undefined
           | Some fs \<Rightarrow> map_sum id P_tuple (collect (map (\<lambda>f.
               result_bind (field_bytes v f) (\<lambda>u. format_value n w (f_type f) u d)) fs)))
      | Ty_count_t \<Rightarrow> format_counter w False v d
      | Ty_integer \<Rightarrow> if is_enum_ty t then format_enum w t v else format_integer w t v d
      | Ty_sum_t \<Rightarrow> format_counter w (is_signed t) v d
      | Ty_max_t \<Rightarrow> format_min_max w t v d
      | Ty_min_t \<Rightarrow> format_min_max w t v d
      | Ty_timestamp \<Rightarrow>
          result_bind (or_throw (opaque_slice v 0 16)) (\<lambda>u.
          result_bind (rd 4 False u 0) (\<lambda>fmt. result_bind (rd 4 False u 1) (\<lambda>mode. result_bind (rd 8 False u 1) (\<lambda>ns.
            Inr (P_string (fw_strftime w mode ns fmt))))))
      | Ty_mac_address \<Rightarrow> map_sum id P_string (or_undefined (resolve_mac_address w v))
      | Ty_cgroup_path_t \<Rightarrow>
          result_bind (or_throw (opaque_slice v 0 16)) (\<lambda>u.
          result_bind (rd 8 False u 0) (\<lambda>path. result_bind (rd 8 False u 1) (\<lambda>cgroup.
            Inr (P_string (fw_cgroup w path cgroup)))))
      | Ty_avg_t \<Rightarrow> format_stats w t v d
      | Ty_stats_t \<Rightarrow> format_stats w t v d)"


section \<open>Fuel\<close>

lemma collect_more:
  assumes "collect (map f xs) \<noteq> Inl Fmt_deep" "\<And>x. x \<in> set xs \<Longrightarrow> f x \<noteq> Inl Fmt_deep \<Longrightarrow> g x = f x"
  shows "collect (map g xs) = collect (map f xs)"
  using assms
proof (induction xs)
  case (Cons x xs)
  have gx: "f x \<noteq> Inl Fmt_deep \<Longrightarrow> g x = f x" by (simp add: Cons.prems(2))
  show ?case
  proof (cases "f x")
    case (Inl e)
    with Cons.prems(1) gx show ?thesis by auto
  next
    case (Inr y)
    then have "collect (map f xs) \<noteq> Inl Fmt_deep" using Cons.prems(1) by (cases "collect (map f xs)") auto
    with Cons Inr gx show ?thesis by simp
  qed
qed simp

lemma bind_more:
  "result_bind r f \<noteq> Inl Fmt_deep \<Longrightarrow> (\<And>x. f x \<noteq> Inl Fmt_deep \<Longrightarrow> g x = f x) \<Longrightarrow> result_bind r g = result_bind r f"
  by (cases r) auto

lemma map_sum_deep: "map_sum id h r \<noteq> Inl Fmt_deep \<Longrightarrow> r \<noteq> Inl Fmt_deep"
  by auto

text \<open>Fuel that is enough stays enough.\<close>

lemma format_value_more: "format_value n w t v d \<noteq> Inl Fmt_deep \<Longrightarrow> format_value (Suc n) w t v d = format_value n w t v d"
proof (induction n arbitrary: t v)
  case (Suc n)
  have one: "result_bind r (\<lambda>u. format_value n w e u d) \<noteq> Inl Fmt_deep \<Longrightarrow>
      result_bind r (\<lambda>u. format_value (Suc n) w e u d) = result_bind r (\<lambda>u. format_value n w e u d)" for r e
    by (rule bind_more) (assumption, rule Suc.IH)
  have named: "map_sum id (Pair s) (result_bind r (\<lambda>u. format_value n w e u d)) \<noteq> Inl Fmt_deep \<Longrightarrow>
      map_sum id (Pair s) (result_bind r (\<lambda>u. format_value (Suc n) w e u d)) =
      map_sum id (Pair s) (result_bind r (\<lambda>u. format_value n w e u d))" for r e and s :: string
    using one [of r e] map_sum_deep by metis
  have array: "map_sum id P_array (collect (map (\<lambda>i. result_bind (r i) (\<lambda>u. format_value n w e u d)) xs)) \<noteq> Inl Fmt_deep \<Longrightarrow>
      collect (map (\<lambda>i. result_bind (r i) (\<lambda>u. format_value (Suc n) w e u d)) xs) =
      collect (map (\<lambda>i. result_bind (r i) (\<lambda>u. format_value n w e u d)) xs)" for r :: "nat \<Rightarrow> fmt_stop + opaque" and e xs
    by (rule collect_more) (erule map_sum_deep, erule one)
  have tuple: "map_sum id P_tuple (collect (map (\<lambda>f. result_bind (field_bytes v f) (\<lambda>u. format_value n w (f_type f) u d)) fs)) \<noteq> Inl Fmt_deep \<Longrightarrow>
      collect (map (\<lambda>f. result_bind (field_bytes v f) (\<lambda>u. format_value (Suc n) w (f_type f) u d)) fs) =
      collect (map (\<lambda>f. result_bind (field_bytes v f) (\<lambda>u. format_value n w (f_type f) u d)) fs)" for fs
    by (rule collect_more) (erule map_sum_deep, erule one)
  have rec: "map_sum id P_record (collect (map (\<lambda>f. map_sum id (Pair (f_name f)) (result_bind (field_bytes v f) (\<lambda>u. format_value n w (f_type f) u d))) fs)) \<noteq> Inl Fmt_deep \<Longrightarrow>
      collect (map (\<lambda>f. map_sum id (Pair (f_name f)) (result_bind (field_bytes v f) (\<lambda>u. format_value (Suc n) w (f_type f) u d))) fs) =
      collect (map (\<lambda>f. map_sum id (Pair (f_name f)) (result_bind (field_bytes v f) (\<lambda>u. format_value n w (f_type f) u d))) fs)" for fs
    by (rule collect_more) (erule map_sum_deep, erule named)
  note unfold = format_value.simps(2) [of "Suc n" w t v d] format_value.simps(2) [of n w t v d]
  show ?case
  proof (cases "ty t = Ty_array \<or> ty t = Ty_tuple \<or> ty t = Ty_record")
    case True
    then show ?thesis using Suc.prems array tuple rec unfolding unfold
      by (elim disjE) (simp_all only: kind.case Let_def split: option.splits, auto)
  next
    case False
    then show ?thesis unfolding unfold by (cases "ty t") (simp_all only: kind.case Let_def, simp_all)
  qed
qed simp

lemma format_value_fuel: "format_value n w t v d \<noteq> Inl Fmt_deep \<Longrightarrow> format_value (n + k) w t v d = format_value n w t v d"
  by (induction k) (simp_all add: format_value_more del: format_value.simps)

section \<open>Values of well laid out types\<close>


lemma bytes_nat_bound: "bytes_nat big s < 256 ^ length s"
proof -
  have le: "foldr (\<lambda>c v. char_code c + 256 * v) s 0 < 256 ^ length s" for s
  proof (induction s)
    case (Cons c s)
    then have "256 * (foldr (\<lambda>c v. char_code c + 256 * v) s 0 + 1) \<le> 256 * 256 ^ length s" by (intro mult_le_mono2) simp
    then have "char_code c + 256 * foldr (\<lambda>c v. char_code c + 256 * v) s 0 < 256 * 256 ^ length s"
      using char_code_lt [of c] unfolding distrib_left by linarith
    then show ?case by simp
  qed simp
  from le [of s] le [of "rev s"] show ?thesis by (auto simp: bytes_nat_def)
qed

lemma int_of_bits_range:
  assumes "v < 2 ^ (8 * n)" "0 < n"
  shows "in_range n sg (int_of_bits (8 * n) sg v)"
proof -
  have "(2 :: int) ^ (8 * n) = 2 * 2 ^ (8 * n - 1)" using assms(2) by (subst power_Suc [symmetric]) simp
  moreover have "int v < 2 ^ (8 * n)" using assms(1) by (metis of_nat_less_iff of_nat_numeral of_nat_power)
  moreover have "2 ^ (8 * n - 1) \<le> v \<longleftrightarrow> (2 :: int) ^ (8 * n - 1) \<le> int v"
    by (metis of_nat_le_iff of_nat_numeral of_nat_power)
  ultimately show ?thesis by (auto simp: int_of_bits_def in_range_def)
qed

lemma elem_at_range: "n * i + n \<le> length v \<Longrightarrow> 0 < n \<Longrightarrow> in_range n sg (elem_at big n sg v i)"
  using bytes_nat_bound [of big "take n (drop (n * i) v)"]
  by (simp add: elem_at_def int_of_bits_range power_mult)

lemma reduce_single:
  assumes "length v = n" "0 < n"
  shows "reduce_value big n sg v = Some (elem_at big n sg v 0)"
proof -
  have "in_range n sg (elem_at big n sg v 0)" using assms by (intro elem_at_range) simp_all
  moreover have "opaque_count n v = 1" using assms by (simp add: opaque_count_def)
  ultimately show ?thesis using assms(2) by (simp add: reduce_value_def add_int_def cast_int_in_range)
qed

lemma quot_one [simp]: "quot_int a 1 = a"
  by (simp add: quot_int_def sgn_if)

lemma cast_one: "0 < n \<Longrightarrow> cast_int n True 1 = 1"
proof -
  assume "0 < n"
  then have "(2 :: int) ^ 1 \<le> 2 ^ (8 * n - 1)" by (intro power_increasing) simp_all
  with \<open>0 < n\<close> show ?thesis by (intro cast_int_in_range) (simp_all add: in_range_def)
qed

lemma format_integer_value:
  assumes "size_bits t = 8 * n" "n \<in> {1, 2, 4, 8}" "length v = n"
  shows "format_integer w t v 1 =
    Inr ((if is_signed t then P_int else P_uint) (of_int (elem_at (fw_big w) n (is_signed t) v 0)))"
proof -
  have n: "0 < n" using assms(2) by auto
  have "in_range n True (elem_at (fw_big w) n True v 0)" using assms(3) n by (intro elem_at_range) simp_all
  then have "div_checked n (elem_at (fw_big w) n True v 0) 1 = Inr (elem_at (fw_big w) n True v 0)" by (simp add: div_checked_def)
  moreover have "size_bits t \<in> {64, 32, 16, 8}" "size_bits t div 8 = n" using assms(1,2) by auto
  ultimately show ?thesis using reduce_single [OF assms(3) n] n
    by (simp add: format_integer_def or_undefined_def cast_one prim_int_def prim_uint_def div_int_def)
qed

text \<open>C36: A value of an integer type is printed as the integer whose bytes it is, and a value that every processor has a
  part of, in an unsigned type, as their sum modulo the size of the type.\<close>

theorem format_integer_roundtrip:
  assumes "ty t = Ty_integer" "tname t = []" "size_bits t = 8 * n" "n \<in> {1, 2, 4, 8}"
  shows "(in_range n (is_signed t) i \<longrightarrow> format_value (Suc k) w t (opaque_from (fw_big w) n i) 1 =
      Inr ((if is_signed t then P_int else P_uint) (of_int i))) \<and>
    (\<not> is_signed t \<and> list_all (in_range n False) xs \<longrightarrow>
      format_value (Suc k) w t (opaque_list (fw_big w) n xs) 1 = Inr (P_uint (of_int (sum_list xs mod 2 ^ (8 * n)))))"
proof (intro conjI impI)
  have n: "0 < n" using assms(4) by auto
  assume i: "in_range n (is_signed t) i"
  have "elem_at (fw_big w) n (is_signed t) (opaque_from (fw_big w) n i) 0 = i"
    using elem_at_opaque_list [of 0 "[i]" n "is_signed t" "fw_big w"] i n by simp
  then show "format_value (Suc k) w t (opaque_from (fw_big w) n i) 1 = Inr ((if is_signed t then P_int else P_uint) (of_int i))"
    using format_integer_value [OF assms(3,4), of "opaque_from (fw_big w) n i" w] assms(1,2) by (simp add: is_enum_ty_def)
next
  have n: "0 < n" "size_bits t \<in> {64, 32, 16, 8}" "size_bits t div 8 = n" using assms(3,4) by auto
  assume u: "\<not> is_signed t \<and> list_all (in_range n False) xs"
  have "reduce_value (fw_big w) n False (opaque_list (fw_big w) n xs) = Some (sum_list xs mod 2 ^ (8 * n))"
    using sum_ints_unsigned [of n 0 xs] elems_opaque_list [OF n(1), of False xs "fw_big w"] u
    by (simp add: reduce_value_def elems_def)
  with u n assms(1,2) show "format_value (Suc k) w t (opaque_list (fw_big w) n xs) 1 = Inr (P_uint (of_int (sum_list xs mod 2 ^ (8 * n))))"
    by (simp add: is_enum_ty_def format_integer_def or_undefined_def prim_uint_def div_int_def)
qed





lemma bind_total: "\<exists>x. r = Inr x \<and> (\<exists>y. f x = Inr y) \<Longrightarrow> \<exists>y. result_bind r f = Inr y"
  by auto









section \<open>Decoded values can be formatted\<close>







section \<open>At concrete inputs\<close>

definition sample_world :: "bool \<Rightarrow> fmt_world" where
  "sample_world sc = \<lparr>fw_big = False, fw_signed_char = sc, fw_structs = Map.empty, fw_enums = Map.empty, fw_trailer = ''..'',
     fw_stack = (\<lambda>u t a b c d. []), fw_ksym = (\<lambda>a. []), fw_usym = (\<lambda>a b c. []), fw_inet = (\<lambda>a s. []), fw_uid = (\<lambda>a. []),
     fw_strftime = (\<lambda>a b c. []), fw_cgroup = (\<lambda>a b. [])\<rparr>"

lemma sample_int: "ty (int_type 32 True) = Ty_integer" "tname (int_type 32 True) = []" "size_bits (int_type 32 True) = 32"
  "is_signed (int_type 32 True)" "get_size (int_type 32 True) = 4"
  by (simp_all add: int_type_def get_size_def)

theorem format_integer_roundtrip_witness:
  "format_value 1 (sample_world True) (int_type 32 True) (opaque_from False 4 (- 5)) 1 = Inr (P_int (- 5))"
proof -
  have "fw_big (sample_world True) = False" by (simp add: sample_world_def)
  then show ?thesis
    using format_integer_roundtrip [of "int_type 32 True" 4 "- 5" 0 "sample_world True" "[]"] sample_int
    by (simp add: in_range_def del: format_value.simps)
qed



text \<open>On a machine with a signed \<open>char\<close> the bytes of a MAC address from 128 on are printed as negative integers.\<close>

lemma mac_address_sign:
  "resolve_mac_address (sample_world True) (map chr_of [0, 128, 0, 0, 0, 0]) = Some ''00:FFFFFF80:00:00''"
  "resolve_mac_address (sample_world False) (map chr_of [0, 128, 0, 0, 0, 0]) = Some ''00:80:00:00:00:00''"
proof -
  have d: "base_digits 16 4294967168 = [15, 15, 15, 15, 15, 15, 8, 0]" "base_digits 16 128 = [8, 0]" "base_digits 16 0 = [0]"
    by (simp_all add: base_digits.simps)
  have h: "any_digit True 15 = CHR ''F''" "any_digit True 8 = CHR ''8''" "any_digit True 0 = CHR ''0''" by code_simp+
  have i: "[0..<6] = [0, 1, 2, 3, 4, 5 :: nat]" by code_simp
  have z: "hex_two 0 = ''00''" "hex_two 128 = ''80''" "hex_two (- 128) = ''FFFFFF80''"
    by (simp_all add: hex_two_def show_base_def d h)
  show "resolve_mac_address (sample_world True) (map chr_of [0, 128, 0, 0, 0, 0]) = Some ''00:FFFFFF80:00:00''"
    "resolve_mac_address (sample_world False) (map chr_of [0, 128, 0, 0, 0, 0]) = Some ''00:80:00:00:00:00''"
    by (simp_all add: resolve_mac_address_def i char_to_int_def sample_world_def z)
qed

text \<open>A divisor that is a multiple of 256 becomes zero as an \<open>int8_t\<close>.\<close>

lemma narrow_divisor_traps:
  assumes "size_bits t = 8" "is_signed t" "length v = 1"
  shows "format_integer w t v 256 = Inl Fmt_undefined"
proof -
  have "cast_int 1 True 256 = 0" by (simp add: cast_int_def int_of_bits_def)
  then show ?thesis using assms reduce_single [of v 1 "fw_big w" True]
    by (simp add: format_integer_def or_undefined_def div_checked_def prim_int_def)
qed

end
