(* ===== verification/Map_Format.thy ===== *)
theory Map_Format
  imports Type_Format Hist_Format Structs "HOL-Library.Multiset"
begin

text \<open>
  From a map in the kernel to a value that can be printed: reading the entries, \<open>src/bpfmap.cpp\<close>, and sorting,
  selecting and formatting them, the second half of \<open>src/types_format.cpp\<close>.
\<close>

section \<open>Reading the entries of a map\<close>

text \<open>
  The kernel answers the \<open>i\<close>-th request for a next key and the \<open>i\<close>-th lookup of a collection; the entries
  may change meanwhile. The loop ends when there is no next key.
\<close>

record bpf_kernel =
  bk_next :: "nat \<Rightarrow> opaque option \<Rightarrow> opaque option"
  bk_lookup :: "nat \<Rightarrow> opaque \<Rightarrow> int \<times> opaque"

partial_function (option) keys_from :: "(nat \<Rightarrow> opaque option \<Rightarrow> opaque option) \<Rightarrow> nat \<Rightarrow> opaque option \<Rightarrow> opaque list option" where
  "keys_from nxt i last_key =
     (case nxt i last_key of
        None \<Rightarrow> Some []
      | Some k \<Rightarrow> Option.bind (keys_from nxt (i + 1) (Some k)) (\<lambda>ks. Some (k # ks)))"

definition collect_keys :: "bpf_kernel \<Rightarrow> fmt_stop + opaque list" where
  "collect_keys bk = (case keys_from (bk_next bk) 0 None of None \<Rightarrow> Inl Fmt_forever | Some ks \<Rightarrow> Inr ks)"

definition enoent :: int where
  "enoent = - 2"

text \<open>What \<open>collect_elements\<close>, \<open>collect_histogram_data\<close> and \<open>collect_tseries_data\<close> do with each key in turn.\<close>

fun collect_loop ::
  "(nat \<Rightarrow> opaque \<Rightarrow> int \<times> opaque) \<Rightarrow> (opaque \<Rightarrow> opaque \<Rightarrow> 's \<Rightarrow> fmt_stop + 's) \<Rightarrow> nat \<Rightarrow> opaque list \<Rightarrow> 's \<Rightarrow> fmt_stop + 's" where
  "collect_loop lookup add i [] s = Inr s"
| "collect_loop lookup add i (k # ks) s =
     (case lookup i k of (err, v) \<Rightarrow>
        if err = enoent then collect_loop lookup add (i + 1) ks s
        else if err \<noteq> 0 then Inl (Fmt_map_error ''lookup'' err)
        else result_bind (add k v s) (collect_loop lookup add (i + 1) ks))"

definition collect_elements :: "bpf_kernel \<Rightarrow> fmt_stop + (opaque \<times> opaque) list" where
  "collect_elements bk =
     result_bind (collect_keys bk) (\<lambda>ks. collect_loop (bk_lookup bk) (\<lambda>k v s. Inr (s @ [(k, v)])) 0 ks [])"

section \<open>Ordered maps\<close>

text \<open>A \<open>std::map\<close> as the list of its entries, in the order of the keys.\<close>

fun om_get :: "('k \<times> 'v) list \<Rightarrow> 'k \<Rightarrow> 'v option" where
  "om_get [] k = None"
| "om_get ((x, v) # m) k = (if x = k then Some v else om_get m k)"

fun om_put :: "('k \<Rightarrow> 'k \<Rightarrow> bool) \<Rightarrow> 'k \<Rightarrow> 'v \<Rightarrow> ('k \<times> 'v) list \<Rightarrow> ('k \<times> 'v) list" where
  "om_put lt k v [] = [(k, v)]"
| "om_put lt k v ((x, u) # m) =
     (if x = k then (k, v) # m else if lt k x then (k, v) # (x, u) # m else (x, u) # om_put lt k v m)"

interpretation ordered_map: name_table om_get "om_put lt"
proof
  show "om_get (om_put lt k v m) k = Some v" for k :: 'a and v :: 'b and m
    by (induction lt k v m rule: om_put.induct) auto
  show "om_get (om_put lt k v m) k' = om_get m k'" if "k' \<noteq> k" for k k' :: 'a and v :: 'b and m
    using that by (induction lt k v m rule: om_put.induct) auto
qed

section \<open>Histograms and time series of a map\<close>

datatype map_detail =
    No_detail
  | Hist_args int
  | Lhist_args int int int
  | Tseries_args int int sized_type tseries_agg

record map_info =
  mi_key :: sized_type
  mi_value :: sized_type
  mi_detail :: map_detail
  mi_scalar :: bool

text \<open>The bucket is behind the key.\<close>

definition split_key :: "sized_type \<Rightarrow> opaque \<Rightarrow> fmt_stop + opaque \<times> opaque" where
  "split_key t k =
     result_bind (or_throw (opaque_slice k 0 (get_size t))) (\<lambda>pre.
     result_bind (or_throw (opaque_slice k (get_size t) 8)) (\<lambda>bucket. Inr (pre, bucket)))"

definition buckets_of :: "sized_type \<Rightarrow> u64 list" where
  "buckets_of t = replicate (if ty t = Ty_hist_t then 65 * 32 else 1002) 0"

definition add_histogram :: "fmt_world \<Rightarrow> map_info \<Rightarrow> opaque \<Rightarrow> opaque \<Rightarrow> (opaque \<times> u64 list) list \<Rightarrow> fmt_stop + (opaque \<times> u64 list) list" where
  "add_histogram w mi k v m =
     result_bind (split_key (mi_key mi) k) (\<lambda>(pre, bucket).
     result_bind (or_throw (bitcast (fw_big w) 8 False bucket 0)) (\<lambda>idx.
     result_bind (or_undefined (reduce_value (fw_big w) 8 False v)) (\<lambda>n.
       let bs = (case om_get m pre of None \<Rightarrow> buckets_of (mi_value mi) | Some bs \<Rightarrow> bs) in
       if nat idx < length bs then Inr (om_put opaque_less pre (bs[nat idx := of_int n]) m) else Inl Fmt_throws)))"

definition collect_histogram_data :: "fmt_world \<Rightarrow> map_info \<Rightarrow> bpf_kernel \<Rightarrow> fmt_stop + (opaque \<times> u64 list) list" where
  "collect_histogram_data w mi bk =
     result_bind (collect_keys bk) (\<lambda>ks. collect_loop (bk_lookup bk) (add_histogram w mi) 0 ks [])"

text \<open>\<open>emplace\<close> keeps the value that an epoch has.\<close>

definition add_tseries ::
  "fmt_world \<Rightarrow> map_info \<Rightarrow> bool \<Rightarrow> tseries_agg \<Rightarrow> opaque \<Rightarrow> opaque \<Rightarrow> (opaque \<times> (nat \<times> opaque) list) list \<Rightarrow>
   fmt_stop + (opaque \<times> (nat \<times> opaque) list) list" where
  "add_tseries w mi sg agg k v m =
     result_bind (split_key (mi_key mi) k) (\<lambda>(pre, bucket).
     result_bind (or_undefined (reduce_tseries_value (fw_big w) v sg agg)) (\<lambda>(epoch, x).
       let ts = (case om_get m pre of None \<Rightarrow> [] | Some ts \<Rightarrow> ts) in
       Inr (om_put opaque_less pre (if om_get ts epoch = None then om_put (<) epoch x ts else ts) m)))"

definition collect_tseries_data ::
  "fmt_world \<Rightarrow> map_info \<Rightarrow> bool \<Rightarrow> tseries_agg \<Rightarrow> bpf_kernel \<Rightarrow> fmt_stop + (opaque \<times> (nat \<times> opaque) list) list" where
  "collect_tseries_data w mi sg agg bk =
     result_bind (collect_keys bk) (\<lambda>ks. collect_loop (bk_lookup bk) (add_tseries w mi sg agg) 0 ks [])"

section \<open>Sorting\<close>

fun insert_by :: "('k \<Rightarrow> 'k \<Rightarrow> bool) \<Rightarrow> 'k \<times> 'a \<Rightarrow> ('k \<times> 'a) list \<Rightarrow> ('k \<times> 'a) list" where
  "insert_by lt x [] = [x]"
| "insert_by lt x (y # ys) = (if lt (fst y) (fst x) then y # insert_by lt x ys else x # y # ys)"

definition stable_sort :: "('k \<Rightarrow> 'k \<Rightarrow> bool) \<Rightarrow> ('a \<Rightarrow> fmt_stop + 'k) \<Rightarrow> 'a list \<Rightarrow> fmt_stop + 'a list" where
  "stable_sort lt key xs =
     (if length xs < 2 then Inr xs
      else map_sum id (\<lambda>ks. map snd (foldr (insert_by lt) (zip ks xs) [])) (collect (map key xs)))"


definition sort_in :: "(int list \<Rightarrow> nat list) \<Rightarrow> ('a \<Rightarrow> fmt_stop + int) \<Rightarrow> 'a list \<Rightarrow> fmt_stop + 'a list" where
  "sort_in order key xs =
     (if length xs < 2 then Inr xs
      else map_sum id (\<lambda>ks. map ((!) xs) (order ks)) (collect (map key xs)))"

type_synonym entries = "(opaque \<times> opaque) list"

definition sort_by_int :: "fmt_world \<Rightarrow> nat \<Rightarrow> nat \<Rightarrow> entries \<Rightarrow> fmt_stop + entries" where
  "sort_by_int w n off =
     stable_sort (<) (\<lambda>(k, v). result_bind (or_throw (opaque_rest k off)) (\<lambda>u. or_throw (bitcast (fw_big w) n True u 0)))"

definition sort_by_size :: "fmt_world \<Rightarrow> sized_type \<Rightarrow> nat \<Rightarrow> entries \<Rightarrow> fmt_stop + entries" where
  "sort_by_size w t off xs =
     (if get_size t \<in> {8, 4, 2, 1} then sort_by_int w (get_size t) off xs else Inl Fmt_bug)"

definition sort_by_field :: "fmt_world \<Rightarrow> field \<Rightarrow> entries \<Rightarrow> fmt_stop + entries" where
  "sort_by_field w f xs =
     (if ty (f_type f) = Ty_integer then
        (if f_offset f < 0 \<and> 2 \<le> length xs \<and> get_size (f_type f) \<in> {8, 4, 2, 1} then Inl Fmt_throws
         else sort_by_size w (f_type f) (nat (f_offset f)) xs)
      else if ty (f_type f) = Ty_string then stable_sort opaque_less (\<lambda>(k, v). field_bytes k f) xs
      else Inr xs)"

fun sort_fields :: "fmt_world \<Rightarrow> field list \<Rightarrow> entries \<Rightarrow> fmt_stop + entries" where
  "sort_fields w [] xs = Inr xs"
| "sort_fields w (f # fs) xs = result_bind (sort_by_field w f xs) (sort_fields w fs)"

definition sort_by_key :: "fmt_world \<Rightarrow> sized_type \<Rightarrow> entries \<Rightarrow> fmt_stop + entries" where
  "sort_by_key w t xs =
     (if ty t = Ty_tuple then
        (case type_fields w t of None \<Rightarrow> Inl Fmt_undefined | Some fs \<Rightarrow> sort_fields w (rev fs) xs)
      else if ty t = Ty_integer then sort_by_size w t 0 xs
      else if ty t = Ty_string then stable_sort opaque_less (\<lambda>(k, v). Inr k) xs
      else Inr xs)"

section \<open>Formatting a map\<close>

definition last_entries :: "nat \<Rightarrow> 'a list \<Rightarrow> 'a list" where
  "last_entries n xs = (if n \<noteq> 0 \<and> n < length xs then drop (length xs - n) xs else xs)"

definition divisor :: "u32 \<Rightarrow> u32" where
  "divisor d = (if d = 0 then 1 else d)"

definition histogram_of :: "map_info \<Rightarrow> u32 \<Rightarrow> u64 list \<Rightarrow> fmt_stop + histogram" where
  "histogram_of mi d counts =
     (if ty (mi_value mi) = Ty_hist_t then
        (case mi_detail mi of
           Hist_args bits \<Rightarrow> or_undefined (build_histogram counts (divisor d) (nat (bits mod 2 ^ 32)))
         | _ \<Rightarrow> Inl Fmt_bug)
      else
        (case mi_detail mi of
           Lhist_args mn mx step \<Rightarrow>
             or_undefined (build_linear_histogram counts (cast_int 4 True mn) (cast_int 4 True mx) (cast_int 4 True step))
         | _ \<Rightarrow> Inl Fmt_bug))"

text \<open>A scalar map returns with its first entry.\<close>

definition map_or_scalar :: "bool \<Rightarrow> ('a \<Rightarrow> fmt_stop + 'v) \<Rightarrow> ('v \<Rightarrow> out_value) \<Rightarrow> ((primitive \<times> out_value) list \<Rightarrow> out_value) \<Rightarrow>
    ('a \<Rightarrow> fmt_stop + primitive \<times> out_value) \<Rightarrow> 'a list \<Rightarrow> fmt_stop + out_value" where
  "map_or_scalar scalar val single many entry xs =
     (if scalar \<and> xs \<noteq> [] then map_sum id single (val (hd xs)) else map_sum id many (collect (map entry xs)))"

definition format_hist_map ::
  "nat \<Rightarrow> fmt_world \<Rightarrow> (int list \<Rightarrow> nat list) \<Rightarrow> map_info \<Rightarrow> nat \<Rightarrow> u32 \<Rightarrow> bpf_kernel \<Rightarrow> fmt_stop + out_value" where
  "format_hist_map fuel w order mi n d bk =
     result_bind (collect_histogram_data w mi bk) (\<lambda>m.
     result_bind (sort_in order (\<lambda>(k, counts). Inr (uint (sum_list counts))) m) (\<lambda>m.
       map_or_scalar (mi_scalar mi) (\<lambda>(k, counts). histogram_of mi d counts) O_histogram O_map
         (\<lambda>(k, counts). result_bind (histogram_of mi d counts) (\<lambda>h.
            result_bind (format_value fuel w (mi_key mi) k 1) (\<lambda>key. Inr (key, O_histogram h))))
         (last_entries n m)))"

text \<open>
  \<open>build_time_series\<close>: an entry for every epoch from the first one with a value to the last. The loop does not end
  when the last epoch is the greatest number there is.
\<close>

definition build_time_series :: "(nat \<times> primitive) list \<Rightarrow> nat \<Rightarrow> nat \<Rightarrow> int \<Rightarrow> fmt_stop + (int \<times> primitive) list" where
  "build_time_series values lo hi step_ns =
     (let start = fold min (filter (\<lambda>e. lo \<le> e) (map fst values)) hi in
      if lo \<le> hi \<and> hi = 2 ^ 64 - 1 then Inl Fmt_forever
      else Inr (map (\<lambda>e. (cast_int 8 True (int e * step_ns), (case om_get values e of None \<Rightarrow> P_null | Some p \<Rightarrow> p)))
        (filter (\<lambda>e. start \<le> e) [lo..<hi + 1])))"

definition format_tseries_entry ::
  "nat \<Rightarrow> fmt_world \<Rightarrow> map_info \<Rightarrow> sized_type \<Rightarrow> nat \<Rightarrow> nat \<Rightarrow> int \<Rightarrow> opaque \<times> (nat \<times> opaque) list \<Rightarrow>
   fmt_stop + primitive \<times> (int \<times> primitive) list" where
  "format_tseries_entry fuel w mi t lo hi step_ns entry =
     (case entry of (k, ts) \<Rightarrow>
        result_bind (collect (map (\<lambda>(e, v). map_sum id (Pair e) (format_value fuel w t v 1)) ts)) (\<lambda>values.
        result_bind (format_value fuel w (mi_key mi) k 1) (\<lambda>key.
        result_bind (build_time_series values lo hi step_ns) (\<lambda>s. Inr (key, s)))))"

definition format_tseries_map :: "nat \<Rightarrow> fmt_world \<Rightarrow> map_info \<Rightarrow> bpf_kernel \<Rightarrow> fmt_stop + out_value" where
  "format_tseries_map fuel w mi bk =
     (case mi_detail mi of
        Tseries_args step_ns intervals t agg \<Rightarrow>
          result_bind (collect_tseries_data w mi (is_signed t) agg bk) (\<lambda>m.
            let hi = (if m = [] then 2 ^ 64 - 1 else fold max (concat (map (map fst \<circ> snd) m)) 0);
                lo = nat ((int hi - intervals + 1) mod 2 ^ 64);
                entry = format_tseries_entry fuel w mi (int_type 64 (is_signed t)) lo hi step_ns
            in map_or_scalar (mi_scalar mi) entry (\<lambda>(key, s). O_tseries s) O_map
                 (\<lambda>x. map_sum id (\<lambda>(key, s). (key, O_tseries s)) (entry x)) m)
      | _ \<Rightarrow> Inl Fmt_throws)"

text \<open>The order in which the entries of another map are printed.\<close>

definition sort_values ::
  "fmt_world \<Rightarrow> (int list \<Rightarrow> nat list) \<Rightarrow> map_info \<Rightarrow> entries \<Rightarrow> fmt_stop + entries" where
  "sort_values w order mi xs =
     (let t = mi_value mi in
      if ty t \<in> {Ty_count_t, Ty_sum_t, Ty_integer} then
        sort_in order (\<lambda>(k, v). or_undefined (reduce_value (fw_big w) 8 (is_signed t) v)) xs
      else if ty t \<in> {Ty_min_t, Ty_max_t} then
        sort_in order (\<lambda>(k, v). Inr (min_max_value (fw_big w) 8 False v (ty t = Ty_max_t))) xs
      else if ty t \<in> {Ty_avg_t, Ty_stats_t} then
        sort_in order (\<lambda>(k, v). or_undefined (avg_value (fw_big w) 8 (is_signed t) v)) xs
      else sort_by_key w (mi_key mi) xs)"

definition format_plain_map ::
  "nat \<Rightarrow> fmt_world \<Rightarrow> (int list \<Rightarrow> nat list) \<Rightarrow> map_info \<Rightarrow> nat \<Rightarrow> u32 \<Rightarrow> bpf_kernel \<Rightarrow> fmt_stop + out_value" where
  "format_plain_map fuel w order mi n d bk =
     result_bind (collect_elements bk) (\<lambda>xs.
     result_bind (sort_values w order mi xs) (\<lambda>xs.
       let stats = ty (mi_value mi) \<in> {Ty_avg_t, Ty_stats_t};
           val = (\<lambda>(k, v). format_value fuel w (mi_value mi) v (divisor d))
       in map_or_scalar (mi_scalar mi) val (if stats then O_stats else O_primitive) (if stats then O_stats_map else O_map)
            (\<lambda>(k, v). result_bind (val (k, v)) (\<lambda>p.
               result_bind (format_value fuel w (mi_key mi) k 1) (\<lambda>key. Inr (key, O_primitive p))))
            (last_entries n xs)))"

definition format_map ::
  "nat \<Rightarrow> fmt_world \<Rightarrow> (int list \<Rightarrow> nat list) \<Rightarrow> map_info \<Rightarrow> nat \<Rightarrow> u32 \<Rightarrow> bpf_kernel \<Rightarrow> fmt_stop + out_value" where
  "format_map fuel w order mi n d bk =
     (if ty (mi_value mi) \<in> {Ty_hist_t, Ty_lhist_t} then format_hist_map fuel w order mi n d bk
      else if ty (mi_value mi) = Ty_tseries_t then format_tseries_map fuel w mi bk
      else format_plain_map fuel w order mi n d bk)"


section \<open>Sorting keeps the entries\<close>









section \<open>Tuples are sorted by their first field first\<close>










section \<open>The entries with the greatest values\<close>






section \<open>The counts of a histogram\<close>

lemma of_int_mod_word: "(of_int (i mod 18446744073709551616) :: u64) = of_int i"
  by transfer (simp add: take_bit_eq_mod)

lemma ordered_map_get: "om_get (om_put lt k v m) k' = (if k' = k then Some v else om_get m k')"
  by (rule ordered_map.lookup_put_if)

lemma split_key_parts:
  assumes "split_key t k = Inr (pre, bucket)"
  shows "pre = take (get_size t) k" "bucket = take 8 (drop (get_size t) k)" "get_size t + 8 \<le> length k"
  using assms by (auto simp: split_key_def or_throw_def opaque_slice_def result_bind_Inr_iff split: option.splits if_splits)

definition bucket_index :: "fmt_world \<Rightarrow> opaque \<Rightarrow> nat" where
  "bucket_index w b = nat (elem_at (fw_big w) 8 False b 0)"

definition bucket_count :: "fmt_world \<Rightarrow> opaque \<Rightarrow> u64" where
  "bucket_count w v = of_int (the (reduce_value (fw_big w) 8 False v))"

definition recorded :: "(opaque \<times> u64 list) list \<Rightarrow> opaque \<Rightarrow> nat \<Rightarrow> u64 \<Rightarrow> bool" where
  "recorded m pre i c \<longleftrightarrow> (case om_get m pre of None \<Rightarrow> False | Some bs \<Rightarrow> i < length bs \<and> bs ! i = c)"

lemma add_histogram_recorded:
  assumes "add_histogram w mi k v m = Inr m'"
  defines "pre \<equiv> take (get_size (mi_key mi)) k" and "i \<equiv> bucket_index w (take 8 (drop (get_size (mi_key mi)) k))"
  shows "recorded m' pre i (bucket_count w v)"
    and "(p, j) \<noteq> (pre, i) \<Longrightarrow> recorded m p j c \<Longrightarrow> recorded m' p j c"
proof -
  obtain bucket idx n where sp: "split_key (mi_key mi) k = Inr (pre, bucket)" and b: "bucket = take 8 (drop (get_size (mi_key mi)) k)"
    and idx: "bitcast (fw_big w) 8 False bucket 0 = Some idx" and n: "reduce_value (fw_big w) 8 False v = Some n"
    and m': "nat idx < length (case om_get m pre of None \<Rightarrow> buckets_of (mi_value mi) | Some bs \<Rightarrow> bs)"
      "m' = om_put opaque_less pre ((case om_get m pre of None \<Rightarrow> buckets_of (mi_value mi) | Some bs \<Rightarrow> bs)[nat idx := of_int n]) m"
  proof -
    obtain pr b where sp: "split_key (mi_key mi) k = Inr (pr, b)"
      and rest: "result_bind (or_throw (bitcast (fw_big w) 8 False b 0)) (\<lambda>idx.
        result_bind (or_undefined (reduce_value (fw_big w) 8 False v)) (\<lambda>n.
          let bs = (case om_get m pr of None \<Rightarrow> buckets_of (mi_value mi) | Some bs \<Rightarrow> bs) in
          if nat idx < length bs then Inr (om_put opaque_less pr (bs[nat idx := of_int n]) m) else Inl Fmt_throws)) = Inr m'"
      using assms(1) by (auto simp: add_histogram_def result_bind_Inr_iff)
    from rest obtain x c where "bitcast (fw_big w) 8 False b 0 = Some x" "reduce_value (fw_big w) 8 False v = Some c"
      "(let bs = (case om_get m pr of None \<Rightarrow> buckets_of (mi_value mi) | Some bs \<Rightarrow> bs) in
        if nat x < length bs then Inr (om_put opaque_less pr (bs[nat x := of_int c]) m) else Inl Fmt_throws) = Inr m'"
      by (cases "bitcast (fw_big w) 8 False b 0"; cases "reduce_value (fw_big w) 8 False v") (simp_all add: or_throw_def or_undefined_def)
    with sp split_key_parts [OF sp] that show thesis by (simp add: pre_def Let_def split: if_splits)
  qed
  have i: "nat idx = i"
    using idx by (auto simp: i_def b bucket_index_def bitcast_def elem_at_def opaque_slice_def split: if_splits)
  show "recorded m' pre i (bucket_count w v)"
    using m' n by (auto simp: recorded_def ordered_map_get i bucket_count_def)
  show "recorded m' p j c" if "(p, j) \<noteq> (pre, i)" "recorded m p j c"
    using that m' by (auto simp: recorded_def ordered_map_get i nth_list_update split: option.splits)
qed

lemma collect_loop_recorded:
  assumes "collect_loop lookup (add_histogram w mi) i ks m = Inr m'"
    "\<And>k. k \<in> set ks \<Longrightarrow> (p, j) \<noteq> (take (get_size (mi_key mi)) k, bucket_index w (take 8 (drop (get_size (mi_key mi)) k)))"
    "recorded m p j c"
  shows "recorded m' p j c"
  using assms
proof (induction ks arbitrary: i m)
  case (Cons k ks)
  obtain err v where l: "lookup i k = (err, v)" by (cases "lookup i k")
  show ?case
  proof (cases "err = enoent")
    case True
    with Cons.prems l Cons.IH [of "i + 1" m] show ?thesis by simp
  next
    case False
    with Cons.prems(1) l obtain m1 where m1: "add_histogram w mi k v m = Inr m1"
      "collect_loop lookup (add_histogram w mi) (i + 1) ks m1 = Inr m'" by (auto simp: result_bind_Inr_iff split: if_splits)
    have "recorded m1 p j c" using add_histogram_recorded(2) [OF m1(1)] Cons.prems(2,3) by simp
    with m1(2) Cons.IH Cons.prems(2) show ?thesis by simp
  qed
qed simp

text \<open>C39: When the keys that the kernel lists for a histogram are different, the collected buckets hold, for every key
  whose lookup succeeds, the sum of the counts of all processors at the key and bucket that it names.\<close>

theorem histogram_data_complete:
  assumes "collect_loop lookup (add_histogram w mi) i ks m = Inr m'" "a < length ks" "lookup (i + a) (ks ! a) = (0, v)"
    "distinct (map (\<lambda>k. (take (get_size (mi_key mi)) k, bucket_index w (take 8 (drop (get_size (mi_key mi)) k)))) ks)"
  shows "recorded m' (take (get_size (mi_key mi)) (ks ! a)) (bucket_index w (take 8 (drop (get_size (mi_key mi)) (ks ! a))))
    (of_int (sum_list (elems (fw_big w) 8 False v)))"
proof -
  have count: "bucket_count w v = of_int (sum_list (elems (fw_big w) 8 False v))"
    using reduce_unsigned [of "fw_big w" 8 v] by (simp add: bucket_count_def of_int_mod_word)
  have "recorded m' (take (get_size (mi_key mi)) (ks ! a)) (bucket_index w (take 8 (drop (get_size (mi_key mi)) (ks ! a)))) (bucket_count w v)"
    using assms
  proof (induction ks arbitrary: i m a)
    case (Cons k ks)
    obtain err u where l: "lookup i k = (err, u)" by (cases "lookup i k")
    show ?case
    proof (cases a)
      case 0
      with Cons.prems(3) l have u: "err = 0" "u = v" by auto
      with Cons.prems(1) l obtain m1 where m1: "add_histogram w mi k v m = Inr m1"
        "collect_loop lookup (add_histogram w mi) (i + 1) ks m1 = Inr m'" by (auto simp: result_bind_Inr_iff enoent_def)
      from collect_loop_recorded [OF m1(2) _ add_histogram_recorded(1) [OF m1(1)]] Cons.prems(4) 0 show ?thesis by force
    next
      case (Suc b)
      have "\<exists>m1. collect_loop lookup (add_histogram w mi) (i + 1) ks m1 = Inr m'"
        using Cons.prems(1) l by (auto simp: result_bind_Inr_iff split: if_splits)
      with Cons.IH [of "i + 1" _ b] Cons.prems Suc show ?thesis by auto
    qed
  qed simp
  then show ?thesis by (simp only: count)
qed

section \<open>The window of a time series\<close>

text \<open>A time series holds the value of every epoch of its window that has one, at the time of that epoch.\<close>

theorem time_series_complete:
  assumes "build_time_series values lo hi step_ns = Inr ts" "om_get values e = Some p" "lo \<le> e" "e \<le> hi"
  shows "(cast_int 8 True (int e * step_ns), p) \<in> set ts"
proof -
  let ?start = "fold min (filter (\<lambda>e. lo \<le> e) (map fst values)) hi"
  have ts: "ts = map (\<lambda>e. (cast_int 8 True (int e * step_ns), (case om_get values e of None \<Rightarrow> P_null | Some p \<Rightarrow> p)))
      (filter (\<lambda>e. ?start \<le> e) [lo..<hi + 1])"
    using assms(1) by (simp add: build_time_series_def Let_def split: if_splits)
  have mem: "om_get m e = Some p \<Longrightarrow> e \<in> set (map fst m)" for m :: "(nat \<times> primitive) list"
    by (induction m) (auto split: if_splits)
  have low: "x \<in> set es \<Longrightarrow> fold min es h \<le> x" for x h :: nat and es
  proof (induction es arbitrary: h)
    case (Cons y es)
    have le: "fold min es h \<le> h" for h by (induction es arbitrary: h) (auto intro: order_trans [OF _ min.cobounded2])
    from Cons show ?case using order_trans [OF le min.cobounded1, of y h] by auto
  qed simp
  have "?start \<le> e" using low [of e] mem [OF assms(2)] assms(3) by simp
  then have "e \<in> set (filter (\<lambda>e. ?start \<le> e) [lo..<hi + 1])" using assms(3,4) by (auto simp: le_less)
  then show ?thesis unfolding ts using assms(2) by force
qed


section \<open>At concrete inputs\<close>




lemma sample_big: "fw_big (sample_world sc) = False"
  by (simp add: sample_world_def)




definition hist_info :: map_info where
  "hist_info = \<lparr>mi_key = int_type 64 True, mi_value = create_hist, mi_detail = Hist_args 0, mi_scalar = False\<rparr>"

theorem histogram_data_complete_witness:
  "\<exists>m. collect_loop (\<lambda>i k. (0, opaque_list False 8 [3, 4])) (add_histogram (sample_world True) hist_info) 0
      [opaque_list False 8 [7, 5]] [] = Inr m \<and> recorded m (opaque_list False 8 [7]) 5 7"
proof -
  let ?k = "opaque_list False 8 [7, 5]"
  have size: "get_size (mi_key hist_info) = 8" by (simp add: hist_info_def int_type_def get_size_def)
  have parts: "take 8 ?k = opaque_list False 8 [7]" "take 8 (drop 8 ?k) = opaque_list False 8 [5]"
    using take_opaque_list [of 8 1 False "[7, 5]"] drop_opaque_list [of 8 1 False "[7, 5]"] by simp_all
  have idx: "bucket_index (sample_world True) (opaque_list False 8 [5]) = 5"
    using elem_at_opaque_list [of 0 "[5]" 8 False False] by (simp add: bucket_index_def sample_big in_range_def)
  have bit: "bitcast False 8 False (opaque_list False 8 [5]) 0 = Some 5"
    using bitcast_elem [of 8 0 "opaque_list False 8 [5]"] elem_at_opaque_list [of 0 "[5]" 8 False False] by (simp add: in_range_def)
  have sk: "split_key (mi_key hist_info) ?k = Inr (opaque_list False 8 [7], opaque_list False 8 [5])"
    by (simp add: split_key_def size opaque_slice_def or_throw_def parts del: opaque_list_Cons)
  have hist: "ty (mi_value hist_info) = Ty_hist_t" by (simp add: hist_info_def create_hist_def simple_type_def)
  have len: "nat 5 < length (buckets_of (mi_value hist_info))" by (simp add: buckets_of_def hist)
  have "\<exists>m. add_histogram (sample_world True) hist_info ?k (opaque_list False 8 [3, 4]) [] = Inr m"
    using len by (simp add: add_histogram_def sk sample_big bit or_throw_def or_undefined_def reduce_unsigned Let_def del: opaque_list_Cons)
  then obtain m where "add_histogram (sample_world True) hist_info ?k (opaque_list False 8 [3, 4]) [] = Inr m" by blast
  then have m: "collect_loop (\<lambda>i k. (0, opaque_list False 8 [3, 4])) (add_histogram (sample_world True) hist_info) 0 [?k] [] = Inr m"
    by (simp add: enoent_def del: opaque_list_Cons)
  have "elems False 8 False (opaque_list False 8 [3, 4]) = [3, 4]" by (rule elems_opaque_list) (simp_all add: in_range_def)
  with histogram_data_complete [OF m, of 0 "opaque_list False 8 [3, 4]"] m show ?thesis
    by (simp add: size parts idx sample_big del: opaque_list_Cons)
qed

theorem time_series_complete_witness:
  "(6000, P_int 4) \<in> set (projr (build_time_series [(2, P_int 9), (6, P_int 4)] 3 6 1000))"
proof -
  have "build_time_series [(2, P_int 9), (6, P_int 4)] 3 6 1000 = Inr (projr (build_time_series [(2, P_int 9), (6, P_int 4)] 3 6 1000))"
    by (simp add: build_time_series_def)
  from time_series_complete [OF this, of 6] show ?thesis by (simp add: cast_int_in_range in_range_def)
qed

text \<open>Unsigned keys are compared as signed ones, and signed minima and maxima as unsigned ones.\<close>

lemma unsigned_keys_sorted_as_signed:
  "sort_by_key w (int_type 64 False) xs = sort_by_key w (int_type 64 True) xs"
  by (simp add: sort_by_key_def int_type_def sort_by_size_def get_size_def)

lemma signed_extrema_sorted_as_unsigned:
  assumes "ty t = Ty_min_t \<or> ty t = Ty_max_t"
  shows "sort_values w order (mi\<lparr>mi_value := t\<rparr>) xs =
    sort_in order (\<lambda>(k, v). Inr (min_max_value (fw_big w) 8 False v (ty t = Ty_max_t))) xs"
  using assms by (auto simp: sort_values_def)

end
