(* ===== verification/Bpf_Maps.thy ===== *)
theory Bpf_Maps
  imports Map_Format
begin

text \<open>
  The rest of \<open>bpfmap.cpp\<close> and \<open>bpfmap.h\<close>: the kinds of maps of the kernel, which of them a value may be stored in,
  the names of maps, and the operations that change a map of the kernel.
\<close>

section \<open>Kinds of maps\<close>

datatype bpf_map_type =
    Map_unspec | Map_hash | Map_array | Map_prog_array | Map_perf_event_array | Map_percpu_hash | Map_percpu_array
  | Map_stack_trace | Map_cgroup_array | Map_lru_hash | Map_lru_percpu_hash | Map_lpm_trie | Map_array_of_maps
  | Map_hash_of_maps | Map_devmap | Map_sockmap | Map_cpumap | Map_xskmap | Map_sockhash | Map_cgroup_storage
  | Map_reuseport_sockarray | Map_percpu_cgroup_storage | Map_queue | Map_stack | Map_sk_storage | Map_devmap_hash
  | Map_struct_ops | Map_ringbuf | Map_inode_storage | Map_task_storage | Map_bloom_filter | Map_user_ringbuf
  | Map_cgrp_storage | Map_arena

text \<open>An unordered table: the order of its entries is not fixed.\<close>

definition bpf_map_types :: "(string \<times> bpf_map_type) list" where
  "bpf_map_types =
     [(''hash'', Map_hash), (''lruhash'', Map_lru_hash), (''percpuhash'', Map_percpu_hash),
      (''percpuarray'', Map_percpu_array), (''percpulruhash'', Map_lru_percpu_hash)]"

definition get_bpf_map_type :: "sized_type \<Rightarrow> bool \<Rightarrow> bpf_map_type" where
  "get_bpf_map_type val_type scalar =
     (if ty val_type = Ty_count_t \<and> scalar then Map_percpu_array
      else if needs_percpu_map val_type then Map_percpu_hash
      else Map_hash)"

definition get_bpf_map_type_named :: "string \<Rightarrow> bpf_map_type option" where
  "get_bpf_map_type_named name = map_of bpf_map_types name"

definition get_bpf_map_type_str :: "bpf_map_type \<Rightarrow> string" where
  "get_bpf_map_type_str t =
     (case find (\<lambda>(name, u). u = t) bpf_map_types of Some (name, u) \<Rightarrow> name | None \<Rightarrow> ''unknown'')"

definition bpf_map_types_hint :: "(string \<times> bpf_map_type) list \<Rightarrow> string" where
  "bpf_map_types_hint types = ''Valid map types: '' @ str_join (map fst types) '', ''"

definition is_array_map :: "sized_type \<Rightarrow> bool \<Rightarrow> bool" where
  "is_array_map val_type scalar \<longleftrightarrow> get_bpf_map_type val_type scalar \<in> {Map_array, Map_percpu_array}"

definition bpf_map_types_compatible :: "sized_type \<Rightarrow> bool \<Rightarrow> bpf_map_type \<Rightarrow> bool" where
  "bpf_map_types_compatible val_type scalar kind =
     (let from_stype = get_bpf_map_type val_type scalar in
      if from_stype = kind then True
      else if from_stype \<in> {Map_hash, Map_lru_hash} \<and> kind \<in> {Map_hash, Map_lru_hash} then True
      else if from_stype \<in> {Map_percpu_hash, Map_lru_percpu_hash} \<and> kind \<in> {Map_percpu_hash, Map_lru_percpu_hash} then True
      else if kind = Map_percpu_hash \<and> from_stype = Map_percpu_array then True
      else False)"

definition is_bpf_map_clearable :: "bpf_map_type \<Rightarrow> bool" where
  "is_bpf_map_clearable t \<longleftrightarrow> t \<noteq> Map_array \<and> t \<noteq> Map_percpu_array"

definition is_per_cpu_type :: "bpf_map_type \<Rightarrow> bool" where
  "is_per_cpu_type t \<longleftrightarrow> t = Map_percpu_hash \<or> t = Map_percpu_array \<or> t = Map_lru_percpu_hash"

text \<open>A kind of map that a declaration may give to a value keeps one value per processor exactly when the value is
  one that the program keeps per processor, so the number of values that are read from the kernel is the number that
  it has written.\<close>

theorem compatible_types_agree:
  assumes "bpf_map_types_compatible val_type scalar kind"
  shows "is_per_cpu_type kind = needs_percpu_map val_type"
  using assms by (auto simp: bpf_map_types_compatible_def get_bpf_map_type_def is_per_cpu_type_def needs_percpu_map_def Let_def split: if_splits)

theorem compatible_types_agree_witness: "is_per_cpu_type Map_lru_percpu_hash = needs_percpu_map create_count"
  by (rule compatible_types_agree [of _ False])
    (simp add: bpf_map_types_compatible_def get_bpf_map_type_def needs_percpu_map_def create_count_def simple_type_def)

text \<open>The names of the table and the kinds of maps belong to each other.\<close>

lemma map_type_names:
  "get_bpf_map_type_named name = Some t \<Longrightarrow> get_bpf_map_type_str t = name"
  "get_bpf_map_type_str t \<noteq> ''unknown'' \<Longrightarrow> get_bpf_map_type_named (get_bpf_map_type_str t) = Some t"
  by (auto simp: get_bpf_map_type_named_def get_bpf_map_type_str_def bpf_map_types_def split: if_splits)

text \<open>A declared array would not be found: no declaration has a kind that the program takes for an array but cannot
  clear, other than the one a scalar counter is stored in.\<close>

lemma array_maps: "is_array_map val_type scalar \<longleftrightarrow> ty val_type = Ty_count_t \<and> scalar"
  by (auto simp: is_array_map_def get_bpf_map_type_def)

section \<open>Names\<close>

definition bpf_map_name :: "string \<Rightarrow> string" where
  "bpf_map_name name = (if prefix ''@'' name then ''AT_'' @ drop 1 name else name)"

definition bpftrace_map_name :: "string \<Rightarrow> string" where
  "bpftrace_map_name name = (if prefix ''AT_'' name then ''@'' @ drop 3 name else name)"

definition is_printable :: "string \<Rightarrow> bool" where
  "is_printable bpf_name \<longleftrightarrow> prefix ''AT_'' bpf_name"

definition is_stack_map :: "string \<Rightarrow> bool" where
  "is_stack_map bpf_name \<longleftrightarrow> prefix ''stack_'' (bpftrace_map_name bpf_name)"

datatype map_type = Perf_event | Join_map | Elapsed | Ringbuf | Event_loss_counter | Recursion_prevention

fun map_type_str :: "map_type \<Rightarrow> string" where
  "map_type_str Perf_event = ''perf_event''"
| "map_type_str Join_map = ''join''"
| "map_type_str Elapsed = ''elapsed''"
| "map_type_str Ringbuf = ''ringbuf''"
| "map_type_str Event_loss_counter = ''event_loss_counter''"
| "map_type_str Recursion_prevention = ''recursion_prevention''"

lemma bpftrace_name_of_bpf_name: "\<not> prefix ''AT_'' name \<Longrightarrow> bpftrace_map_name (bpf_map_name name) = name"
  by (auto simp: bpftrace_map_name_def bpf_map_name_def prefix_def)

text \<open>The maps of a script are printable, the maps that the program adds are not, and no two names fall together.\<close>

lemma printable_maps: "is_printable (bpf_map_name (CHR ''@'' # name))" "\<not> is_printable (bpf_map_name (map_type_str t))"
  by (simp_all add: is_printable_def bpf_map_name_def) (cases t; simp)

lemma bpf_map_name_inj:
  "\<lbrakk>\<not> prefix ''AT_'' a; \<not> prefix ''AT_'' b; bpf_map_name a = bpf_map_name b\<rbrakk> \<Longrightarrow> a = b"
  using bpftrace_name_of_bpf_name by metis

section \<open>Changing a map of the kernel\<close>

text \<open>
  A system call changes the state of the kernel and returns an error code. Keys that the program of the kernel has
  removed meanwhile are skipped.
\<close>

definition bpf_any :: nat where "bpf_any = 0"
definition bpf_exist :: nat where "bpf_exist = 2"

fun each_key :: "string \<Rightarrow> (opaque \<Rightarrow> 'k \<Rightarrow> int \<times> 'k) \<Rightarrow> opaque list \<Rightarrow> 'k \<Rightarrow> fmt_stop option \<times> 'k" where
  "each_key oper act [] s = (None, s)"
| "each_key oper act (k # ks) s =
     (case act k s of (err, s') \<Rightarrow>
        if err \<noteq> 0 \<and> err \<noteq> enoent then (Some (Fmt_map_error oper err), s') else each_key oper act ks s')"

definition zero_out ::
  "(opaque \<Rightarrow> opaque \<Rightarrow> nat \<Rightarrow> 'k \<Rightarrow> int \<times> 'k) \<Rightarrow> bpf_kernel \<Rightarrow> nat \<Rightarrow> nat \<Rightarrow> 'k \<Rightarrow> fmt_stop option \<times> 'k" where
  "zero_out update bk value_size nvalues s =
     (case collect_keys bk of
        Inl e \<Rightarrow> (Some e, s)
      | Inr ks \<Rightarrow> each_key ''zero'' (\<lambda>k. update k (replicate (value_size * nvalues) (chr_of 0)) bpf_exist) ks s)"

definition clear_map ::
  "(opaque \<Rightarrow> opaque \<Rightarrow> nat \<Rightarrow> 'k \<Rightarrow> int \<times> 'k) \<Rightarrow> (opaque \<Rightarrow> 'k \<Rightarrow> int \<times> 'k) \<Rightarrow> bpf_kernel \<Rightarrow>
   bpf_map_type \<Rightarrow> nat \<Rightarrow> nat \<Rightarrow> 'k \<Rightarrow> fmt_stop option \<times> 'k" where
  "clear_map update delete bk t value_size nvalues s =
     (if \<not> is_bpf_map_clearable t then zero_out update bk value_size nvalues s
      else (case collect_keys bk of Inl e \<Rightarrow> (Some e, s) | Inr ks \<Rightarrow> each_key ''clear'' delete ks s))"

definition update_elem ::
  "(opaque \<Rightarrow> opaque \<Rightarrow> nat \<Rightarrow> 'k \<Rightarrow> int \<times> 'k) \<Rightarrow> opaque \<Rightarrow> opaque \<Rightarrow> 'k \<Rightarrow> fmt_stop option \<times> 'k" where
  "update_elem update k v s =
     (case update k v bpf_any s of (err, s') \<Rightarrow> (if err \<noteq> 0 then Some (Fmt_map_error ''update'' err) else None, s'))"

definition lookup_elem :: "(opaque \<Rightarrow> 'k \<Rightarrow> int \<times> opaque) \<Rightarrow> opaque \<Rightarrow> 'k \<Rightarrow> fmt_stop + opaque" where
  "lookup_elem lookup k s = (case lookup k s of (err, v) \<Rightarrow> if err \<noteq> 0 then Inl (Fmt_map_error ''lookup'' err) else Inr v)"

text \<open>
  What the kernel documents of a hash map: a deletion removes the key or says that there is none, and an update with
  \<open>BPF_EXIST\<close> changes the value of a key or says that there is none.
\<close>

definition deletes :: "(opaque \<Rightarrow> (opaque \<rightharpoonup> opaque) \<Rightarrow> int \<times> (opaque \<rightharpoonup> opaque)) \<Rightarrow> bool" where
  "deletes delete \<longleftrightarrow> (\<forall>k m. delete k m = (if m k = None then (enoent, m) else (0, m(k := None))))"

definition updates_existing :: "(opaque \<Rightarrow> opaque \<Rightarrow> nat \<Rightarrow> (opaque \<rightharpoonup> opaque) \<Rightarrow> int \<times> (opaque \<rightharpoonup> opaque)) \<Rightarrow> bool" where
  "updates_existing update \<longleftrightarrow>
     (\<forall>k v m. update k v bpf_exist m = (if m k = None then (enoent, m) else (0, m(k \<mapsto> v))))"

lemma each_key_deletes:
  "deletes delete \<Longrightarrow> each_key oper delete ks m = (None, m |` (- set ks))"
proof (induction ks arbitrary: m)
  case (Cons k ks)
  have "m(k := None) |` (- set ks) = m |` (- set (k # ks))" "m k = None \<Longrightarrow> m |` (- set ks) = m |` (- set (k # ks))"
    by (auto simp: restrict_map_def fun_eq_iff)
  with Cons show ?case by (auto simp: deletes_def)
qed (simp add: restrict_map_def)

lemma each_key_updates:
  "updates_existing update \<Longrightarrow>
   each_key oper (\<lambda>k. update k v bpf_exist) ks m = (None, \<lambda>k. if k \<in> set ks \<and> m k \<noteq> None then Some v else m k)"
proof (induction ks arbitrary: m)
  case (Cons k ks)
  then show ?case by (auto simp: updates_existing_def fun_eq_iff)
qed simp

text \<open>C40: Clearing a map of which every key was listed leaves it without entries, and where the kind of map cannot be
  cleared it keeps its keys and every value becomes zero.\<close>

theorem clear_map_empties:
  assumes "deletes delete" "updates_existing update" "collect_keys bk = Inr ks" "dom m \<subseteq> set ks"
  shows "clear_map update delete bk t value_size nvalues m =
    (None, if is_bpf_map_clearable t then Map.empty
      else map_option (\<lambda>_. replicate (value_size * nvalues) (chr_of 0)) \<circ> m)"
proof -
  have "m |` (- set ks) = Map.empty" using assms(4) by (auto simp: restrict_map_def fun_eq_iff)
  moreover have "(\<lambda>k. if k \<in> set ks \<and> m k \<noteq> None then Some v else m k) = map_option (\<lambda>_. v) \<circ> m" for v
  proof
    show "(if k \<in> set ks \<and> m k \<noteq> None then Some v else m k) = (map_option (\<lambda>_. v) \<circ> m) k" for k
      using assms(4) by (cases "m k") auto
  qed
  ultimately show ?thesis
    using each_key_deletes [OF assms(1)] each_key_updates [OF assms(2)] assms(3) by (simp add: clear_map_def zero_out_def)
qed

definition sample_listing :: bpf_kernel where
  "sample_listing = \<lparr>bk_next = (\<lambda>i k. if i = 0 then Some ''k'' else None), bk_lookup = (\<lambda>i k. (0, []))\<rparr>"

theorem clear_map_empties_witness:
  "clear_map (\<lambda>k v f m. if m k = None then (enoent, m) else (0, m(k \<mapsto> v)))
     (\<lambda>k m. if m k = None then (enoent, m) else (0, m(k := None))) sample_listing Map_percpu_array 2 1 [''k'' \<mapsto> ''ab''] =
   (None, [''k'' \<mapsto> [chr_of 0, chr_of 0]])"
proof -
  have "keys_from (bk_next sample_listing) 0 None = Some [''k'']"
    by (subst keys_from.simps, subst keys_from.simps) (simp add: sample_listing_def)
  then have "collect_keys sample_listing = Inr [''k'']" by (simp add: collect_keys_def)
  then have "clear_map (\<lambda>k v f m. if m k = None then (enoent, m) else (0, m(k \<mapsto> v)))
     (\<lambda>k m. if m k = None then (enoent, m) else (0, m(k := None))) sample_listing Map_percpu_array 2 1 [''k'' \<mapsto> ''ab''] =
     (None, if is_bpf_map_clearable Map_percpu_array then Map.empty
      else map_option (\<lambda>_. replicate (2 * 1) (chr_of 0)) \<circ> [''k'' \<mapsto> ''ab''])"
    by (intro clear_map_empties) (auto simp: deletes_def updates_existing_def)
  then show ?thesis by (simp add: is_bpf_map_clearable_def fun_eq_iff numeral_2_eq_2)
qed

end
