(* ===== verification/Global_Vars.thy ===== *)
theory Global_Vars
  imports Builtin_Passes Map_Format
begin

text \<open>
  The global variables of a BPF program (\<open>globalvars.cpp\<close>, \<open>globalvars.h\<close>): which variables are added and where they
  are, their types, the values that the options on the command line give to named parameters, and how these are
  written into the sections of the program before it is loaded.
\<close>

section \<open>The known variables\<close>

record gv_config =
  gc_section :: string
  gc_type :: kind

definition ro_section :: string where "ro_section = ''.rodata''"

definition global_var_configs :: "(string \<times> gv_config) list" where
  "global_var_configs =
     [(''__bt__num_cpus'', \<lparr>gc_section = ro_section, gc_type = Ty_integer\<rparr>),
      (''__bt__max_cpu_id'', \<lparr>gc_section = ro_section, gc_type = Ty_integer\<rparr>),
      (''__bt__event_loss_counter'', \<lparr>gc_section = ''.data.event_loss_counter'', gc_type = Ty_integer\<rparr>),
      (''__bt__fmt_str_buf'', \<lparr>gc_section = ''.data.fmt_str_buf'', gc_type = Ty_none\<rparr>),
      (''__bt__tuple_buf'', \<lparr>gc_section = ''.data.tuple_buf'', gc_type = Ty_none\<rparr>),
      (''__bt__get_str_buf'', \<lparr>gc_section = ''.data.get_str_buf'', gc_type = Ty_none\<rparr>),
      (''__bt__read_map_val_buf'', \<lparr>gc_section = ''.data.read_map_val_buf'', gc_type = Ty_none\<rparr>),
      (''__bt__write_map_val_buf'', \<lparr>gc_section = ''.data.write_map_val_buf'', gc_type = Ty_none\<rparr>),
      (''__bt__var_buf'', \<lparr>gc_section = ''.data.var_buf'', gc_type = Ty_none\<rparr>),
      (''__bt__map_key_buf'', \<lparr>gc_section = ''.data.map_key_buf'', gc_type = Ty_none\<rparr>)]"

definition get_section_names :: "string list" where
  "get_section_names = remdups (map (gc_section \<circ> snd) global_var_configs)"

text \<open>The two maps of a \<open>GlobalVars\<close>, as lists of their entries in the order in which they are walked.\<close>

record global_vars =
  gv_added :: "(string \<times> gv_config) list"
  gv_defaults :: "(string \<times> global_value) list"

definition new_global_vars :: global_vars where
  "new_global_vars = \<lparr>gv_added = [], gv_defaults = []\<rparr>"

fun get_global_var_type :: "global_value \<Rightarrow> kind" where
  "get_global_var_type (GV_int n) = Ty_integer"
| "get_global_var_type (GV_bool b) = Ty_boolean"
| "get_global_var_type (GV_string s) = Ty_string"

text \<open>\<open>None\<close> is an abort.\<close>

definition add_known :: "string \<Rightarrow> global_vars \<Rightarrow> global_vars option" where
  "add_known name gv =
     (case map_of global_var_configs name of
        None \<Rightarrow> None
      | Some config \<Rightarrow>
          Some (if map_of (gv_added gv) name \<noteq> None then gv else gv\<lparr>gv_added := gv_added gv @ [(name, config)]\<rparr>))"

definition add_named_param :: "string \<Rightarrow> global_value \<Rightarrow> global_vars \<Rightarrow> global_vars" where
  "add_named_param name default_val gv =
     (if map_of (gv_added gv) name \<noteq> None then gv
      else \<lparr>gv_added = gv_added gv @ [(name, \<lparr>gc_section = ro_section, gc_type = get_global_var_type default_val\<rparr>)],
            gv_defaults = gv_defaults gv @ [(name, default_val)]\<rparr>)"

definition get_gv_config :: "string \<Rightarrow> global_vars \<Rightarrow> gv_config option" where
  "get_gv_config name gv = map_of (gv_added gv) name"

section \<open>Types\<close>

text \<open>The sizes and numbers of the scratch buffers, which the resource analysis collects.\<close>

record buffer_sizes =
  max_fmtstring_args_size :: nat
  tuple_buffers :: nat
  max_tuple_size :: nat
  str_buffers :: nat
  read_map_value_buffers :: nat
  max_read_map_value_size :: nat
  max_write_map_value_size :: nat
  variable_buffers :: nat
  max_variable_size :: nat
  map_key_buffers :: nat
  max_map_key_size :: nat

text \<open>One element for one processor; the number of processors is known when the program is loaded.\<close>

definition make_rw_type :: "nat \<Rightarrow> sized_type \<Rightarrow> sized_type" where
  "make_rw_type n elem = create_array 1 (create_array n elem)"

definition byte_array :: "nat \<Rightarrow> sized_type" where
  "byte_array n = create_array n (int_type 8 True)"

definition asserting :: "bool \<Rightarrow> 'a \<Rightarrow> 'a option" where
  "asserting b x = (if b then Some x else None)"

definition get_sized_type :: "string \<Rightarrow> 'a buffer_sizes_scheme \<Rightarrow> nat \<Rightarrow> global_vars \<Rightarrow> sized_type option" where
  "get_sized_type name res max_str gv =
     (case get_gv_config name gv of
        None \<Rightarrow> None
      | Some config \<Rightarrow>
          if name = ''__bt__fmt_str_buf'' then
            asserting (0 < max_fmtstring_args_size res) (make_rw_type 1 (byte_array (max_fmtstring_args_size res)))
          else if name = ''__bt__tuple_buf'' then
            asserting (0 < max_tuple_size res \<and> 0 < tuple_buffers res)
              (make_rw_type (tuple_buffers res) (byte_array (max_tuple_size res)))
          else if name = ''__bt__get_str_buf'' then
            asserting (0 < str_buffers res) (make_rw_type (str_buffers res) (byte_array max_str))
          else if name = ''__bt__read_map_val_buf'' then
            asserting (0 < max_read_map_value_size res \<and> 0 < read_map_value_buffers res)
              (make_rw_type (read_map_value_buffers res) (byte_array (max_read_map_value_size res)))
          else if name = ''__bt__write_map_val_buf'' then
            asserting (0 < max_write_map_value_size res) (make_rw_type 1 (byte_array (max_write_map_value_size res)))
          else if name = ''__bt__var_buf'' then
            asserting (0 < variable_buffers res \<and> 0 < max_variable_size res)
              (make_rw_type (variable_buffers res) (byte_array (max_variable_size res)))
          else if name = ''__bt__map_key_buf'' then
            asserting (0 < map_key_buffers res \<and> 0 < max_map_key_size res)
              (make_rw_type (map_key_buffers res) (byte_array (max_map_key_size res)))
          else if name = ''__bt__event_loss_counter'' then Some (make_rw_type 1 (int_type 64 False))
          else if gc_type config = Ty_integer then Some (int_type 64 True)
          else if gc_type config = Ty_boolean then Some (int_type 8 True)
          else if gc_type config = Ty_string then Some (make_rw_type 1 (byte_array max_str))
          else None)"

definition check_index :: "string \<Rightarrow> 'a buffer_sizes_scheme \<Rightarrow> nat \<Rightarrow> bool" where
  "check_index name res index =
     (if name = ''__bt__tuple_buf'' then index < tuple_buffers res
      else if name = ''__bt__get_str_buf'' then index < str_buffers res
      else if name = ''__bt__read_map_val_buf'' then index < read_map_value_buffers res
      else if name = ''__bt__var_buf'' then index < variable_buffers res
      else if name = ''__bt__map_key_buf'' then index < map_key_buffers res
      else True)"

section \<open>Options on the command line\<close>

datatype param_error =
    Unknown_params "string list" "string list"
  | Named_param string string string

text \<open>The messages of the two errors, and the hint of the first.\<close>

definition option_list :: "string list \<Rightarrow> string" where
  "option_list names = str_join (map (\<lambda>n. ''--'' @ n) names) '', ''"

fun param_error_str :: "param_error \<Rightarrow> string" where
  "param_error_str (Unknown_params unexpected expected) = ''unexpected program command line options: '' @ option_list unexpected"
| "param_error_str (Named_param param val err) =
     ''program command line option --'' @ param @ '' '' @ err @ '' (value: '' @ val @ '')'' @ [chr_of 10]"

fun param_error_hint :: "param_error \<Rightarrow> string" where
  "param_error_hint (Unknown_params unexpected expected) = ''expected program options: '' @ option_list expected"
| "param_error_hint (Named_param param val err) = []"

text \<open>
  A raw parameter is a name, or a name and a value around the first sign of equality. More than one of these signs,
  or an empty value, makes the value empty. \<open>None\<close> is the access to the first element of nothing.
\<close>

definition split_param :: "string \<Rightarrow> (string \<times> string option) option" where
  "split_param param =
     (if CHR ''='' \<in> set param then
        (case split_string param CHR ''='' True of
           [] \<Rightarrow> None
         | [name, v] \<Rightarrow> Some (name, Some v)
         | name # vs \<Rightarrow> Some (name, Some []))
      else Some (param, None))"

fun split_params :: "string list \<Rightarrow> (string \<times> string option) list option" where
  "split_params [] = Some []"
| "split_params (p # ps) =
     Option.bind (split_param p) (\<lambda>x. Option.bind (split_params ps) (\<lambda>xs. Some (x # xs)))"

text \<open>The value of one option; an option of another kind gets none. \<open>None\<close> is the undefined negation in \<open>to_int\<close>.\<close>

fun param_value :: "kind \<Rightarrow> string \<Rightarrow> string option \<Rightarrow> (param_error + global_value list) option" where
  "param_value t name None =
     Some (if t = Ty_integer then Inl (Named_param name ''true'' ''expects an integer'')
           else if t = Ty_string then Inl (Named_param name ''true'' ''expects a string'')
           else if t = Ty_boolean then Inr [GV_bool True]
           else Inr [])"
| "param_value t name (Some v) =
     (if t = Ty_integer then
        (case to_int v 0 of
           None \<Rightarrow> None
         | Some (Inl (OverflowError num mx)) \<Rightarrow> Some (Inl (Named_param name v ''value is out of range''))
         | Some (Inl (NumberFormatError msg num)) \<Rightarrow> Some (Inl (Named_param name v msg))
         | Some (Inr i) \<Rightarrow> Some (Inr [GV_int (word_of_int i)]))
      else if t = Ty_boolean then
        Some (if is_str_bool_truthy v then Inr [GV_bool True]
              else if is_str_bool_falsy v then Inr [GV_bool False]
              else Inl (Named_param name v (''expects a boolean (e.g. '' @ [CHR 0x27] @ ''true'' @ [CHR 0x27] @ '')'')))
      else if t = Ty_string then Some (Inr [GV_string v])
      else Some (Inr []))"

text \<open>
  The value of one parameter. A later option of the same name replaces an earlier one. \<open>None\<close> is also a parameter that
  was not added, or a default of another kind than the parameter has.
\<close>

definition value_of_default ::
  "global_vars \<Rightarrow> (string \<times> string option) list \<Rightarrow> string \<times> global_value \<Rightarrow>
   (param_error + (string \<times> global_value) list) option" where
  "value_of_default gv given d =
     (case d of (name, default_val) \<Rightarrow>
        (case map_of (gv_added gv) name of
           None \<Rightarrow> None
         | Some config \<Rightarrow>
             (case map_of (rev given) name of
                None \<Rightarrow>
                  if gc_type config \<notin> {Ty_integer, Ty_boolean, Ty_string} then Some (Inr [])
                  else if get_global_var_type default_val = gc_type config then Some (Inr [(name, default_val)]) else None
              | Some v \<Rightarrow> map_option (map_sum id (map (Pair name))) (param_value (gc_type config) name v))))"

fun values_of_defaults ::
  "global_vars \<Rightarrow> (string \<times> string option) list \<Rightarrow> (string \<times> global_value) list \<Rightarrow>
   (param_error + (string \<times> global_value) list) option" where
  "values_of_defaults gv given [] = Some (Inr [])"
| "values_of_defaults gv given (d # ds) =
     (case value_of_default gv given d of
        None \<Rightarrow> None
      | Some (Inl e) \<Rightarrow> Some (Inl e)
      | Some (Inr x) \<Rightarrow> map_option (map_sum id ((@) x)) (values_of_defaults gv given ds))"

definition get_named_param_vals :: "string list \<Rightarrow> global_vars \<Rightarrow> (param_error + (string \<times> global_value) list) option" where
  "get_named_param_vals raw gv =
     (case split_params raw of
        None \<Rightarrow> None
      | Some given \<Rightarrow>
          (let unexpected = filter (\<lambda>name. map_of (gv_added gv) name = None) (map fst given) in
           if unexpected \<noteq> [] then Some (Inl (Unknown_params unexpected (map fst (gv_defaults gv))))
           else values_of_defaults gv given (gv_defaults gv)))"

section \<open>Writing the values into the sections\<close>

text \<open>
  The offsets of the variables that a section needs, in the order of their names, from the variables that the debug information of the section
  lists, where a variable whose type is not found is skipped. \<open>None\<close> aborts.
\<close>

definition find_btf_var_offsets :: "(string \<times> int) option list \<Rightarrow> string list \<Rightarrow> (string \<times> int) list option" where
  "find_btf_var_offsets members needed =
     (let offset = (\<lambda>name. case map_of (rev (List.map_filter id members)) name of None \<Rightarrow> - 1 | Some off \<Rightarrow> off);
          offsets = foldr (insert_by opaque_less) (map (\<lambda>name. (name, offset name)) needed) []
      in if \<exists>(name, off) \<in> set offsets. off < 0 then None else Some offsets)"

text \<open>\<open>None\<close> is a write past the end of the section.\<close>

definition put_bytes :: "nat \<Rightarrow> string \<Rightarrow> string \<Rightarrow> string option" where
  "put_bytes off bs buf =
     (if off + length bs \<le> length buf then Some (take off buf @ bs @ drop (off + length bs) buf) else None)"

text \<open>\<open>strncpy\<close> stops at a NUL and fills the rest with NULs.\<close>

definition strncpy :: "string \<Rightarrow> nat \<Rightarrow> string" where
  "strncpy s n = take n (c_str s) @ replicate (n - length (c_str s)) (chr_of 0)"

text \<open>The bytes that are written for a value. \<open>None\<close> is a value of another kind, or an unsupported kind.\<close>

fun gv_bytes :: "bool \<Rightarrow> kind \<Rightarrow> global_value \<Rightarrow> string option" where
  "gv_bytes big Ty_integer (GV_int n) = Some (opaque_from big 8 (sint n))"
| "gv_bytes big Ty_boolean (GV_bool b) = Some (opaque_from big 1 (if b then 1 else 0))"
| "gv_bytes big Ty_string (GV_string s) = Some (strncpy s (length s + 1))"
| "gv_bytes big k v = None"

fun update_rodata ::
  "bool \<Rightarrow> (string \<times> gv_config) list \<Rightarrow> (string \<rightharpoonup> global_value) \<Rightarrow> (string \<times> int) list \<Rightarrow> string \<Rightarrow> string option" where
  "update_rodata big added vals [] buf = Some buf"
| "update_rodata big added vals ((name, off) # offsets) buf =
     (case vals name of
        None \<Rightarrow> update_rodata big added vals offsets buf
      | Some v \<Rightarrow>
          Option.bind (map_of added name) (\<lambda>config.
          Option.bind (gv_bytes big (gc_type config) v) (\<lambda>bs.
          Option.bind (put_bytes (nat off) bs buf) (update_rodata big added vals offsets))))"

text \<open>
  A section with a scratch buffer is made larger, to one buffer for each processor. The new size is what the library
  says after it was asked for the wanted size. The result is the size, or the message of an exception, or an abort.
\<close>

datatype rw_result = Rw_abort | Rw_throws string | Rw_size nat

definition update_custom_rw_section ::
  "string \<Rightarrow> nat option \<Rightarrow> (nat \<Rightarrow> int) \<Rightarrow> (nat \<Rightarrow> nat option) \<Rightarrow> (string \<times> int) list \<Rightarrow> string list \<Rightarrow> nat \<Rightarrow> rw_result" where
  "update_custom_rw_section section_name before set_size size_after offsets needed max_cpu_id =
     (if 1 < length needed then Rw_abort
      else case before of
          None \<Rightarrow> Rw_abort
        | Some actual \<Rightarrow>
            if actual = 0 then Rw_abort
            else (let desired = (max_cpu_id + 1) * actual mod 2 ^ 64 in
              if set_size desired \<noteq> 0 then
                Rw_throws (''Failed to set size to '' @ show_nat desired @ '' for section '' @ section_name)
              else case size_after desired of
                  None \<Rightarrow> Rw_abort
                | Some actual' \<Rightarrow>
                    if actual' \<noteq> desired then
                      Rw_throws (''Failed to set size from '' @ show_nat actual' @ '' to '' @ show_nat desired @
                        '' for section '' @ section_name)
                    else if map_of offsets (hd needed) \<noteq> Some 0 then Rw_abort else Rw_size actual'))"

definition get_global_vars_for_section :: "string \<Rightarrow> global_vars \<Rightarrow> string list" where
  "get_global_vars_for_section target_section gv =
     map fst (filter (\<lambda>(name, config). gc_section config = target_section) (gv_added gv))"

definition verify_maps_found :: "string list \<Rightarrow> global_vars \<Rightarrow> bool" where
  "verify_maps_found sections gv = list_all (\<lambda>(name, config). gc_section config \<in> set sections) (gv_added gv)"

text \<open>
  The variables of the program that count processors get their values here. A section is given by its variables in
  the debug information and its bytes; the read-write sections by their sizes.
\<close>

record rw_section =
  rw_members :: "(string \<times> int) option list"
  rw_before :: "nat option"
  rw_set_size :: "nat \<Rightarrow> int"
  rw_after :: "nat \<Rightarrow> nat option"

definition with_cpus :: "nat \<Rightarrow> nat \<Rightarrow> (string \<rightharpoonup> global_value) \<Rightarrow> (string \<rightharpoonup> global_value)" where
  "with_cpus ncpus max_cpu_id vals =
     vals(''__bt__num_cpus'' \<mapsto> GV_int (of_nat ncpus), ''__bt__max_cpu_id'' \<mapsto> GV_int (of_nat max_cpu_id))"

definition update_ro_section ::
  "bool \<Rightarrow> (string \<times> int) option list \<Rightarrow> (string \<rightharpoonup> global_value) \<Rightarrow> global_vars \<Rightarrow> string \<Rightarrow> string option" where
  "update_ro_section big members vals gv buf =
     (let needed = get_global_vars_for_section ro_section gv in
      if needed = [] then Some buf
      else Option.bind (find_btf_var_offsets members needed) (\<lambda>offsets. update_rodata big (gv_added gv) vals offsets buf))"

definition update_rw_section :: "string \<Rightarrow> rw_section \<Rightarrow> global_vars \<Rightarrow> nat \<Rightarrow> rw_result" where
  "update_rw_section name sec gv max_cpu_id =
     (let needed = get_global_vars_for_section name gv in
      if needed = [] then Rw_size (case rw_before sec of None \<Rightarrow> 0 | Some n \<Rightarrow> n)
      else case find_btf_var_offsets (rw_members sec) needed of
          None \<Rightarrow> Rw_abort
        | Some offsets \<Rightarrow>
            update_custom_rw_section name (rw_before sec) (rw_set_size sec) (rw_after sec) offsets needed max_cpu_id)"

text \<open>
  All sections of a program: the read-only one, if it has one, and the others. \<open>None\<close> aborts before or while the
  read-only section is written.
\<close>

definition update_global_vars ::
  "bool \<Rightarrow> ((string \<times> int) option list \<times> string) option \<Rightarrow> (string \<times> rw_section) list \<Rightarrow> (string \<rightharpoonup> global_value) \<Rightarrow>
   nat \<Rightarrow> nat \<Rightarrow> global_vars \<Rightarrow> (string option \<times> (string \<times> rw_result) list) option" where
  "update_global_vars big ro sections vals ncpus max_cpu_id gv =
     (let rw = map (\<lambda>(name, sec). (name, update_rw_section name sec gv max_cpu_id)) sections in
      if \<not> verify_maps_found ((if ro = None then [] else [ro_section]) @ map fst sections) gv then None
      else case ro of
          None \<Rightarrow> Some (None, rw)
        | Some (members, buf) \<Rightarrow>
            map_option (\<lambda>buf. (Some buf, rw)) (update_ro_section big members (with_cpus ncpus max_cpu_id vals) gv buf))"

text \<open>The variable of a read-write section is at its beginning; otherwise the program aborts.\<close>

definition get_global_var :: "string \<Rightarrow> (string \<times> rw_section) list \<Rightarrow> global_vars \<Rightarrow> string option" where
  "get_global_var target_section sections gv =
     (if \<not> verify_maps_found (map fst sections) gv then None
      else Option.bind (map_of sections target_section) (\<lambda>sec.
        case get_global_vars_for_section target_section gv of
          [name] \<Rightarrow>
            Option.bind (find_btf_var_offsets (rw_members sec) [name]) (\<lambda>offsets.
              if map_of offsets name = Some 0 \<and> rw_before sec \<noteq> None then Some name else None)
        | _ \<Rightarrow> None))"

section \<open>Reachable states\<close>

inductive gv_reachable :: "global_vars \<Rightarrow> bool" where
  new: "gv_reachable new_global_vars"
| known: "gv_reachable gv \<Longrightarrow> add_known name gv = Some gv' \<Longrightarrow> gv_reachable gv'"
| param: "gv_reachable gv \<Longrightarrow> gv_reachable (add_named_param name v gv)"

definition param_config :: "global_value \<Rightarrow> gv_config" where
  "param_config v = \<lparr>gc_section = ro_section, gc_type = get_global_var_type v\<rparr>"

definition gv_ok :: "global_vars \<Rightarrow> bool" where
  "gv_ok gv \<longleftrightarrow>
     distinct (map fst (gv_added gv)) \<and> distinct (map fst (gv_defaults gv)) \<and>
     (\<forall>(name, v) \<in> set (gv_defaults gv). map_of (gv_added gv) name = Some (param_config v)) \<and>
     (\<forall>(name, c) \<in> set (gv_added gv). map_of global_var_configs name = Some c \<or> name \<in> fst ` set (gv_defaults gv))"

lemma gv_okD:
  assumes "gv_ok gv"
  shows "distinct (map fst (gv_added gv))" "distinct (map fst (gv_defaults gv))"
    "(name, v) \<in> set (gv_defaults gv) \<Longrightarrow> map_of (gv_added gv) name = Some (param_config v)"
    "(name, c) \<in> set (gv_added gv) \<Longrightarrow> map_of global_var_configs name = Some c \<or> name \<in> fst ` set (gv_defaults gv)"
  using assms by (auto simp: gv_ok_def)

lemma gv_reachable_ok: "gv_reachable gv \<Longrightarrow> gv_ok gv"
proof (induction rule: gv_reachable.induct)
  case new
  then show ?case by (simp add: gv_ok_def new_global_vars_def)
next
  case (known gv name gv')
  then obtain config where c: "map_of global_var_configs name = Some config"
    "gv' = (if map_of (gv_added gv) name \<noteq> None then gv else gv\<lparr>gv_added := gv_added gv @ [(name, config)]\<rparr>)"
    by (auto simp: add_known_def split: option.splits)
  show ?case
  proof (cases "map_of (gv_added gv) name")
    case None
    then have "name \<notin> fst ` set (gv_added gv)" by (simp add: map_of_eq_None_iff)
    moreover have "n \<noteq> name \<and> map_of (gv_added gv) n = Some (param_config v)" if "(n, v) \<in> set (gv_defaults gv)" for n v
      using gv_okD(3) [OF known.IH that] None by auto
    ultimately show ?thesis using c None known.IH
      by (auto simp: gv_ok_def map_add_def simp del: map_of_eq_Some_iff split: option.splits)
  qed (use c known.IH in simp)
next
  case (param gv name v)
  show ?case
  proof (cases "map_of (gv_added gv) name")
    case None
    then have fresh: "name \<notin> fst ` set (gv_added gv)" by (simp add: map_of_eq_None_iff)
    have "name \<notin> fst ` set (gv_defaults gv)" using gv_okD(3) [OF param.IH] None by force
    with fresh None param.IH show ?thesis
      by (auto simp: add_named_param_def gv_ok_def map_add_def param_config_def split: option.splits dest: map_of_SomeD)
  qed (use param.IH in \<open>simp add: add_named_param_def\<close>)
qed

section \<open>Values of the options\<close>

fun kinds_of :: "(string \<times> global_value) list \<Rightarrow> (string \<times> kind) list" where
  "kinds_of [] = []"
| "kinds_of ((name, v) # xs) = (name, get_global_var_type v) # kinds_of xs"

lemma kinds_of_Nil_iff [simp]: "kinds_of xs = [] \<longleftrightarrow> xs = []"
  by (induction xs rule: kinds_of.induct) auto


lemma map_sum_Inr_iff: "map_sum id f r = Inr y \<longleftrightarrow> (\<exists>x. r = Inr x \<and> y = f x)"
  by (cases r) auto


lemma param_value_typed:
  "param_value t name given = Some (Inr vs) \<Longrightarrow> t \<in> {Ty_integer, Ty_boolean, Ty_string} \<Longrightarrow>
   \<exists>v. vs = [v] \<and> get_global_var_type v = t"
  by (cases given) (auto split: if_splits option.splits sum.splits num_error.splits)

lemma kind_of_default: "get_global_var_type v \<in> {Ty_integer, Ty_boolean, Ty_string}"
  by (cases v) auto

lemma value_of_default_typed:
  assumes "map_of (gv_added gv) name = Some (param_config d)" "value_of_default gv given (name, d) = Some (Inr vs)"
  shows "\<exists>v. vs = [(name, v)] \<and> get_global_var_type v = get_global_var_type d"
proof (cases "map_of (rev given) name")
  case None
  with assms kind_of_default [of d] show ?thesis by (auto simp: value_of_default_def param_config_def split: if_splits)
next
  case (Some g)
  with assms obtain us where us: "param_value (get_global_var_type d) name g = Some (Inr us)" "vs = map (Pair name) us"
    by (auto simp: value_of_default_def param_config_def map_sum_Inr_iff)
  from param_value_typed [OF us(1) kind_of_default] us(2) show ?thesis by auto
qed

lemma values_of_defaults_typed:
  assumes "values_of_defaults gv given ds = Some (Inr vals)" "\<forall>(name, d) \<in> set ds. map_of (gv_added gv) name = Some (param_config d)"
  shows "kinds_of vals = kinds_of ds"
  using assms
proof (induction ds arbitrary: vals)
  case (Cons x ds)
  obtain name d where x: "x = (name, d)" by (cases x)
  from Cons.prems(1) obtain vs ws where vs: "value_of_default gv given x = Some (Inr vs)" "values_of_defaults gv given ds = Some (Inr ws)"
      "vals = vs @ ws"
    by (auto simp: map_sum_Inr_iff split: option.splits sum.splits)
  from value_of_default_typed [of gv name d given vs] vs(1) x Cons.prems(2) obtain v where
    "vs = [(name, v)]" "get_global_var_type v = get_global_var_type d" by auto
  with Cons.IH [OF vs(2)] Cons.prems(2) vs(3) x show ?case by auto
qed simp

text \<open>In every reachable state, when the options are accepted, each parameter of the program gets exactly one value,
  of the kind of its default.\<close>

theorem option_values_typed:
  assumes "gv_reachable gv" "get_named_param_vals raw gv = Some (Inr vals)"
  shows "kinds_of vals = kinds_of (gv_defaults gv)"
proof -
  from assms(2) obtain given where "values_of_defaults gv given (gv_defaults gv) = Some (Inr vals)"
    by (auto simp: get_named_param_vals_def Let_def split: option.splits if_splits)
  then show ?thesis
    by (rule values_of_defaults_typed) (use gv_okD(3) [OF gv_reachable_ok [OF assms(1)]] in auto)
qed








section \<open>The values in the read-only section\<close>

lemma put_bytes_slice:
  assumes "put_bytes off bs buf = Some buf'"
  shows "length buf' = length buf" "opaque_slice buf' off (length bs) = Some bs"
    "o' + n \<le> off \<or> off + length bs \<le> o' \<Longrightarrow> opaque_slice buf' o' n = opaque_slice buf o' n"
proof -
  from assms have b: "off + length bs \<le> length buf" "buf' = take off buf @ bs @ drop (off + length bs) buf"
    by (auto simp: put_bytes_def split: if_splits)
  then show "length buf' = length buf" "opaque_slice buf' off (length bs) = Some bs"
    by (simp_all add: opaque_slice_def)
  assume "o' + n \<le> off \<or> off + length bs \<le> o'"
  then have "take n (drop o' buf') = take n (drop o' buf)"
  proof
    assume "o' + n \<le> off"
    with b have "take (o' + n) buf' = take (o' + n) buf" by simp
    then show ?thesis by (simp add: take_drop add.commute)
  next
    assume "off + length bs \<le> o'"
    with b show ?thesis by simp
  qed
  with b show "opaque_slice buf' o' n = opaque_slice buf o' n" by (simp add: opaque_slice_def)
qed

text \<open>What is written for a variable, if anything is.\<close>

definition written :: "bool \<Rightarrow> (string \<times> gv_config) list \<Rightarrow> (string \<rightharpoonup> global_value) \<Rightarrow> string \<Rightarrow> string option" where
  "written big added vals name =
     Option.bind (vals name) (\<lambda>v. Option.bind (map_of added name) (\<lambda>config. gv_bytes big (gc_type config) v))"

lemma update_rodata_Cons:
  "update_rodata big added vals ((name, off) # offsets) buf = Some buf' \<longleftrightarrow>
     (if vals name = None then update_rodata big added vals offsets buf = Some buf'
      else \<exists>bs buf1. written big added vals name = Some bs \<and> put_bytes (nat off) bs buf = Some buf1 \<and>
        update_rodata big added vals offsets buf1 = Some buf')"
  by (cases "vals name"; cases "map_of added name") (auto simp: written_def bind_eq_Some_conv)

lemma update_rodata_other:
  assumes "update_rodata big added vals offsets buf = Some buf'"
    "\<And>name off bs. (name, off) \<in> set offsets \<Longrightarrow> written big added vals name = Some bs \<Longrightarrow>
       o' + n \<le> nat off \<or> nat off + length bs \<le> o'"
  shows "opaque_slice buf' o' n = opaque_slice buf o' n"
  using assms
proof (induction offsets arbitrary: buf)
  case (Cons x offsets)
  obtain name off where x: "x = (name, off)" by (cases x)
  show ?case
  proof (cases "vals name")
    case None
    with Cons.prems(1) x have "update_rodata big added vals offsets buf = Some buf'" by simp
    then show ?thesis by (rule Cons.IH) (use Cons.prems(2) in auto)
  next
    case (Some v)
    with Cons.prems(1) x obtain bs buf1 where b: "written big added vals name = Some bs" "put_bytes (nat off) bs buf = Some buf1"
        "update_rodata big added vals offsets buf1 = Some buf'" by (auto simp: update_rodata_Cons simp del: update_rodata.simps)
    have "opaque_slice buf' o' n = opaque_slice buf1 o' n" by (rule Cons.IH [OF b(3)]) (use Cons.prems(2) in auto)
    also have "\<dots> = opaque_slice buf o' n"
      using Cons.prems(2) [of name off bs] x b(1) put_bytes_slice(3) [OF b(2)] by auto
    finally show ?thesis .
  qed
qed simp

lemma update_rodata_written:
  assumes "update_rodata big added vals offsets buf = Some buf'" "distinct (map fst offsets)" "(name, off) \<in> set offsets"
    "written big added vals name = Some bs"
    "\<And>name' off' bs'. (name', off') \<in> set offsets \<Longrightarrow> name' \<noteq> name \<Longrightarrow> written big added vals name' = Some bs' \<Longrightarrow>
       nat off + length bs \<le> nat off' \<or> nat off' + length bs' \<le> nat off"
  shows "opaque_slice buf' (nat off) (length bs) = Some bs"
  using assms
proof (induction offsets arbitrary: buf)
  case (Cons x offsets)
  obtain name1 off1 where x: "x = (name1, off1)" by (cases x)
  show ?case
  proof (cases "name1 = name")
    case True
    with Cons.prems(2,3) x have off: "off1 = off" and notin: "name \<notin> fst ` set offsets" by force+
    have some: "vals name \<noteq> None" using Cons.prems(4) by (cases "vals name") (auto simp: written_def)
    with Cons.prems(1,4) x True off obtain buf1 where b: "put_bytes (nat off) bs buf = Some buf1"
        "update_rodata big added vals offsets buf1 = Some buf'" by (auto simp: update_rodata_Cons simp del: update_rodata.simps)
    have "opaque_slice buf' (nat off) (length bs) = opaque_slice buf1 (nat off) (length bs)"
      by (rule update_rodata_other [OF b(2)]) (use notin Cons.prems(5) in force)
    with put_bytes_slice(2) [OF b(1)] show ?thesis by simp
  next
    case False
    from Cons.prems(1) x obtain buf1 where "update_rodata big added vals offsets buf1 = Some buf'"
      by (cases "vals name1") (auto simp: update_rodata_Cons simp del: update_rodata.simps)
    then show ?thesis by (rule Cons.IH) (use Cons.prems False x in auto)
  qed
qed simp

text \<open>The room that a variable has, and a layout that gives every variable its room.\<close>

definition gv_room :: "nat \<Rightarrow> kind \<Rightarrow> nat" where
  "gv_room max_str k = (if k = Ty_integer then 8 else if k = Ty_boolean then 1 else max_str)"

definition separate :: "nat \<Rightarrow> global_vars \<Rightarrow> (string \<times> int) list \<Rightarrow> bool" where
  "separate max_str gv offsets \<longleftrightarrow>
     (\<forall>(n1, o1) \<in> set offsets. \<forall>(n2, o2) \<in> set offsets. \<forall>c1 c2. n1 \<noteq> n2 \<and>
        map_of (gv_added gv) n1 = Some c1 \<and> map_of (gv_added gv) n2 = Some c2 \<longrightarrow>
        nat o1 + gv_room max_str (gc_type c1) \<le> nat o2 \<or> nat o2 + gv_room max_str (gc_type c2) \<le> nat o1)"

text \<open>The room is the size of the type that the variable is declared with.\<close>

lemma gv_room_is_size:
  assumes "map_of (gv_added gv) name = Some c" "gc_type c \<in> {Ty_integer, Ty_boolean, Ty_string}" "max_str < 2 ^ 60"
    "name \<notin> set (drop 2 (map fst global_var_configs))"
  shows "map_option get_size (get_sized_type name res max_str gv) = Some (gv_room max_str (gc_type c))"
proof -
  have "get_size (make_rw_type 1 (byte_array max_str)) = max_str"
    using assms(3) by (simp add: make_rw_type_def byte_array_def create_array_def get_size_def int_type_def)
  with assms(1,2,4) show ?thesis
    by (auto simp: get_sized_type_def get_gv_config_def global_var_configs_def gv_room_def get_size_def int_type_def)
qed

text \<open>A string has to be shorter than the longest that the program can hold.\<close>

definition fits_room :: "nat \<Rightarrow> global_value \<Rightarrow> bool" where
  "fits_room max_str v \<longleftrightarrow> (\<forall>s. v = GV_string s \<longrightarrow> length s < max_str)"

lemma length_strncpy: "length (strncpy s n) = n"
  by (simp add: strncpy_def)

lemma gv_bytes_room: "gv_bytes big k v = Some bs \<Longrightarrow> fits_room max_str v \<Longrightarrow> length bs \<le> gv_room max_str k"
  by (induction big k v rule: gv_bytes.induct) (auto simp: gv_room_def fits_room_def length_strncpy)

text \<open>The value of a kind at an offset.\<close>

definition read_var :: "bool \<Rightarrow> string \<Rightarrow> nat \<Rightarrow> global_value \<Rightarrow> bool" where
  "read_var big buf off v =
     (case v of
        GV_int n \<Rightarrow> Option.bind (opaque_slice buf off 8) (\<lambda>s. bitcast big 8 True s 0) = Some (sint n)
      | GV_bool b \<Rightarrow> Option.bind (opaque_slice buf off 1) (\<lambda>s. bitcast big 1 True s 0) = Some (if b then 1 else 0)
      | GV_string s \<Rightarrow> c_str (drop off buf) = c_str s)"

lemma c_str_strncpy: "c_str (strncpy s (length s + 1) @ xs) = c_str s"
proof -
  have le: "length (c_str s) \<le> length s" by (simp add: c_str_def length_takeWhile_le)
  have no: "char_code c \<noteq> 0" if "c \<in> set (c_str s)" for c using that by (auto simp: c_str_def dest: set_takeWhileD)
  have "replicate (length s + 1 - length (c_str s)) (chr_of 0) = chr_of 0 # replicate (length s - length (c_str s)) (chr_of 0)"
    using le by (simp add: Suc_diff_le)
  then show ?thesis using le no by (simp add: strncpy_def c_str_def [of "_ @ _"] takeWhile_append)
qed

lemma gv_bytes_read:
  assumes "gv_bytes big k v = Some bs" "opaque_slice buf off (length bs) = Some bs"
  shows "read_var big buf off v"
  using assms
proof (induction big k v rule: gv_bytes.induct)
  case (1 big n)
  have "in_range 8 True (sint n)" using sint_lt [of n] sint_ge [of n] by (simp add: in_range_def)
  then show ?case using 1 by (auto simp: read_var_def bitcast_from)
next
  case (2 big b)
  have "in_range 1 True (if b then 1 else 0)" by (simp add: in_range_def)
  then show ?case using 2 bitcast_from [of 1 True _ big] by (auto simp: read_var_def)
next
  case (3 big s)
  then have bs: "bs = strncpy s (length s + 1)" by simp
  with 3 have "take (length bs) (drop off buf) = bs" by (auto simp: opaque_slice_def split: if_splits)
  then have "drop off buf = strncpy s (length s + 1) @ drop (length bs) (drop off buf)"
    using bs by (metis append_take_drop_id)
  then show ?case using c_str_strncpy [of s "drop (length bs) (drop off buf)"] by (simp add: read_var_def del: drop_drop)
qed auto

text \<open>C14: When the variables of the read-only section have the room of their types and no string is too long for it, the
  section holds the value of every variable once it is written: no value runs into another.\<close>

theorem rodata_holds_values:
  assumes "update_rodata big (gv_added gv) vals offsets buf = Some buf'" "distinct (map fst offsets)"
    "separate max_str gv offsets" "\<forall>v \<in> ran vals. fits_room max_str v" "(name, off) \<in> set offsets" "vals name = Some v"
  shows "read_var big buf' (nat off) v"
proof -
  have bound: "\<exists>c. map_of (gv_added gv) n = Some c \<and> length bs \<le> gv_room max_str (gc_type c)"
    if "written big (gv_added gv) vals n = Some bs" for n bs
    using that assms(4) gv_bytes_room by (auto simp: written_def bind_eq_Some_conv ran_def)
  have "written big (gv_added gv) vals name \<noteq> None"
    using assms(1,5,6)
  proof (induction offsets arbitrary: buf)
    case (Cons x offsets)
    then show ?case by (cases x; cases "vals (fst x)") (auto simp: update_rodata_Cons simp del: update_rodata.simps)
  qed simp
  then obtain bs where bs: "written big (gv_added gv) vals name = Some bs" by blast
  have "opaque_slice buf' (nat off) (length bs) = Some bs"
  proof (rule update_rodata_written [OF assms(1,2,5) bs])
    fix name' off' bs'
    assume n': "(name', off') \<in> set offsets" "name' \<noteq> name" "written big (gv_added gv) vals name' = Some bs'"
    from bound [OF bs] bound [OF n'(3)] obtain c c' where "map_of (gv_added gv) name = Some c" "length bs \<le> gv_room max_str (gc_type c)"
      "map_of (gv_added gv) name' = Some c'" "length bs' \<le> gv_room max_str (gc_type c')" by blast
    with assms(3,5) n' show "nat off + length bs \<le> nat off' \<or> nat off' + length bs' \<le> nat off"
      by (force simp: separate_def)
  qed
  with bs assms(6) show ?thesis using gv_bytes_read by (auto simp: written_def bind_eq_Some_conv)
qed

section \<open>At concrete inputs\<close>

definition sample_gv :: global_vars where
  "sample_gv = add_named_param ''z'' (GV_string ''ab'') (add_named_param ''n'' (GV_int 5) new_global_vars)"

lemma sample_gv_reachable: "gv_reachable sample_gv"
  unfolding sample_gv_def by (intro gv_reachable.new gv_reachable.param)

lemma sample_gv_parts:
  "gv_added sample_gv = [(''n'', \<lparr>gc_section = ro_section, gc_type = Ty_integer\<rparr>), (''z'', \<lparr>gc_section = ro_section, gc_type = Ty_string\<rparr>)]"
  "gv_defaults sample_gv = [(''n'', GV_int 5), (''z'', GV_string ''ab'')]"
  by (simp_all add: sample_gv_def add_named_param_def new_global_vars_def)

theorem option_values_typed_witness:
  "kinds_of [(''n'', GV_int 5), (''z'', GV_string ''ab'')] = kinds_of (gv_defaults sample_gv)"
proof (rule option_values_typed [OF sample_gv_reachable])
  show "get_named_param_vals [] sample_gv = Some (Inr [(''n'', GV_int 5), (''z'', GV_string ''ab'')])"
    by (simp add: get_named_param_vals_def value_of_default_def sample_gv_parts)
qed


theorem rodata_holds_values_witness:
  "\<exists>buf. update_rodata False (gv_added sample_gv) [''n'' \<mapsto> GV_int (- 3), ''z'' \<mapsto> GV_string ''hi''] [(''n'', 0), (''z'', 8)]
      (replicate 12 CHR ''x'') = Some buf \<and> read_var False buf 0 (GV_int (- 3)) \<and> read_var False buf 8 (GV_string ''hi'')"
proof -
  let ?vals = "[''n'' \<mapsto> GV_int (- 3), ''z'' \<mapsto> GV_string ''hi''] :: string \<rightharpoonup> global_value"
  let ?offsets = "[(''n'', 0), (''z'', 8)] :: (string \<times> int) list"
  have "\<exists>buf. update_rodata False (gv_added sample_gv) ?vals ?offsets (replicate 12 CHR ''x'') = Some buf"
    by (simp add: sample_gv_parts put_bytes_def length_strncpy)
  then obtain buf where buf: "update_rodata False (gv_added sample_gv) ?vals ?offsets (replicate 12 CHR ''x'') = Some buf" by blast
  have d: "distinct (map fst ?offsets)" by simp
  have sep: "separate 4 sample_gv ?offsets" by (simp add: separate_def sample_gv_parts gv_room_def)
  have fits: "\<forall>v \<in> ran ?vals. fits_room 4 v" by (auto simp: ran_def fits_room_def split: if_splits)
  note read = rodata_holds_values [OF buf d sep fits]
  from read [of "''n''" 0] read [of "''z''" 8] buf show ?thesis by simp
qed

text \<open>
  Nothing compares the length of a string with the room of its variable: a longer one overwrites the next variable.
  An option with two signs of equality is taken as an empty string, and a single sign reads the first of no elements.
\<close>

lemma bytes_nat_zeros: "bytes_nat big (replicate n (chr_of 0)) = 0"
  by (induction n) (simp_all add: bytes_nat_def rev_replicate split: if_splits)

lemma long_option_overflows:
  "\<exists>buf. update_rodata False (gv_added sample_gv) [''n'' \<mapsto> GV_int 5, ''z'' \<mapsto> GV_string ''12345678''] [(''n'', 8), (''z'', 0)]
      (replicate 16 CHR ''x'') = Some buf \<and> separate 8 sample_gv [(''n'', 8), (''z'', 0)] \<and> \<not> read_var False buf 8 (GV_int 5)"
proof -
  have "Option.bind (update_rodata False (gv_added sample_gv) [''n'' \<mapsto> GV_int 5, ''z'' \<mapsto> GV_string ''12345678''] [(''n'', 8), (''z'', 0)]
      (replicate 16 CHR ''x'')) (\<lambda>buf. opaque_slice buf 8 8) = Some (replicate 8 (chr_of 0))"
    by code_simp
  moreover have "bitcast False 8 True (replicate 8 (chr_of 0)) 0 = Some 0"
    using bytes_nat_zeros [of False 8] by (simp add: bitcast_def opaque_slice_def int_of_bits_def)
  moreover have "separate 8 sample_gv [(''n'', 8), (''z'', 0)]" by (simp add: separate_def sample_gv_parts gv_room_def)
  ultimately show ?thesis by (auto simp: read_var_def bind_eq_Some_conv)
qed

lemma two_equal_signs: "get_named_param_vals [''z=a=b''] sample_gv = Some (Inr [(''n'', GV_int 5), (''z'', GV_string [])])"
  by code_simp

lemma lone_equal_sign: "get_named_param_vals [''=''] gv = None"
  by (simp add: get_named_param_vals_def split_param_def split_string_def getline_all_delim [of "CHR ''=''" "[]", simplified])

end
