(* ===== verification/Resources.thy ===== *)
theory Resources
  imports Bpf_Maps Global_Vars Map_Sugar Format_String
begin

text \<open>
  The resource analysis (\<open>ast/passes/resource_analyser.cpp\<close>, with \<open>ast/codegen_helper.cpp\<close> and the fields of
  \<open>required_resources.h\<close> that it fills): what a script needs when it runs. It walks the tree after the types are known,
  collects the arguments of the calls that print in user space, the maps, and the numbers and sizes of the scratch
  buffers for values that are too large for the stack.
\<close>

section \<open>What needs memory of its own\<close>

definition should_be_in_bpf_memory_already :: "sized_type \<Rightarrow> bool" where
  "should_be_in_bpf_memory_already t \<longleftrightarrow> ty t \<in> {Ty_string, Ty_buffer, Ty_inet, Ty_usym_t, Ty_kstack_t, Ty_ustack_t,
     Ty_tuple, Ty_timestamp, Ty_mac_address, Ty_cgroup_path_t}"

definition in_bpf_memory :: "sized_type \<Rightarrow> bool" where
  "in_bpf_memory t \<longleftrightarrow> is_internal (attrs t) \<or> should_be_in_bpf_memory_already t"

definition need_memcpy :: "sized_type \<Rightarrow> bool" where
  "need_memcpy t \<longleftrightarrow> is_aggregate t \<or> ty t = Ty_timestamp \<or> ty t = Ty_cgroup_path_t"

definition find_addrspace_stack :: "sized_type \<Rightarrow> addr_space" where
  "find_addrspace_stack t = (if should_be_in_bpf_memory_already t then AS_kernel else addr_space (attrs t))"


definition need_map_key_allocation :: "map_node \<Rightarrow> expression \<Rightarrow> bool" where
  "need_map_key_allocation m key =
     (if in_bpf_memory (expr_type key) then \<not> is_same_size_recursive (expr_type key) (m_key_type m) else True)"

section \<open>Resources\<close>

datatype severity = Severity_none | Severity_error | Severity_warning

record map_entry = map_info +
  me_id :: int
  me_max_entries :: int
  me_bpf_type :: bpf_map_type

definition new_map_entry :: map_entry where
  "new_map_entry = \<lparr>mi_key = create_none, mi_value = create_none, mi_detail = No_detail, mi_scalar = False,
     me_id = - 1, me_max_entries = - 1, me_bpf_type = Map_hash\<rparr>"

text \<open>The last three fields are of the analysis itself. A probe is its index, a function is none.\<close>

record resources = buffer_sizes +
  rs_printf :: "(format_string \<times> field list \<times> severity) list"
  rs_system :: "(format_string \<times> field list) list"
  rs_bpf_print :: "format_string list"
  rs_cat :: "(format_string \<times> field list) list"
  rs_join :: "string list"
  rs_time :: "string list"
  rs_strftime :: "string list"
  rs_cgroup_path :: "string list"
  rs_non_map_print :: "sized_type list"
  rs_skboutput :: "(string \<times> int) list"
  rs_using_skboutput :: bool
  rs_maps :: "(string \<times> map_entry) list"
  rs_global_vars :: global_vars
  rs_using_usym :: "nat option list"
  rs_errors :: "string list"
  rs_next_map_id :: int
  rs_map_decls :: "(string \<times> bpf_map_type \<times> int) list"

definition new_resources :: resources where
  "new_resources = \<lparr>max_fmtstring_args_size = 0, tuple_buffers = 0, max_tuple_size = 0, str_buffers = 0,
     read_map_value_buffers = 0, max_read_map_value_size = 0, max_write_map_value_size = 0, variable_buffers = 0,
     max_variable_size = 0, map_key_buffers = 0, max_map_key_size = 0,
     rs_printf = [], rs_system = [], rs_bpf_print = [], rs_cat = [], rs_join = [], rs_time = [], rs_strftime = [],
     rs_cgroup_path = [], rs_non_map_print = [], rs_skboutput = [], rs_using_skboutput = False, rs_maps = [],
     rs_global_vars = new_global_vars, rs_using_usym = [], rs_errors = [], rs_next_map_id = 0, rs_map_decls = []\<rparr>"

text \<open>
  What the analysis reads: the limit of a value on the stack, the length of strings and the number of keys of the
  configuration, the structs, the defaults of the named parameters, and which maps are scalars.
\<close>

record res_env =
  re_limit :: nat
  re_max_str :: nat
  re_max_keys :: nat
  re_structs :: "string \<rightharpoonup> struct_t"
  re_params :: "(string \<times> global_value) list"
  re_scalar :: "string \<Rightarrow> bool"


definition exceeds_stack_limit :: "res_env \<Rightarrow> nat \<Rightarrow> bool" where
  "exceeds_stack_limit env sz \<longleftrightarrow> re_limit env < sz"

definition uses_usym_table :: "string \<Rightarrow> bool" where
  "uses_usym_table fn \<longleftrightarrow> fn \<in> {''usym'', ''__builtin_func'', ''ustack''}"

definition mark_usym :: "nat option \<Rightarrow> string \<Rightarrow> resources \<Rightarrow> resources" where
  "mark_usym p fn r =
     (if uses_usym_table fn then r\<lparr>rs_using_usym := List.insert p (rs_using_usym r)\<rparr> else r)"

text \<open>\<open>maps_info[name]\<close> adds an entry where there is none.\<close>

definition map_entry_of :: "string \<Rightarrow> resources \<Rightarrow> map_entry" where
  "map_entry_of name r = (case om_get (rs_maps r) name of None \<Rightarrow> new_map_entry | Some e \<Rightarrow> e)"

definition put_entry :: "string \<Rightarrow> map_entry \<Rightarrow> resources \<Rightarrow> resources" where
  "put_entry name e r = r\<lparr>rs_maps := om_put opaque_less name e (rs_maps r)\<rparr>"


section \<open>Buffers\<close>

definition str_buffer :: "res_env \<Rightarrow> resources \<Rightarrow> resources" where
  "str_buffer env r = (if exceeds_stack_limit env (re_max_str env) then r\<lparr>str_buffers := str_buffers r + 1\<rparr> else r)"

definition fmt_buffer :: "res_env \<Rightarrow> nat \<Rightarrow> resources \<Rightarrow> resources" where
  "fmt_buffer env sz r =
     (if exceeds_stack_limit env sz then r\<lparr>max_fmtstring_args_size := max (max_fmtstring_args_size r) sz\<rparr> else r)"

definition tuple_buffer :: "res_env \<Rightarrow> nat \<Rightarrow> resources \<Rightarrow> resources" where
  "tuple_buffer env sz r =
     (if exceeds_stack_limit env sz
      then r\<lparr>tuple_buffers := tuple_buffers r + 1, max_tuple_size := max (max_tuple_size r) sz\<rparr> else r)"

definition read_buffer :: "res_env \<Rightarrow> nat \<Rightarrow> resources \<Rightarrow> resources" where
  "read_buffer env sz r =
     (if exceeds_stack_limit env sz
      then r\<lparr>read_map_value_buffers := read_map_value_buffers r + 1,
        max_read_map_value_size := max (max_read_map_value_size r) sz\<rparr> else r)"

definition write_buffer :: "res_env \<Rightarrow> nat \<Rightarrow> resources \<Rightarrow> resources" where
  "write_buffer env sz r =
     (if exceeds_stack_limit env sz then r\<lparr>max_write_map_value_size := max (max_write_map_value_size r) sz\<rparr> else r)"

definition key_buffer :: "res_env \<Rightarrow> nat \<Rightarrow> resources \<Rightarrow> resources" where
  "key_buffer env sz r =
     (if exceeds_stack_limit env sz
      then r\<lparr>map_key_buffers := map_key_buffers r + 1, max_map_key_size := max (max_map_key_size r) sz\<rparr> else r)"

definition update_variable_info :: "res_env \<Rightarrow> variable \<Rightarrow> resources \<Rightarrow> resources" where
  "update_variable_info env v r =
     (if exceeds_stack_limit env (get_size (v_type v))
      then r\<lparr>variable_buffers := variable_buffers r + 1, max_variable_size := max (max_variable_size r) (get_size (v_type v))\<rparr>
      else r)"

definition maybe_allocate_map_key_buffer :: "res_env \<Rightarrow> map_node \<Rightarrow> expression \<Rightarrow> resources \<Rightarrow> resources" where
  "maybe_allocate_map_key_buffer env m key r =
     (if need_map_key_allocation m key then key_buffer env (get_size (m_key_type m)) r else r)"

section \<open>Maps\<close>

definition update_map_info :: "res_env \<Rightarrow> map_node \<Rightarrow> resources \<Rightarrow> resources" where
  "update_map_info env m r =
     (let e = (map_entry_of (m_ident m) r)\<lparr>mi_value := m_value_type m, mi_key := m_key_type m, mi_scalar := re_scalar env (m_ident m)\<rparr>;
          e' = (case map_of (rs_map_decls r) (m_ident m) of
                  Some (t, n) \<Rightarrow> e\<lparr>me_bpf_type := t, me_max_entries := n\<rparr>
                | None \<Rightarrow>
                    e\<lparr>me_bpf_type := get_bpf_map_type (mi_value e) (mi_scalar e),
                      me_max_entries := (if \<not> is_multi_key_map_ty (m_value_type m) \<and> mi_scalar e then 1
                        else cast_int 4 True (int (re_max_keys env)))\<rparr>)
      in put_entry (m_ident m) e' r)"

definition res_map :: "res_env \<Rightarrow> map_node \<Rightarrow> resources \<Rightarrow> resources" where
  "res_map env m r =
     (case map_of (re_params env) (m_ident m) of
        Some v \<Rightarrow>
          (let r = r\<lparr>rs_global_vars := add_named_param (m_ident m) v (rs_global_vars r)\<rparr>
           in if get_global_var_type v = Ty_string then str_buffer env r else r)
      | None \<Rightarrow> update_map_info env m r)"


section \<open>Calls\<close>








definition res_error :: "string \<Rightarrow> resources \<Rightarrow> resources" where
  "res_error msg r = r\<lparr>rs_errors := rs_errors r @ [msg]\<rparr>"



definition record_fmt :: "string \<Rightarrow> probe_type option \<Rightarrow> format_string \<Rightarrow> field list \<Rightarrow> resources \<Rightarrow> resources" where
  "record_fmt fn kind fmt fs r =
     (if fn = ''printf'' then
        (if kind = Some PT_iter then r\<lparr>rs_bpf_print := rs_bpf_print r @ [fmt]\<rparr>
         else r\<lparr>rs_printf := rs_printf r @ [(fmt, fs, Severity_none)]\<rparr>)
      else if fn = ''errorf'' then r\<lparr>rs_printf := rs_printf r @ [(fmt, fs, Severity_error)]\<rparr>
      else if fn = ''warnf'' then r\<lparr>rs_printf := rs_printf r @ [(fmt, fs, Severity_warning)]\<rparr>
      else if fn = ''debugf'' then r\<lparr>rs_bpf_print := rs_bpf_print r @ [fmt]\<rparr>
      else if fn = ''system'' then r\<lparr>rs_system := rs_system r @ [(fmt, fs)]\<rparr>
      else r\<lparr>rs_cat := rs_cat r @ [(fmt, fs)]\<rparr>)"


text \<open>The arguments of a histogram or a time series are recorded once, and others for the same map are an error.\<close>

fun same_detail :: "map_detail \<Rightarrow> map_detail \<Rightarrow> bool" where
  "same_detail (Hist_args b) (Hist_args b') \<longleftrightarrow> b = b'"
| "same_detail (Lhist_args a b c) (Lhist_args a' b' c') \<longleftrightarrow> a = a' \<and> b = b' \<and> c = c'"
| "same_detail (Tseries_args i n t agg) (Tseries_args i' n' t' agg') \<longleftrightarrow> i = i' \<and> n = n' \<and> is_equal t t' \<and> agg = agg'"
| "same_detail d d' \<longleftrightarrow> False"

definition set_detail :: "string \<Rightarrow> map_detail \<Rightarrow> string \<Rightarrow> resources \<Rightarrow> resources" where
  "set_detail name d msg r =
     (let e = map_entry_of name r in
      if mi_detail e = No_detail then put_entry name (e\<lparr>mi_detail := d\<rparr>) r
      else if same_detail (mi_detail e) d then put_entry name e r
      else res_error msg (put_entry name e r))"






definition give_map_id :: "string \<Rightarrow> resources \<Rightarrow> resources" where
  "give_map_id name r =
     (let e = map_entry_of name r in
      if me_id e = - 1 then (put_entry name (e\<lparr>me_id := rs_next_map_id r\<rparr>) r)\<lparr>rs_next_map_id := rs_next_map_id r + 1\<rparr>
      else put_entry name e r)"




section \<open>The walk over the tree\<close>







fun each_of :: "('a \<Rightarrow> 's \<Rightarrow> 'e + 's) \<Rightarrow> 'a list \<Rightarrow> 's \<Rightarrow> 'e + 's" where
  "each_of f [] s = Inr s"
| "each_of f (x # xs) s = result_bind (f x s) (each_of f xs)"









section \<open>One event at a time\<close>

text \<open>What holds of the result of an operation, if it has one.\<close>

definition gives :: "('a \<Rightarrow> bool) \<Rightarrow> 'e + 'a \<Rightarrow> bool" where
  "gives P res \<longleftrightarrow> (\<forall>x. res = Inr x \<longrightarrow> P x)"

lemma gives_simps [simp]: "gives P (Inr x) = P x" "gives P (Inl e)"
  by (simp_all add: gives_def)

lemma gives_True [simp]: "gives (\<lambda>x. True) res"
  by (simp add: gives_def)

lemma gives_bind [simp]: "gives P (result_bind res f) = gives (\<lambda>x. gives P (f x)) res"
  by (cases res) simp_all

lemma gives_map [simp]: "gives P (map_sum id h res) = gives (\<lambda>x. P (h x)) res"
  by (cases res) simp_all

lemma gives_if [simp]: "gives P (if b then res else res') = (if b then gives P res else gives P res')"
  by simp

lemma gives_option [simp]:
  "gives P (case x of None \<Rightarrow> res | Some y \<Rightarrow> f y) = (case x of None \<Rightarrow> gives P res | Some y \<Rightarrow> gives P (f y))"
  by (cases x) simp_all


lemma gives_mono: "gives P res \<Longrightarrow> (\<And>x. P x \<Longrightarrow> Q x) \<Longrightarrow> gives Q res"
  by (simp add: gives_def)

lemma each_of_append: "each_of f (xs @ ys) s = result_bind (each_of f xs s) (each_of f ys)"
proof (induction xs arbitrary: s)
  case (Cons x xs)
  then show ?case by (cases "f x s") auto
qed (cases ys; simp)




text \<open>What a call does to the parts of the resources that it has nothing to do with.\<close>

definition slots :: "resources \<Rightarrow> nat \<times> nat \<times> nat \<times> nat \<times> nat \<times> nat" where
  "slots r = (read_map_value_buffers r, max_read_map_value_size r, tuple_buffers r, max_tuple_size r, variable_buffers r,
     max_variable_size r)"

lemmas small_steps = str_buffer_def fmt_buffer_def write_buffer_def key_buffer_def maybe_allocate_map_key_buffer_def
  mark_usym_def put_entry_def res_error_def Let_def

lemma slots_update [simp]:
  "slots (r\<lparr>max_fmtstring_args_size := x0\<rparr>) = slots r" "slots (r\<lparr>str_buffers := x1\<rparr>) = slots r"
  "slots (r\<lparr>max_write_map_value_size := x2\<rparr>) = slots r" "slots (r\<lparr>map_key_buffers := x3\<rparr>) = slots r"
  "slots (r\<lparr>max_map_key_size := x4\<rparr>) = slots r" "slots (r\<lparr>rs_printf := x5\<rparr>) = slots r"
  "slots (r\<lparr>rs_system := x6\<rparr>) = slots r" "slots (r\<lparr>rs_bpf_print := x7\<rparr>) = slots r"
  "slots (r\<lparr>rs_cat := x8\<rparr>) = slots r" "slots (r\<lparr>rs_join := x9\<rparr>) = slots r"
  "slots (r\<lparr>rs_time := x10\<rparr>) = slots r" "slots (r\<lparr>rs_strftime := x11\<rparr>) = slots r"
  "slots (r\<lparr>rs_cgroup_path := x12\<rparr>) = slots r" "slots (r\<lparr>rs_non_map_print := x13\<rparr>) = slots r"
  "slots (r\<lparr>rs_skboutput := x14\<rparr>) = slots r" "slots (r\<lparr>rs_using_skboutput := x15\<rparr>) = slots r"
  "slots (r\<lparr>rs_maps := x16\<rparr>) = slots r" "slots (r\<lparr>rs_global_vars := x17\<rparr>) = slots r"
  "slots (r\<lparr>rs_using_usym := x18\<rparr>) = slots r" "slots (r\<lparr>rs_errors := x19\<rparr>) = slots r"
  "slots (r\<lparr>rs_next_map_id := x20\<rparr>) = slots r" "slots (r\<lparr>rs_map_decls := x21\<rparr>) = slots r"
  by (simp_all add: slots_def)

lemma slots_small [simp]:
  "slots (str_buffer env r) = slots r" "slots (fmt_buffer env n r) = slots r" "slots (write_buffer env n r) = slots r"
  "slots (key_buffer env n r) = slots r" "slots (maybe_allocate_map_key_buffer env m k r) = slots r"
  "slots (mark_usym p fn r) = slots r" "slots (put_entry name e r) = slots r" "slots (res_error msg r) = slots r"
  by (simp_all add: small_steps)


lemma slots_visit_map [simp]: "slots (res_map env m r) = slots r"
  by (simp add: res_map_def update_map_info_def Let_def split: option.splits)

lemma slots_set_detail [simp]: "slots (set_detail name d msg r) = slots r"
  by (simp add: set_detail_def Let_def)

lemma slots_give_map_id [simp]: "slots (give_map_id name r) = slots r"
  by (simp add: give_map_id_def Let_def)

lemma slots_record_fmt [simp]: "slots (record_fmt fn kind fmt fs r) = slots r"
  by (simp add: record_fmt_def)






section \<open>Every value has its slot\<close>
















section \<open>The global variables of a program\<close>

definition fin_inv :: "res_env \<Rightarrow> resources \<Rightarrow> bool" where
  "fin_inv env r \<longleftrightarrow>
     (0 < max_map_key_size r \<longrightarrow> 0 < map_key_buffers r) \<and> gv_reachable (rs_global_vars r) \<and>
     fst ` set (gv_added (rs_global_vars r)) \<subseteq> insert ''__bt__num_cpus'' (fst ` set (re_params env))"

lemma fin_inv_update [simp]:
  "fin_inv env (r\<lparr>max_fmtstring_args_size := x0\<rparr>) = fin_inv env r" "fin_inv env (r\<lparr>str_buffers := x1\<rparr>) = fin_inv env r"
  "fin_inv env (r\<lparr>max_write_map_value_size := x2\<rparr>) = fin_inv env r" "fin_inv env (r\<lparr>tuple_buffers := x3\<rparr>) = fin_inv env r"
  "fin_inv env (r\<lparr>max_tuple_size := x4\<rparr>) = fin_inv env r" "fin_inv env (r\<lparr>read_map_value_buffers := x5\<rparr>) = fin_inv env r"
  "fin_inv env (r\<lparr>max_read_map_value_size := x6\<rparr>) = fin_inv env r" "fin_inv env (r\<lparr>variable_buffers := x7\<rparr>) = fin_inv env r"
  "fin_inv env (r\<lparr>max_variable_size := x8\<rparr>) = fin_inv env r" "fin_inv env (r\<lparr>rs_printf := x9\<rparr>) = fin_inv env r"
  "fin_inv env (r\<lparr>rs_system := x10\<rparr>) = fin_inv env r" "fin_inv env (r\<lparr>rs_bpf_print := x11\<rparr>) = fin_inv env r"
  "fin_inv env (r\<lparr>rs_cat := x12\<rparr>) = fin_inv env r" "fin_inv env (r\<lparr>rs_join := x13\<rparr>) = fin_inv env r"
  "fin_inv env (r\<lparr>rs_time := x14\<rparr>) = fin_inv env r" "fin_inv env (r\<lparr>rs_strftime := x15\<rparr>) = fin_inv env r"
  "fin_inv env (r\<lparr>rs_cgroup_path := x16\<rparr>) = fin_inv env r" "fin_inv env (r\<lparr>rs_non_map_print := x17\<rparr>) = fin_inv env r"
  "fin_inv env (r\<lparr>rs_skboutput := x18\<rparr>) = fin_inv env r" "fin_inv env (r\<lparr>rs_using_skboutput := x19\<rparr>) = fin_inv env r"
  "fin_inv env (r\<lparr>rs_maps := x20\<rparr>) = fin_inv env r" "fin_inv env (r\<lparr>rs_using_usym := x21\<rparr>) = fin_inv env r"
  "fin_inv env (r\<lparr>rs_errors := x22\<rparr>) = fin_inv env r" "fin_inv env (r\<lparr>rs_next_map_id := x23\<rparr>) = fin_inv env r"
  "fin_inv env (r\<lparr>rs_map_decls := x24\<rparr>) = fin_inv env r"
  by (simp_all add: fin_inv_def)

lemma fin_inv_key_buffer [simp]: "fin_inv env r \<Longrightarrow> fin_inv env (key_buffer env' n r)"
  by (auto simp: key_buffer_def fin_inv_def exceeds_stack_limit_def)

lemma fin_inv_small [simp]:
  assumes "fin_inv env r"
  shows "fin_inv env (str_buffer env' r)" "fin_inv env (fmt_buffer env' n r)" "fin_inv env (write_buffer env' n r)"
    "fin_inv env (maybe_allocate_map_key_buffer env' m k r)" "fin_inv env (mark_usym p fn r)" "fin_inv env (put_entry name e r)"
    "fin_inv env (res_error msg r)" "fin_inv env (read_buffer env' n r)" "fin_inv env (tuple_buffer env' n r)"
    "fin_inv env (update_variable_info env' v r)" "fin_inv env (record_fmt fn kind fmt fs r)"
  using assms
  by (simp_all add: str_buffer_def fmt_buffer_def write_buffer_def maybe_allocate_map_key_buffer_def mark_usym_def put_entry_def
      res_error_def read_buffer_def tuple_buffer_def update_variable_info_def record_fmt_def)

lemma fin_inv_set_detail [simp]: "fin_inv env r \<Longrightarrow> fin_inv env (set_detail name d msg r)"
  by (simp add: set_detail_def Let_def)

lemma fin_inv_give_map_id [simp]: "fin_inv env r \<Longrightarrow> fin_inv env (give_map_id name r)"
  by (simp add: give_map_id_def Let_def)












section \<open>The end of the analysis\<close>











section \<open>What the analysis promises\<close>















section \<open>At concrete inputs\<close>







text \<open>
  A named parameter with the name of a scratch buffer takes the entry of the buffer, and its type then depends on sizes
  that the script may not need.
\<close>

lemma param_named_like_buffer:
  "get_sized_type ''__bt__tuple_buf'' new_resources 64 (add_named_param ''__bt__tuple_buf'' (GV_int 1) new_global_vars) = None"
  by (simp add: get_sized_type_def get_gv_config_def add_named_param_def new_global_vars_def new_resources_def asserting_def)

end
