(* ===== verification/Spec2Isabelle.thy ===== *)
theory Spec2Isabelle
  imports Prelude Str_Util Int_Parser Sized_Types Structs Function_Registry Config Probe_Types
    Attach_Parser Attach_Check Arch AST AST_Visit AST_State Fold_Arith Fold_Literals Fold_Runs
    Fold_Correct Control_Flow Macro_Expansion Macro_Correct Map_Sugar Map_Sugar_Correct Script_Passes
    Builtin_Passes Output Json_Output Opaque Hist_Format Format_String Type_Format Map_Format
    Bpf_Maps Global_Vars Resources
begin

text \<open>
  A verification library for bpftrace, the tracing language for Linux. A bpftrace script is a list of
  probes: attach points, an optional predicate and a block of statements. The program parses the script
  into a tree (\<open>src/ast/ast.h\<close>), sends the tree through a pipeline of passes (\<open>src/ast/passes\<close>) that parse
  and expand the attach points, expand macros, fold literals, desugar maps, analyse control flow and
  types, and then emits LLVM code, loads it into the kernel and prints what the maps and events hold.
  Paths in the text are relative to the source directory of the repository.

  \<^bold>\<open>The parts and their theories.\<close>

  \<^item> \<open>Prelude\<close>: the vocabulary. \<open>uint64_t\<close> and \<open>uint32_t\<close> are words, the operations of \<open>std::string\<close> are
    functions on lists of bytes, fallible code returns a sum (\<open>Inl\<close> the error) or an option.
  \<^item> \<open>Str_Util\<close>: \<open>util/strings\<close>, \<open>util/wildcard\<close>, \<open>util/math\<close>, symbol helpers. Lemmas: splitting and
    joining, wildcard matching against an independent definition of matching (sound and complete),
    rounding up to a power of two.
  \<^item> \<open>Int_Parser\<close>: \<open>util/int_parser\<close> with the C library's \<open>strtoull\<close>. Lemmas: the value of decimal digits
    with underscores and a suffix, printing and parsing back.
  \<^item> \<open>Sized_Types\<close>: \<open>types.h\<close> and \<open>types.cpp\<close>, the type \<open>SizedType\<close> with its constructors, predicates,
    comparison and \<open>FitsInto\<close>. Lemmas: \<open>FitsInto\<close> on integers is inclusion of values and a preorder,
    the comparison is a total preorder.
  \<^item> \<open>Structs\<close>: \<open>struct.h\<close> and \<open>struct.cpp\<close>, bit fields, layout of tuples and records, the manager of
    structures. Lemmas: fields of a layout are aligned, disjoint and within the size.
  \<^item> \<open>Function_Registry\<close>: \<open>functions.cpp\<close>. Lemmas: what \<open>get\<close> finds is a candidate that the arguments
    fit, a function that is added is the one found.
  \<^item> \<open>Config\<close>: \<open>config.cpp\<close>, the parser of every option, \<open>set\<close> and the environment. Lemmas: setting
    one option changes no other, printing and setting.
  \<^item> \<open>Probe_Types\<close>: \<open>probe_types.cpp\<close>, the list of probe types and the attach point node.
  \<^item> \<open>Attach_Parser\<close> and \<open>Attach_Check\<close>: \<open>attachpoint_passes.cpp\<close>, with its lexer, the parser of each probe
    type and the checker. Lemmas: a quoted part is read back, the lexer ends exactly when no positional
    parameter refers to itself, kprobes print and parse, accepted watchpoints are well formed.
  \<^item> \<open>AST\<close>, \<open>AST_Visit\<close>, \<open>AST_State\<close>: \<open>ast.h\<close> and \<open>visitor.h\<close>. The tree is a datatype, a default traversal gives
    the children of a node, and the same traversal with a state carries the passes; its rules are a
    locale that every pass interprets.
  \<^item> \<open>Fold_Arith\<close>, \<open>Fold_Literals\<close>, \<open>Fold_Runs\<close>, \<open>Fold_Correct\<close>: \<open>fold_literals.cpp\<close>. Lemmas: arithmetic on literals is
    exact or refused, a run ends, and which trees are folded to which value.
  \<^item> \<open>Control_Flow\<close>: \<open>control_flow_analyser.cpp\<close>. Lemmas: a block that the analysis calls ending has no
    path to its end, the injection makes every block end in a jump and keeps the checks satisfied.
  \<^item> \<open>Macro_Expansion\<close>, \<open>Macro_Correct\<close>: \<open>macro_expansion.cpp\<close>. Lemmas: no call of a macro is left, a variable
    of the caller is captured by no macro, every macro of a registry can be reached.
  \<^item> \<open>Map_Sugar\<close>, \<open>Map_Sugar_Correct\<close>: \<open>map_sugar.cpp\<close>. Lemmas: a tree without diagnostics uses each map in
    one way.
  \<^item> \<open>Script_Passes\<close>: the passes over a whole script, \<open>config_analyser\<close>, \<open>unstable_feature\<close>, \<open>deprecated\<close>,
    \<open>portability_analyser\<close>, \<open>pid_filter_pass\<close>, \<open>probe_prune\<close>, \<open>recursion_check\<close>. Lemmas: the loop over renamed
    options ends, portability is exact, what is reported and how often.
  \<^item> \<open>Arch\<close>: \<open>arch/\<close>, the registers and calling conventions of the machines. Lemmas: the tables of
    each machine agree, and accepted watchpoints can be set.
  \<^item> \<open>Builtin_Passes\<close>: \<open>builtins.cpp\<close>, \<open>signal.cpp\<close> and \<open>named_param.cpp\<close>. Lemmas: what is left after them.

  \<^item> \<open>Output\<close> and \<open>Json_Output\<close>: \<open>output/\<close>, printing on a model of \<open>std::ostream\<close>. Lemmas: which histograms print,
    the width of their bars, the JSON output writes JSON and its strings are read back.
  \<^item> \<open>Format_String\<close>: \<open>format_string.cpp\<close>, the specifiers of \<open>printf\<close>: the regular expression as a matcher, the check
    of the arguments' types and the formatting of each of them. Lemmas: a printed format string parses back, a checked
    one prints no error, the width of what is printed.
  \<^item> \<open>Opaque\<close>: \<open>util/opaque\<close>, \<open>util/stats.h\<close> and \<open>util/tseries.cpp\<close>, blobs read from maps and what is computed over the
    values of all processors. Lemmas: what these reductions are, as sums, extrema and folds over the values.
  \<^item> \<open>Hist_Format\<close>, \<open>Type_Format\<close> and \<open>Map_Format\<close>: \<open>types_format.cpp\<close> with the collecting half of \<open>bpfmap.cpp\<close>, from bytes
    of the kernel to values that the outputs print. Lemmas: labels increase and no count is lost, any bytes of a well laid
    out type are printed, the order of the entries, which entries are printed, what the collected buckets hold. A value
    is formatted with fuel for its nesting; the depth of its type is enough (\<open>laid_out\<close>).
  \<^item> \<open>Bpf_Maps\<close>: the rest of \<open>bpfmap.cpp\<close> and \<open>bpfmap.h\<close>: the kinds of maps, names, and the operations that change a map of
    the kernel, whose calls are arguments. Lemmas: the kind of a declaration fits the values, clearing leaves nothing.
  \<^item> \<open>Global_Vars\<close>: \<open>globalvars.cpp\<close>, the variables of a program, their types, the values of options on the command
    line, and how they are written into the sections. What the library says of the sections is an argument. Lemmas: the
    invariant of the two tables, the kinds of the values, the round trip of printed options, the bytes of every variable.
  \<^item> \<open>Resources\<close>: \<open>ast/passes/resource_analyser.cpp\<close> as a walk over events of the tree. Lemmas: what every event does to the
    numbers and sizes of the scratch buffers, which variables are added, that no assertion fails.

  \<^bold>\<open>How state and effects are modelled.\<close> A C++ object that an operation changes is a record that the
  definition returns changed. Diagnostics are lists of messages without their source location, in the
  order in which the code adds them. A pass that changes the tree in place returns the changed tree. A
  \<open>LOG(BUG)\<close>, an exception, or an operation that C++ leaves undefined is a value of its own, never an
  ordinary result. What is not in the repository, such as the C library beyond ISO C, the kernel, LLVM, libbpf or
  bcc, is a parameter of the definitions: a record of answers, a function, or a relation.

  \<^bold>\<open>Fuel, measures and bounds.\<close> Recursions over the tree end by the size of the node; macro expansion ends
  by the length of the stack of macros against the registry and then the size. The folder carries fuel, and
  \<open>fold_total\<close> shows that the depth of the tree is enough. The lexer of attach points may run forever on
  a positional parameter that refers to itself; it is a partial function into an option, with
  theorems for both cases. Integers of 64 bits are words wherever they can wrap.

  \<^bold>\<open>Not modelled.\<close> Code generation (\<open>codegen_llvm.cpp\<close>, \<open>irbuilderbpf.cpp\<close>, \<open>async_event_types.cpp\<close>) builds LLVM
  values through the LLVM library and has no meaning without a model of LLVM. Reading BTF, DWARF and
  ELF, attaching probes and polling buffers are calls of libbpf, libelf, lldb and the kernel.
  The grammar and the lexer are generated by bison and flex. The files of the standard library
  are headers for the traced kernel and programs in bpftrace's own language.
\<close>

end
